(* ===== verification/Lcp_Prelude.thy ===== *)
theory Lcp_Prelude
  imports Main "HOL-Library.Word" "HOL-Library.Char_ord" "HOL-Library.List_Lexorder"
    "HOL-Library.Sublist"
begin

text \<open>
  Shared vocabulary of the development: machine integers, Rust strings as UTF-8 bytes with the
  operations of the standard library that the sources call (\<open>chars\<close>, \<open>trim\<close>, \<open>parse\<close>,
  \<open>eq_ignore_ascii_case\<close>, \<open>format!\<close> of integers), in-place update of the first match of a
  list, the bounded push of a queue, and the lemma collections that the component theories fill.

  A Rust \<open>String\<close> is modelled by the list of its UTF-8 bytes (type \<open>string\<close>, whose characters
  are bytes).  So \<open>len()\<close> is \<open>length\<close>, \<open>starts_with\<close> is \<open>prefix\<close> and the derived order
  is the lexicographic order on bytes, exactly as in Rust; a Unicode scalar value is one block
  of bytes, see \<open>chars\<close>.
\<close>

named_theorems app_defs "definitions of the lock sections and handlers of the daemon"
named_theorems keeps "preservation of the component invariants by the operations"

section \<open>Integers\<close>

type_synonym u8 = "8 word"
type_synonym u16 = "16 word"
type_synonym u32 = "32 word"
type_synonym u64 = "64 word"
type_synonym bytes = "8 word list"
type_synonym uuid = "128 word"

abbreviation bytes_of :: "string \<Rightarrow> bytes" where
  "bytes_of s \<equiv> map of_char s"

section \<open>Characters of a UTF-8 string\<close>

definition is_cont :: "char \<Rightarrow> bool" where
  "is_cont c \<longleftrightarrow> (128::nat) \<le> of_char c \<and> of_char c < (192::nat)"

text \<open>\<open>str::chars\<close>: a scalar value is a leading byte with the continuation bytes that follow.\<close>

function chars :: "string \<Rightarrow> string list" where
  "chars [] = []"
| "chars (c # cs) = (c # takeWhile is_cont cs) # chars (dropWhile is_cont cs)"
  by pat_completeness auto
termination
  by (relation "measure length") (auto simp: le_imp_less_Suc length_dropWhile_le)

text \<open>\<open>char::is_whitespace\<close>: the White_Space property, as UTF-8.\<close>

definition whitespace_chars :: "nat list list" where
  "whitespace_chars =
     [[9], [10], [11], [12], [13], [32], [194, 133], [194, 160], [225, 154, 128],
      [226, 128, 128], [226, 128, 129], [226, 128, 130], [226, 128, 131], [226, 128, 132],
      [226, 128, 133], [226, 128, 134], [226, 128, 135], [226, 128, 136], [226, 128, 137],
      [226, 128, 138], [226, 128, 168], [226, 128, 169], [226, 128, 175], [226, 129, 159],
      [227, 128, 128]]"

definition is_whitespace :: "string \<Rightarrow> bool" where
  "is_whitespace c \<longleftrightarrow> map of_char c \<in> set whitespace_chars"

text \<open>\<open>char::is_control\<close>: category Cc, the code points 0-31 and 127-159.\<close>

definition is_control :: "string \<Rightarrow> bool" where
  "is_control c \<longleftrightarrow>
     (case map of_char c of
        [b] \<Rightarrow> b < (32::nat) \<or> b = 127
      | [b, d] \<Rightarrow> b = 194 \<and> 128 \<le> d \<and> d \<le> 159
      | _ \<Rightarrow> False)"

definition trim_chars :: "string list \<Rightarrow> string list" where
  "trim_chars cs = rev (dropWhile is_whitespace (rev (dropWhile is_whitespace cs)))"

definition trim :: "string \<Rightarrow> string" where
  "trim s = concat (trim_chars (chars s))"

definition take_chars :: "nat \<Rightarrow> string \<Rightarrow> string" where
  "take_chars n s = concat (take n (chars s))"

definition char_count :: "string \<Rightarrow> nat" where
  "char_count s = length (chars s)"

text \<open>
  A list of blocks is the decomposition of its concatenation when every block but the first
  starts with a leading byte, and continuation bytes fill the rest of each block.
\<close>

definition block :: "string \<Rightarrow> bool" where
  "block b \<longleftrightarrow> b \<noteq> [] \<and> list_all is_cont (tl b)"

definition lead :: "string \<Rightarrow> bool" where
  "lead b \<longleftrightarrow> b \<noteq> [] \<and> \<not> is_cont (hd b)"

definition blocks :: "string list \<Rightarrow> bool" where
  "blocks bs \<longleftrightarrow> list_all block bs \<and> list_all lead (tl bs)"

lemma concat_chars [simp]: "concat (chars s) = s"
  by (induction s rule: chars.induct) auto

lemma chars_eq_Nil [simp]: "chars s = [] \<longleftrightarrow> s = []"
  by (cases s) auto

lemma lead_chars: "s = [] \<or> \<not> is_cont (hd s) \<Longrightarrow> list_all lead (take 1 (chars s))"
  by (cases s) (auto simp: lead_def)

lemma hd_dropWhile_cont: "dropWhile is_cont cs = [] \<or> \<not> is_cont (hd (dropWhile is_cont cs))"
  using hd_dropWhile by blast

lemma blocks_chars [simp, intro]: "blocks (chars s)"
proof (induction s rule: chars.induct)
  case 1
  then show ?case by (simp add: blocks_def)
next
  case (2 c cs)
  have "list_all is_cont (takeWhile is_cont cs)"
    by (auto simp: list_all_iff dest: set_takeWhileD)
  with 2 lead_chars [OF hd_dropWhile_cont, of cs] show ?case
    by (cases "chars (dropWhile is_cont cs)") (auto simp: blocks_def block_def simp del: dropWhile_eq_Nil_conv)
qed

lemma blocks_ConsD: "blocks (b # bs) \<Longrightarrow> blocks bs"
  by (cases bs) (auto simp: blocks_def)

lemma concat_lead: "list_all lead bs \<Longrightarrow> concat bs = [] \<or> \<not> is_cont (hd (concat bs))"
  by (induction bs) (auto simp: lead_def hd_append)

lemma take_drop_block:
  assumes "list_all is_cont xs" and "ys = [] \<or> \<not> is_cont (hd ys)"
  shows "takeWhile is_cont (xs @ ys) = xs" and "dropWhile is_cont (xs @ ys) = ys"
proof -
  have "takeWhile is_cont ys = []" and "dropWhile is_cont ys = ys"
    using assms(2) by (cases ys; simp)+
  with assms(1) show "takeWhile is_cont (xs @ ys) = xs" and "dropWhile is_cont (xs @ ys) = ys"
    by (auto simp: list_all_iff takeWhile_append dropWhile_append)
qed

lemma chars_concat: "blocks bs \<Longrightarrow> chars (concat bs) = bs"
proof (induction bs)
  case Nil
  then show ?case by simp
next
  case (Cons b bs)
  obtain c cs where b: "b = c # cs" and cs: "list_all is_cont cs" and bs: "list_all lead bs"
    using Cons.prems by (cases b) (auto simp: blocks_def block_def)
  have IH: "chars (concat bs) = bs"
    using Cons.IH Cons.prems by (blast dest: blocks_ConsD)
  show ?case
    using take_drop_block [OF cs concat_lead [OF bs]] IH by (simp add: b)
qed

lemma blocks_drop: "blocks bs \<Longrightarrow> blocks (drop n bs)"
proof (induction n arbitrary: bs)
  case 0
  then show ?case by simp
next
  case (Suc n)
  then show ?case by (cases bs) (auto dest: blocks_ConsD)
qed

lemma blocks_take: "blocks bs \<Longrightarrow> blocks (take n bs)"
  by (cases bs; cases n) (auto simp: blocks_def list_all_iff dest: in_set_takeD)

lemma blocks_dropWhile: "blocks bs \<Longrightarrow> blocks (dropWhile P bs)"
  by (simp add: blocks_drop dropWhile_eq_drop)

lemma rev_dropWhile_rev: "rev (dropWhile P (rev xs)) = take (length xs - length (takeWhile P (rev xs))) xs"
  by (simp add: dropWhile_eq_drop rev_drop)

lemma blocks_trim_chars [intro]: "blocks bs \<Longrightarrow> blocks (trim_chars bs)"
  by (auto simp: trim_chars_def rev_dropWhile_rev intro: blocks_take blocks_dropWhile)

lemma chars_trim [simp]: "chars (trim s) = trim_chars (chars s)"
  by (simp add: trim_def chars_concat blocks_trim_chars)

lemma chars_take_chars [simp]: "chars (take_chars n s) = take n (chars s)"
  by (simp add: take_chars_def chars_concat blocks_take)

lemma char_count_take_chars: "char_count (take_chars n s) = min n (char_count s)"
  by (simp add: char_count_def min.commute)

lemma length_trim_chars: "length (trim_chars cs) \<le> length cs"
  using length_dropWhile_le [of is_whitespace cs]
    length_dropWhile_le [of is_whitespace "rev (dropWhile is_whitespace cs)"]
  by (simp add: trim_chars_def)

lemma set_trim_chars: "set (trim_chars cs) \<subseteq> set cs"
proof
  fix x assume "x \<in> set (trim_chars cs)"
  then have "x \<in> set (dropWhile is_whitespace (rev (dropWhile is_whitespace cs)))"
    by (simp add: trim_chars_def)
  then have "x \<in> set (rev (dropWhile is_whitespace cs))" by (auto dest: set_dropWhileD)
  then have "x \<in> set (dropWhile is_whitespace cs)" by simp
  then show "x \<in> set cs" by (auto dest: set_dropWhileD)
qed

lemma trim_chars_hd_last:
  assumes "trim_chars cs \<noteq> []"
  shows "\<not> is_whitespace (hd (trim_chars cs))" and "\<not> is_whitespace (last (trim_chars cs))"
proof -
  let ?ds = "dropWhile is_whitespace cs"
  let ?k = "length ?ds - length (takeWhile is_whitespace (rev ?ds))"
  have eq: "trim_chars cs = take ?k ?ds"
    by (simp only: trim_chars_def rev_dropWhile_rev)
  from assms have ds: "?ds \<noteq> []" and k: "?k \<noteq> 0"
    unfolding eq by auto
  have "hd (trim_chars cs) = hd ?ds"
    using k unfolding eq by (simp add: hd_take)
  with hd_dropWhile [OF ds] show "\<not> is_whitespace (hd (trim_chars cs))" by simp
  have "dropWhile is_whitespace (rev ?ds) \<noteq> []"
    using assms unfolding trim_chars_def by (metis rev.simps(1))
  from hd_dropWhile [OF this] show "\<not> is_whitespace (last (trim_chars cs))"
    unfolding trim_chars_def last_rev .
qed

lemma trim_chars_idem [simp]: "trim_chars (trim_chars cs) = trim_chars cs"
proof (cases "trim_chars cs")
  case Nil
  have "trim_chars [] = []" by (simp add: trim_chars_def)
  with Nil show ?thesis by simp
next
  case (Cons a as)
  then have ne: "trim_chars cs \<noteq> []" by simp
  have "dropWhile is_whitespace (trim_chars cs) = trim_chars cs"
    using trim_chars_hd_last(1) [OF ne] Cons by simp
  moreover have "dropWhile is_whitespace (rev (trim_chars cs)) = rev (trim_chars cs)"
    using trim_chars_hd_last(2) [OF ne] ne by (cases "rev (trim_chars cs)") (auto simp flip: hd_rev)
  ultimately show ?thesis by (simp add: trim_chars_def [of "trim_chars cs"])
qed

lemma trim_idem [simp]: "trim (trim s) = trim s"
proof -
  have "trim (trim s) = concat (trim_chars (chars (trim s)))" by (rule trim_def)
  also have "\<dots> = concat (trim_chars (chars s))" by simp
  also have "\<dots> = trim s" by (simp only: trim_def)
  finally show ?thesis .
qed

section \<open>ASCII case folding\<close>

text \<open>\<open>str::eq_ignore_ascii_case\<close> compares bytes after lowering \<open>A\<close>-\<open>Z\<close>.\<close>

definition ascii_lower :: "char \<Rightarrow> char" where
  "ascii_lower c = (let n = of_char c :: nat in if 65 \<le> n \<and> n \<le> 90 then char_of (n + 32) else c)"

definition eq_ignore_ascii_case :: "string \<Rightarrow> string \<Rightarrow> bool" where
  "eq_ignore_ascii_case a b \<longleftrightarrow> map ascii_lower a = map ascii_lower b"

lemma eq_ignore_ascii_case_refl [simp]: "eq_ignore_ascii_case a a"
  by (simp add: eq_ignore_ascii_case_def)

lemma eq_ignore_ascii_case_sym: "eq_ignore_ascii_case a b \<Longrightarrow> eq_ignore_ascii_case b a"
  by (simp add: eq_ignore_ascii_case_def)

lemma eq_ignore_ascii_case_trans:
  "eq_ignore_ascii_case a b \<Longrightarrow> eq_ignore_ascii_case b c \<Longrightarrow> eq_ignore_ascii_case a c"
  by (simp add: eq_ignore_ascii_case_def)

lemma eq_ignore_ascii_case_length: "eq_ignore_ascii_case a b \<Longrightarrow> length a = length b"
  by (auto simp: eq_ignore_ascii_case_def dest: map_eq_imp_length_eq)

lemma eq_ignore_ascii_case_append_left:
  "eq_ignore_ascii_case (p @ a) (p @ b) \<longleftrightarrow> eq_ignore_ascii_case a b"
  by (simp add: eq_ignore_ascii_case_def)

section \<open>Decimal numbers\<close>

definition digit_char :: "nat \<Rightarrow> char" where
  "digit_char d = char_of (48 + d)"

text \<open>Rendering of an unsigned integer by \<open>format!\<close>, and with a minimum of four digits.\<close>

fun show_nat :: "nat \<Rightarrow> string" where
  "show_nat n = (if n < 10 then [digit_char n] else show_nat (n div 10) @ [digit_char (n mod 10)])"

declare show_nat.simps [simp del]

definition show_nat4 :: "nat \<Rightarrow> string" where
  "show_nat4 n = (let s = show_nat n in replicate (4 - length s) (CHR ''0'') @ s)"

text \<open>\<open>str::parse\<close> for \<open>u32\<close>: an optional plus sign, then digits, without overflow.\<close>

definition digit_value :: "char \<Rightarrow> nat option" where
  "digit_value c = (let n = of_char c in if 48 \<le> n \<and> n \<le> 57 then Some (n - 48) else None)"

fun digits_value :: "nat \<Rightarrow> string \<Rightarrow> nat option" where
  "digits_value acc [] = Some acc"
| "digits_value acc (c # cs) =
     (case digit_value c of None \<Rightarrow> None | Some d \<Rightarrow> digits_value (10 * acc + d) cs)"

definition parse_u32 :: "string \<Rightarrow> u32 option" where
  "parse_u32 s =
     (let ds = (if take 1 s = ''+'' then drop 1 s else s)
      in if ds = [] then None
         else case digits_value 0 ds of
           None \<Rightarrow> None
         | Some n \<Rightarrow> if n < 2 ^ 32 then Some (of_nat n) else None)"

definition parse_bool :: "string \<Rightarrow> bool option" where
  "parse_bool s = (if s = ''true'' then Some True else if s = ''false'' then Some False else None)"

lemma digit_value_digit_char [simp]: "d < 10 \<Longrightarrow> digit_value (digit_char d) = Some d"
  by (simp add: digit_value_def digit_char_def Let_def)

lemma digits_value_append:
  "digits_value acc (xs @ ys) =
     (case digits_value acc xs of None \<Rightarrow> None | Some n \<Rightarrow> digits_value n ys)"
  by (induction xs arbitrary: acc) (auto split: option.splits)

lemma digits_value_show_nat [simp]: "digits_value 0 (show_nat n) = Some n"
proof (induction n rule: show_nat.induct)
  case (1 n)
  show ?case
  proof (cases "n < 10")
    case True
    then show ?thesis by (simp add: show_nat.simps [of n])
  next
    case False
    with 1 show ?thesis by (simp add: show_nat.simps [of n] digits_value_append)
  qed
qed

lemma show_nat_nonempty [simp]: "show_nat n \<noteq> []"
  by (subst show_nat.simps) simp

lemma digit_char_plus: "d < 10 \<Longrightarrow> digit_char d \<noteq> CHR ''+''"
proof
  assume "d < 10" and "digit_char d = CHR ''+''"
  then have "digit_value (CHR ''+'') = Some d" by (metis digit_value_digit_char)
  then show False by (simp add: digit_value_def)
qed

lemma hd_show_nat: "hd (show_nat n) \<noteq> CHR ''+''"
proof (induction n rule: show_nat.induct)
  case (1 n)
  then show ?case
    by (subst show_nat.simps) (auto simp: digit_char_plus hd_append)
qed

lemma parse_u32_show_nat: "n < 2 ^ 32 \<Longrightarrow> parse_u32 (show_nat n) = Some (of_nat n)"
proof -
  assume n: "n < 2 ^ 32"
  have "take 1 (show_nat n) \<noteq> ''+''"
    using hd_show_nat [of n] by (cases "show_nat n") auto
  then show ?thesis using n by (simp add: parse_u32_def Let_def)
qed

lemma show_nat_inject [simp]: "show_nat m = show_nat n \<longleftrightarrow> m = n"
  by (metis digits_value_show_nat option.inject)

lemma eq_ignore_ascii_case_digits:
  assumes "digits_value 0 a = Some m" and "digits_value 0 b = Some n" and "eq_ignore_ascii_case a b"
  shows "a = b"
proof -
  have lower: "map ascii_lower s = s" if "digits_value k s = Some v" for k s v
    using that
  proof (induction s arbitrary: k)
    case Nil
    then show ?case by simp
  next
    case (Cons c s)
    then have "ascii_lower c = c"
      by (auto simp: digit_value_def ascii_lower_def Let_def split: option.splits if_splits)
    with Cons show ?case by (auto split: option.splits)
  qed
  from assms show ?thesis by (simp add: eq_ignore_ascii_case_def lower)
qed

section \<open>Input and output errors\<close>

text \<open>\<open>std::io::Error\<close>, by the kinds the sources tell apart.\<close>

datatype io_error = UnexpectedEof | BrokenPipe | OtherIo string

text \<open>\<open>[String]::join\<close>\<close>

fun join :: "string \<Rightarrow> string list \<Rightarrow> string" where
  "join sep [] = []"
| "join sep [s] = s"
| "join sep (s # t # ss) = s @ sep @ join sep (t # ss)"

section \<open>Lists\<close>

text \<open>\<open>iter_mut().find(p)\<close> followed by a write through the reference it returns.\<close>

primrec update_first :: "('a \<Rightarrow> bool) \<Rightarrow> ('a \<Rightarrow> 'a) \<Rightarrow> 'a list \<Rightarrow> 'a list" where
  "update_first P f [] = []"
| "update_first P f (x # xs) = (if P x then f x # xs else x # update_first P f xs)"

lemma length_update_first [simp]: "length (update_first P f xs) = length xs"
  by (induction xs) auto

lemma map_update_first: "(\<And>x. P x \<Longrightarrow> g (f x) = g x) \<Longrightarrow> map g (update_first P f xs) = map g xs"
  by (induction xs) auto

lemma update_first_none: "(\<And>x. x \<in> set xs \<Longrightarrow> \<not> P x) \<Longrightarrow> update_first P f xs = xs"
  by (induction xs) auto

lemma set_update_first: "y \<in> set (update_first P f xs) \<Longrightarrow> y \<in> set xs \<or> (\<exists>x \<in> set xs. P x \<and> y = f x)"
  by (induction xs) (auto split: if_splits)

lemma find_update_first:
  "(\<And>x. P x \<Longrightarrow> P (f x)) \<Longrightarrow> find P (update_first P f xs) = map_option f (find P xs)"
  by (induction xs) auto

lemma find_append: "find P (xs @ ys) = (case find P xs of None \<Rightarrow> find P ys | Some x \<Rightarrow> Some x)"
  by (induction xs) auto

lemma find_SomeD: "find P xs = Some x \<Longrightarrow> x \<in> set xs \<and> P x"
  by (auto simp: find_Some_iff)

lemma find_None_iff_all: "find P xs = None \<longleftrightarrow> (\<forall>x \<in> set xs. \<not> P x)"
  by (auto simp: find_None_iff)

end
