(* ===== verification/Lcp_Json.thy ===== *)
theory Lcp_Json
  imports Lcp_Prelude
begin

text \<open>
  \<open>serde_json::Value\<close> as the sources use it: the variants of the public enum, which
  \<open>config.rs\<close> and \<open>commands/config.rs\<close> match on, and the accessors that the daemon and the
  CLI call on it.  An object is an association list without duplicate keys (the \<open>json!\<close>
  literals of the sources have none); a number that is no integer is kept as its text, which no
  code here inspects.  Parsing and printing of JSON text are third-party code: where the sources
  call them they are arguments of the model.
\<close>

datatype json =
    JNull
  | JBool bool
  | JInt int
  | JFloat string
  | JStr string
  | JArr "json list"
  | JObj "(string \<times> json) list"

fun get :: "json \<Rightarrow> string \<Rightarrow> json option" where
  "get (JObj kvs) k = map_of kvs k"
| "get _ _ = None"

fun as_str :: "json \<Rightarrow> string option" where
  "as_str (JStr s) = Some s"
| "as_str _ = None"

fun as_bool :: "json \<Rightarrow> bool option" where
  "as_bool (JBool b) = Some b"
| "as_bool _ = None"

fun as_u64 :: "json \<Rightarrow> u64 option" where
  "as_u64 (JInt n) = (if 0 \<le> n \<and> n < 2 ^ 64 then Some (of_int n) else None)"
| "as_u64 _ = None"

fun as_i64 :: "json \<Rightarrow> int option" where
  "as_i64 (JInt n) = (if - (2 ^ 63) \<le> n \<and> n < 2 ^ 63 then Some n else None)"
| "as_i64 _ = None"

fun as_array :: "json \<Rightarrow> json list option" where
  "as_array (JArr vs) = Some vs"
| "as_array _ = None"

text \<open>\<open>v.get(k).and_then(|v| v.as_str())\<close> and its kin.\<close>

definition get_str :: "json \<Rightarrow> string \<Rightarrow> string option" where
  "get_str v k = Option.bind (get v k) as_str"

definition get_bool :: "json \<Rightarrow> string \<Rightarrow> bool option" where
  "get_bool v k = Option.bind (get v k) as_bool"

definition get_u64 :: "json \<Rightarrow> string \<Rightarrow> u64 option" where
  "get_u64 v k = Option.bind (get v k) as_u64"

definition get_i64 :: "json \<Rightarrow> string \<Rightarrow> int option" where
  "get_i64 v k = Option.bind (get v k) as_i64"

definition jopt :: "('a \<Rightarrow> json) \<Rightarrow> 'a option \<Rightarrow> json" where
  "jopt f x = (case x of None \<Rightarrow> JNull | Some a \<Rightarrow> f a)"

definition unwrap_or :: "'a option \<Rightarrow> 'a \<Rightarrow> 'a" where
  "unwrap_or x d = (case x of None \<Rightarrow> d | Some a \<Rightarrow> a)"

lemma unwrap_or_simps [simp]: "unwrap_or None d = d" "unwrap_or (Some a) d = a"
  by (simp_all add: unwrap_or_def)

lemma get_JObj_Cons [simp]: "get_str (JObj ((k, v) # kvs)) j = (if j = k then as_str v else get_str (JObj kvs) j)"
  "get_u64 (JObj ((k, v) # kvs)) j = (if j = k then as_u64 v else get_u64 (JObj kvs) j)"
  "get_bool (JObj ((k, v) # kvs)) j = (if j = k then as_bool v else get_bool (JObj kvs) j)"
  "get_i64 (JObj ((k, v) # kvs)) j = (if j = k then as_i64 v else get_i64 (JObj kvs) j)"
  by (auto simp: get_str_def get_u64_def get_bool_def get_i64_def)

lemma get_JObj_Nil [simp]: "get_str (JObj []) j = None" "get_u64 (JObj []) j = None"
  "get_bool (JObj []) j = None" "get_i64 (JObj []) j = None"
  by (auto simp: get_str_def get_u64_def get_bool_def get_i64_def)

end
