(* ===== verification/Lcp_Wire.thy ===== *)
theory Lcp_Wire
  imports Lcp_Prelude
begin

text \<open>
  The network half of \<open>lcp-protocol\<close> (\<open>lib.rs\<close>, \<open>error.rs\<close>, \<open>network.rs\<close>): the protocol
  errors, the envelope and its bodies, the four-byte big-endian length prefix, and the
  framing of an envelope.  Postcard is third-party code: its serializer \<open>ser\<close> and
  deserializer \<open>de\<close> are arguments.  The laws of a length-prefixed protocol are the locale
  \<open>length_prefixed\<close>, which the network framing here and the IPC framing both satisfy.
\<close>

section \<open>Constants\<close>

definition NETWORK_PROTOCOL_VERSION :: u16 where
  "NETWORK_PROTOCOL_VERSION = 1"

definition IPC_PROTOCOL_VERSION :: u16 where
  "IPC_PROTOCOL_VERSION = 1"

definition CONFIG_SCHEMA_VERSION :: u32 where
  "CONFIG_SCHEMA_VERSION = 1"

definition MAX_TEXT_BYTES :: nat where
  "MAX_TEXT_BYTES = 5 * 1024 * 1024"

definition MAX_WIRE_FRAME_BYTES :: nat where
  "MAX_WIRE_FRAME_BYTES = 6 * 1024 * 1024"

definition FRAME_LENGTH_PREFIX_BYTES :: nat where
  "FRAME_LENGTH_PREFIX_BYTES = 4"

section \<open>Protocol errors\<close>

datatype protocol_error =
    MalformedFrame
  | FrameTooLarge nat nat \<comment> \<open>\<open>max\<close>, \<open>actual\<close>\<close>
  | EmptyFrame
  | UnsupportedVersion u16 u16 \<comment> \<open>\<open>found\<close>, \<open>expected\<close>\<close>
  | InvalidTicket string
  | TicketExpired
  | Serialization string
  | TextTooLarge nat nat \<comment> \<open>\<open>max\<close>, \<open>actual\<close>\<close>

fun protocol_error_text :: "protocol_error \<Rightarrow> string" where
  "protocol_error_text MalformedFrame = ''frame is malformed''"
| "protocol_error_text (FrameTooLarge mx actual) =
     ''frame of '' @ show_nat actual @ '' bytes exceeds the '' @ show_nat mx @ ''-byte limit''"
| "protocol_error_text EmptyFrame = ''frame length prefix was zero''"
| "protocol_error_text (UnsupportedVersion found expected) =
     ''unsupported protocol version '' @ show_nat (unat found)
       @ '' (expected '' @ show_nat (unat expected) @ '')''"
| "protocol_error_text (InvalidTicket reason) = ''invalid ticket: '' @ reason"
| "protocol_error_text TicketExpired = ''ticket has expired''"
| "protocol_error_text (Serialization reason) = ''serialization error: '' @ reason"
| "protocol_error_text (TextTooLarge mx actual) =
     ''text payload of '' @ show_nat actual @ '' bytes exceeds the '' @ show_nat mx @ ''-byte limit''"

section \<open>Envelopes\<close>

record text_payload =
  tp_message_id :: uuid
  tp_sender_endpoint_id :: string
  tp_sent_at_unix_ms :: int
  tp_text :: string

record ack_payload =
  ap_message_id :: uuid
  ap_accepted :: bool
  ap_error_code :: "string option"

record pair_request =
  pr_invite_secret :: bytes
  pr_joiner_endpoint_id :: string
  pr_joiner_display_name :: string
  pr_joiner_device_name :: string
  pr_joiner_nonce :: bytes

record pair_decision =
  pd_accepted :: bool
  pd_inviter_nonce :: bytes
  pd_inviter_display_name :: string
  pd_inviter_device_name :: string
  pd_error_code :: "string option"

record pair_confirm =
  pc_confirmed :: bool

record network_error_payload =
  ne_code :: string
  ne_message :: string

datatype network_body =
    Text text_payload
  | Ack ack_payload
  | Ping
  | Pong
  | PairRequest pair_request
  | PairDecision pair_decision
  | PairConfirm pair_confirm
  | NetworkError network_error_payload

record network_envelope =
  protocol_version :: u16
  request_id :: uuid
  body :: network_body

definition envelope_new :: "uuid \<Rightarrow> network_body \<Rightarrow> network_envelope" where
  "envelope_new rid b = \<lparr>protocol_version = NETWORK_PROTOCOL_VERSION, request_id = rid, body = b\<rparr>"

lemma envelope_new_sel [simp]:
  "protocol_version (envelope_new r b) = NETWORK_PROTOCOL_VERSION"
  "request_id (envelope_new r b) = r" "body (envelope_new r b) = b"
  by (simp_all add: envelope_new_def)

section \<open>Big-endian length prefix\<close>

text \<open>\<open>u32::to_be_bytes\<close> and \<open>u32::from_be_bytes\<close>.\<close>

definition to_be_bytes :: "u32 \<Rightarrow> bytes" where
  "to_be_bytes n = [ucast (drop_bit 24 n), ucast (drop_bit 16 n), ucast (drop_bit 8 n), ucast n]"

definition from_be_bytes :: "bytes \<Rightarrow> u32" where
  "from_be_bytes bs = foldl (\<lambda>acc b. acc * 256 + ucast b) 0 bs"

lemma length_to_be_bytes [simp]: "length (to_be_bytes n) = 4"
  by (simp add: to_be_bytes_def)

lemma unat_less_8: "unat (b :: u8) < 256"
  using unsigned_less [of b] by simp

lemma unat_less_32: "unat (n :: u32) < 2 ^ 32"
  using unsigned_less [of n] by simp

lemma unat_ucast_drop_bit: "unat (ucast (drop_bit k n) :: u8) = unat (n :: u32) div 2 ^ k mod 256"
  by (simp only: unsigned_ucast_eq unsigned_drop_bit_eq) (simp add: take_bit_eq_mod drop_bit_eq_div mod_less [OF unat_less_32, simplified])

lemma unat_ucast_8_32: "unat (ucast (b :: u8) :: u32) = unat b"
  using unat_less_8 [of b] by (simp add: unsigned_ucast_eq take_bit_nat_eq_self)

lemma nat_base256:
  assumes "(n::nat) < 2 ^ 32"
  shows "((n div 2 ^ 24 mod 256 * 256 + n div 2 ^ 16 mod 256) * 256 + n div 2 ^ 8 mod 256) * 256 + n mod 256 = n"
proof -
  have d: "n div 2 ^ 8 = n div 256" "n div 2 ^ 16 = n div 256 div 256" "n div 2 ^ 24 = n div 256 div 256 div 256"
    by (simp_all flip: div_mult2_eq)
  have "n div 256 div 256 div 256 < 256"
    using assms by (simp add: less_mult_imp_div_less flip: div_mult2_eq)
  then show ?thesis
    unfolding d by (simp only: mod_less div_mult_mod_eq)
qed

lemma unat_step: "unat (a * 256 + ucast (b :: u8) :: u32) = unat a * 256 + unat b" if "unat a < 2 ^ 24"
proof -
  have "unat b < 256" using unat_less_8 [of b] by simp
  with that show ?thesis by (simp add: unat_word_ariths unat_ucast_8_32 )
qed

lemma from_be_bytes_Cons4:
  "unat (from_be_bytes [a, b, c, d]) = ((unat a * 256 + unat b) * 256 + unat c) * 256 + unat d"
proof -
  have lt: "unat a < 256" "unat b < 256" "unat c < 256" by (rule unat_less_8)+
  let ?w1 = "0 * 256 + ucast a :: u32"
  let ?w2 = "?w1 * 256 + ucast b"
  let ?w3 = "?w2 * 256 + ucast c"
  have w1: "unat ?w1 = unat a" by (simp add: unat_ucast_8_32)
  have w2: "unat ?w2 = unat a * 256 + unat b" using lt by (subst unat_step) (simp_all only: w1, simp)
  have w3: "unat ?w3 = (unat a * 256 + unat b) * 256 + unat c"
    using lt by (subst unat_step) (simp_all only: w2, simp)
  have "unat (?w3 * 256 + ucast d) = ((unat a * 256 + unat b) * 256 + unat c) * 256 + unat d"
    using lt by (subst unat_step) (simp_all only: w3, simp)
  then show ?thesis by (simp only: from_be_bytes_def foldl.simps)
qed

lemma from_to_be_bytes [simp]: "from_be_bytes (to_be_bytes n) = n"
proof -
  have low: "unat (ucast n :: u8) = unat n mod 256"
    using unat_ucast_drop_bit [of 0 n] by simp
  have "unat (from_be_bytes (to_be_bytes n)) = unat n"
    by (simp only: to_be_bytes_def from_be_bytes_Cons4 unat_ucast_drop_bit low
        nat_base256 [OF unat_less_32])
  then show ?thesis by (rule unsigned_word_eqI)
qed
text \<open>\<open>network::decode_length_prefix\<close>; the header is the \<open>[u8; 4]\<close> that was read.\<close>

definition decode_length_prefix :: "bytes \<Rightarrow> protocol_error + nat" where
  "decode_length_prefix header =
     (let len = unat (from_be_bytes header)
      in if len = 0 then Inl EmptyFrame
         else if len > MAX_WIRE_FRAME_BYTES then Inl (FrameTooLarge MAX_WIRE_FRAME_BYTES len)
         else Inr len)"

locale length_prefixed =
  fixes limit :: nat
    and check :: "bytes \<Rightarrow> protocol_error + nat"
  assumes limit_u32: "limit < 2 ^ 32"
    and check_zero: "unat (from_be_bytes h) = 0 \<Longrightarrow> check h = Inl EmptyFrame"
    and check_large: "limit < unat (from_be_bytes h) \<Longrightarrow>
      check h = Inl (FrameTooLarge limit (unat (from_be_bytes h)))"
    and check_within: "0 < unat (from_be_bytes h) \<Longrightarrow> unat (from_be_bytes h) \<le> limit \<Longrightarrow>
      check h = Inr (unat (from_be_bytes h))"
begin

lemma check_Inr_iff: "check h = Inr n \<longleftrightarrow> n = unat (from_be_bytes h) \<and> 0 < n \<and> n \<le> limit"
proof (cases "unat (from_be_bytes h) = 0")
  case True
  then show ?thesis by (auto simp: check_zero)
next
  case False
  then show ?thesis
    by (cases "limit < unat (from_be_bytes h)") (auto simp: check_large check_within)
qed

lemma prefix_of_body: "0 < n \<Longrightarrow> n \<le> limit \<Longrightarrow> check (to_be_bytes (of_nat n)) = Inr n"
  using limit_u32 by (simp add: check_Inr_iff unat_of_nat)

lemma prefix_allocation_bound: "check h = Inr n \<Longrightarrow> 0 < n \<and> n \<le> limit"
  by (simp add: check_Inr_iff)

end

interpretation net_frame: length_prefixed MAX_WIRE_FRAME_BYTES decode_length_prefix
  by unfold_locales (auto simp: MAX_WIRE_FRAME_BYTES_def decode_length_prefix_def Let_def)

lemmas net_prefix_bound = net_frame.prefix_allocation_bound

section \<open>Framing of an envelope\<close>

definition encode_framed ::
  "(network_envelope \<Rightarrow> string + bytes) \<Rightarrow> network_envelope \<Rightarrow> protocol_error + bytes" where
  "encode_framed ser e =
     (case ser e of
        Inl err \<Rightarrow> Inl (Serialization err)
      | Inr bd \<Rightarrow>
          if length bd > MAX_WIRE_FRAME_BYTES
          then Inl (FrameTooLarge MAX_WIRE_FRAME_BYTES (length bd))
          else Inr (to_be_bytes (of_nat (length bd)) @ bd))"

definition decode_body ::
  "(bytes \<Rightarrow> network_envelope option) \<Rightarrow> bytes \<Rightarrow> protocol_error + network_envelope" where
  "decode_body de bs =
     (if bs = [] then Inl EmptyFrame
      else if length bs > MAX_WIRE_FRAME_BYTES
      then Inl (FrameTooLarge MAX_WIRE_FRAME_BYTES (length bs))
      else case de bs of
             None \<Rightarrow> Inl MalformedFrame
           | Some e \<Rightarrow>
               if protocol_version e \<noteq> NETWORK_PROTOCOL_VERSION
               then Inl (UnsupportedVersion (protocol_version e) NETWORK_PROTOCOL_VERSION)
               else Inr e)"

definition validate_text_len :: "string \<Rightarrow> protocol_error + unit" where
  "validate_text_len t =
     (if length t > MAX_TEXT_BYTES then Inl (TextTooLarge MAX_TEXT_BYTES (length t)) else Inr ())"

text \<open>
  What the framing relies on from Postcard: serializing this value gives a non-empty byte
  string that deserializes to it.
\<close>

definition postcard_ok ::
  "('a \<Rightarrow> string + bytes) \<Rightarrow> (bytes \<Rightarrow> 'a option) \<Rightarrow> 'a \<Rightarrow> bool" where
  "postcard_ok ser de v \<longleftrightarrow>
     (case ser v of Inl _ \<Rightarrow> True | Inr bs \<Rightarrow> bs \<noteq> [] \<and> de bs = Some v)"

lemma encode_framed_Inr:
  "encode_framed ser e = Inr framed \<longleftrightarrow>
     (\<exists>bd. ser e = Inr bd \<and> length bd \<le> MAX_WIRE_FRAME_BYTES \<and>
        framed = to_be_bytes (of_nat (length bd)) @ bd)"
  by (auto simp: encode_framed_def split: sum.splits)

lemma decode_body_Inr:
  "decode_body de bs = Inr e \<longleftrightarrow>
     bs \<noteq> [] \<and> length bs \<le> MAX_WIRE_FRAME_BYTES \<and> de bs = Some e \<and>
     protocol_version e = NETWORK_PROTOCOL_VERSION"
  by (auto simp: decode_body_def split: option.splits)

lemma validate_text_len_ok [simp]: "validate_text_len t = Inr () \<longleftrightarrow> length t \<le> MAX_TEXT_BYTES"
  by (auto simp: validate_text_len_def)

text \<open>
  An envelope that \<open>encode_framed\<close> accepts is read back exactly: the length prefix of the
  frame is accepted and announces the rest of the frame, and \<open>decode_body\<close> of that rest is the
  envelope, for every envelope of the current protocol version.
\<close>

theorem envelope_round_trip:
  assumes "postcard_ok ser de e"
    and "protocol_version e = NETWORK_PROTOCOL_VERSION"
    and "encode_framed ser e = Inr framed"
  shows "decode_length_prefix (take FRAME_LENGTH_PREFIX_BYTES framed)
           = Inr (length (drop FRAME_LENGTH_PREFIX_BYTES framed)) \<and>
         decode_body de (drop FRAME_LENGTH_PREFIX_BYTES framed) = Inr e"
proof (rule conjI)
  obtain bd where ser: "ser e = Inr bd" and len: "length bd \<le> MAX_WIRE_FRAME_BYTES"
      and framed: "framed = to_be_bytes (of_nat (length bd)) @ bd"
    using assms(3) by (auto simp: encode_framed_Inr)
  have bd: "bd \<noteq> []" "de bd = Some e"
    using assms(1) ser by (auto simp: postcard_ok_def)
  show "decode_length_prefix (take FRAME_LENGTH_PREFIX_BYTES framed)
      = Inr (length (drop FRAME_LENGTH_PREFIX_BYTES framed))"
    using bd len by (simp add: framed FRAME_LENGTH_PREFIX_BYTES_def net_frame.prefix_of_body)
  show "decode_body de (drop FRAME_LENGTH_PREFIX_BYTES framed) = Inr e"
    using bd len assms(2) by (simp add: framed FRAME_LENGTH_PREFIX_BYTES_def decode_body_Inr)
qed

definition ping_envelope :: network_envelope where
  "ping_envelope = envelope_new 7 Ping"

theorem envelope_round_trip_witness:
  "\<exists>framed. encode_framed (\<lambda>_. Inr [1, 2]) ping_envelope = Inr framed \<and>
     decode_body (\<lambda>_. Some ping_envelope) (drop FRAME_LENGTH_PREFIX_BYTES framed) = Inr ping_envelope"
proof -
  have ok: "postcard_ok (\<lambda>_. Inr [1, 2]) (\<lambda>_. Some ping_envelope) ping_envelope"
    by (simp add: postcard_ok_def)
  have v: "protocol_version ping_envelope = NETWORK_PROTOCOL_VERSION"
    by (simp add: ping_envelope_def)
  have enc: "encode_framed (\<lambda>_. Inr [1, 2]) ping_envelope = Inr (to_be_bytes 2 @ [1, 2])"
    by (simp add: encode_framed_def MAX_WIRE_FRAME_BYTES_def)
  from envelope_round_trip [OF ok v enc] enc show ?thesis by blast
qed

text \<open>
  Resource bounds of the network decoder, on any input: a header is accepted exactly when it
  announces between 1 byte and 6 MiB, so no read allocates more than that, and a body that
  decodes is non-empty, within the limit, and of the supported version.
\<close>

theorem network_decoder_bounds:
  "(decode_length_prefix header = Inr n \<longleftrightarrow>
      n = unat (from_be_bytes header) \<and> 0 < n \<and> n \<le> MAX_WIRE_FRAME_BYTES) \<and>
   (decode_body de bs = Inr e \<longleftrightarrow>
      bs \<noteq> [] \<and> length bs \<le> MAX_WIRE_FRAME_BYTES \<and> de bs = Some e \<and>
      protocol_version e = NETWORK_PROTOCOL_VERSION)"
  by (rule conjI [OF net_frame.check_Inr_iff decode_body_Inr])

end
