(* ===== verification/Lcp_Ipc.thy ===== *)
theory Lcp_Ipc
  imports Lcp_Json Lcp_Wire
begin

text \<open>
  The local IPC protocol: the wire types of \<open>lcp-protocol/src/ipc.rs\<close> and the framing of
  \<open>lcp-ipc/src/framing.rs\<close> over a byte stream.  A reader is the list of bytes that are still to
  arrive before end of file; a writer is the bytes it took and how many more it takes before
  the peer hangs up (\<open>None\<close> for a writer that never fails).
\<close>

section \<open>Wire types\<close>

definition IPC_FRAME_LENGTH_PREFIX_BYTES :: nat where
  "IPC_FRAME_LENGTH_PREFIX_BYTES = 4"

definition MAX_IPC_FRAME_BYTES :: nat where
  "MAX_IPC_FRAME_BYTES = 6 * 1024 * 1024"

record ipc_request =
  rq_ipc_version :: u16
  rq_id :: uuid
  rq_method :: string
  rq_params :: json

record ipc_error =
  err_code :: string
  err_message :: string

record ipc_response =
  rs_ipc_version :: u16
  rs_id :: uuid
  rs_ok :: bool
  rs_result :: "json option"
  rs_error :: "ipc_error option"

record ipc_event =
  ev_ipc_version :: u16
  ev_event :: string
  ev_payload :: json

datatype ipc_server_frame = Response ipc_response | Event ipc_event

definition request_new :: "uuid \<Rightarrow> u16 \<Rightarrow> string \<Rightarrow> json \<Rightarrow> ipc_request" where
  "request_new fresh_id v m p = \<lparr>rq_ipc_version = v, rq_id = fresh_id, rq_method = m, rq_params = p\<rparr>"

definition response_ok :: "u16 \<Rightarrow> uuid \<Rightarrow> json \<Rightarrow> ipc_response" where
  "response_ok v i r =
     \<lparr>rs_ipc_version = v, rs_id = i, rs_ok = True, rs_result = Some r, rs_error = None\<rparr>"

definition response_err :: "u16 \<Rightarrow> uuid \<Rightarrow> string \<Rightarrow> string \<Rightarrow> ipc_response" where
  "response_err v i c m =
     \<lparr>rs_ipc_version = v, rs_id = i, rs_ok = False, rs_result = None,
      rs_error = Some \<lparr>err_code = c, err_message = m\<rparr>\<rparr>"

lemma response_sel [simp]:
  "rs_ipc_version (response_ok v i r) = v" "rs_id (response_ok v i r) = i"
  "rs_ok (response_ok v i r)" "rs_result (response_ok v i r) = Some r"
  "rs_error (response_ok v i r) = None"
  "rs_ipc_version (response_err v i c m) = v" "rs_id (response_err v i c m) = i"
  "\<not> rs_ok (response_err v i c m)" "rs_result (response_err v i c m) = None"
  "rs_error (response_err v i c m) = Some \<lparr>err_code = c, err_message = m\<rparr>"
  by (simp_all add: response_ok_def response_err_def)

lemma response_ok_neq_err [simp]: "response_ok v i r \<noteq> response_err w j c m"
  "response_err w j c m \<noteq> response_ok v i r"
  by (simp_all add: response_ok_def response_err_def)

subsection \<open>Method names, event names and error codes\<close>

abbreviation "HELLO \<equiv> ''hello''"
abbreviation "GET_STATUS \<equiv> ''get_status''"
abbreviation "GET_CONFIG \<equiv> ''get_config''"
abbreviation "SET_CONFIG \<equiv> ''set_config''"
abbreviation "RESET_CONFIG \<equiv> ''reset_config''"
abbreviation "LIST_PEERS \<equiv> ''list_peers''"
abbreviation "RENAME_PEER \<equiv> ''rename_peer''"
abbreviation "CREATE_INVITE \<equiv> ''create_invite''"
abbreviation "CANCEL_INVITE \<equiv> ''cancel_invite''"
abbreviation "JOIN_INVITE \<equiv> ''join_invite''"
abbreviation "CONFIRM_PAIRING \<equiv> ''confirm_pairing''"
abbreviation "REJECT_PAIRING \<equiv> ''reject_pairing''"
abbreviation "UNPAIR_PEER \<equiv> ''unpair_peer''"
abbreviation "SEND_TEXT \<equiv> ''send_text''"
abbreviation "GET_LATEST_INCOMING \<equiv> ''get_latest_incoming''"
abbreviation "LIST_MESSAGES \<equiv> ''list_messages''"
abbreviation "RETRY_MESSAGE \<equiv> ''retry_message''"
abbreviation "SUBSCRIBE \<equiv> ''subscribe''"
abbreviation "SHUTDOWN \<equiv> ''shutdown''"
abbreviation "RUN_DIAGNOSTICS \<equiv> ''run_diagnostics''"

abbreviation "DAEMON_READY \<equiv> ''daemon_ready''"
abbreviation "PEER_UPDATED \<equiv> ''peer_updated''"
abbreviation "MESSAGE_RECEIVED \<equiv> ''message_received''"
abbreviation "MESSAGE_UPDATED \<equiv> ''message_updated''"
abbreviation "PAIRING_REQUESTED \<equiv> ''pairing_requested''"
abbreviation "PAIRING_UPDATED \<equiv> ''pairing_updated''"
abbreviation "INVITE_EXPIRED \<equiv> ''invite_expired''"
abbreviation "CONFIG_UPDATED \<equiv> ''config_updated''"
abbreviation "DIAGNOSTIC_UPDATED \<equiv> ''diagnostic_updated''"

abbreviation "UNKNOWN_METHOD \<equiv> ''unknown_method''"
abbreviation "INVALID_PARAMS \<equiv> ''invalid_params''"
abbreviation "PEER_NOT_FOUND \<equiv> ''peer_not_found''"
abbreviation "PEER_AMBIGUOUS \<equiv> ''peer_ambiguous''"
abbreviation "PEER_OFFLINE \<equiv> ''peer_offline''"
abbreviation "NO_MESSAGE \<equiv> ''no_message''"
abbreviation "PAIRING_FAILED \<equiv> ''pairing_failed''"
abbreviation "LIMIT_EXCEEDED \<equiv> ''limit_exceeded''"
abbreviation "VERSION_MISMATCH \<equiv> ''version_mismatch''"
abbreviation "CREDENTIAL_STORE_FAILURE \<equiv> ''credential_store_failure''"
abbreviation "INTERNAL \<equiv> ''internal''"

text \<open>The three modules of constants, in the order of the source.\<close>

definition ipc_methods :: "string list" where
  "ipc_methods =
     [HELLO, GET_STATUS, GET_CONFIG, SET_CONFIG, RESET_CONFIG, LIST_PEERS, RENAME_PEER, CREATE_INVITE,
      CANCEL_INVITE, JOIN_INVITE, CONFIRM_PAIRING, REJECT_PAIRING, UNPAIR_PEER, SEND_TEXT,
      GET_LATEST_INCOMING, LIST_MESSAGES, RETRY_MESSAGE, SUBSCRIBE, SHUTDOWN, RUN_DIAGNOSTICS]"

definition ipc_events :: "string list" where
  "ipc_events =
     [DAEMON_READY, PEER_UPDATED, MESSAGE_RECEIVED, MESSAGE_UPDATED, PAIRING_REQUESTED,
      PAIRING_UPDATED, INVITE_EXPIRED, CONFIG_UPDATED, DIAGNOSTIC_UPDATED]"

definition ipc_error_codes :: "string list" where
  "ipc_error_codes =
     [UNKNOWN_METHOD, INVALID_PARAMS, PEER_NOT_FOUND, PEER_AMBIGUOUS, PEER_OFFLINE, NO_MESSAGE,
      PAIRING_FAILED, LIMIT_EXCEEDED, VERSION_MISMATCH, CREDENTIAL_STORE_FAILURE, INTERNAL]"

section \<open>The length prefix\<close>

definition ipc_decode_length_prefix :: "bytes \<Rightarrow> nat \<Rightarrow> protocol_error + nat" where
  "ipc_decode_length_prefix header max_frame_bytes =
     (let len = unat (from_be_bytes header)
      in if len = 0 then Inl EmptyFrame
         else if len > max_frame_bytes then Inl (FrameTooLarge max_frame_bytes len)
         else Inr len)"

interpretation ipc_frame: length_prefixed MAX_IPC_FRAME_BYTES
    "\<lambda>h. ipc_decode_length_prefix h MAX_IPC_FRAME_BYTES"
  by unfold_locales (auto simp: MAX_IPC_FRAME_BYTES_def ipc_decode_length_prefix_def Let_def)

section \<open>Frames on a byte stream\<close>

datatype framing_error = FIo io_error | FProtocol protocol_error | FClosed

type_synonym sink = "bytes \<times> nat option"

definition write_all :: "sink \<Rightarrow> bytes \<Rightarrow> (io_error + unit) \<times> sink" where
  "write_all w bs =
     (case snd w of
        None \<Rightarrow> (Inr (), (fst w @ bs, None))
      | Some k \<Rightarrow>
          if length bs \<le> k then (Inr (), (fst w @ bs, Some (k - length bs)))
          else (Inl BrokenPipe, (fst w @ take k bs, Some 0)))"

definition read_exact :: "nat \<Rightarrow> bytes \<Rightarrow> (io_error + bytes) \<times> bytes" where
  "read_exact n r = (if n \<le> length r then (Inr (take n r), drop n r) else (Inl UnexpectedEof, []))"

definition write_frame :: "sink \<Rightarrow> bytes \<Rightarrow> (framing_error + unit) \<times> sink" where
  "write_frame w payload =
     (if length payload > MAX_IPC_FRAME_BYTES
      then (Inl (FProtocol (FrameTooLarge MAX_IPC_FRAME_BYTES (length payload))), w)
      else case write_all w (to_be_bytes (of_nat (length payload))) of
             (Inl e, w1) \<Rightarrow> (Inl (FIo e), w1)
           | (Inr _, w1) \<Rightarrow>
               (case write_all w1 payload of
                  (Inl e, w2) \<Rightarrow> (Inl (FIo e), w2)
                | (Inr _, w2) \<Rightarrow> (Inr (), w2)))"

definition read_frame :: "bytes \<Rightarrow> (framing_error + bytes) \<times> bytes" where
  "read_frame r =
     (case read_exact IPC_FRAME_LENGTH_PREFIX_BYTES r of
        (Inl UnexpectedEof, r1) \<Rightarrow> (Inl FClosed, r1)
      | (Inl e, r1) \<Rightarrow> (Inl (FIo e), r1)
      | (Inr header, r1) \<Rightarrow>
          (case ipc_decode_length_prefix header MAX_IPC_FRAME_BYTES of
             Inl e \<Rightarrow> (Inl (FProtocol e), r1)
           | Inr len \<Rightarrow>
               (case read_exact len r1 of
                  (Inl e, r2) \<Rightarrow> (Inl (FIo e), r2)
                | (Inr buf, r2) \<Rightarrow> (Inr buf, r2))))"

definition frame :: "bytes \<Rightarrow> bytes" where
  "frame payload = to_be_bytes (of_nat (length payload)) @ payload"

definition sendable :: "bytes \<Rightarrow> bool" where
  "sendable payload \<longleftrightarrow> payload \<noteq> [] \<and> length payload \<le> MAX_IPC_FRAME_BYTES"

lemma read_frame_shorter: "read_frame r = (Inr buf, r') \<Longrightarrow> length r' < length r"
  by (auto simp: read_frame_def read_exact_def IPC_FRAME_LENGTH_PREFIX_BYTES_def
      split: if_splits sum.splits io_error.splits prod.splits)

text \<open>The loop of the readers in \<open>server.rs\<close> and \<open>client.rs\<close>: frames until the first error.\<close>

function read_frames :: "bytes \<Rightarrow> bytes list \<times> framing_error" where
  "read_frames r =
     (case read_frame r of
        (Inl e, _) \<Rightarrow> ([], e)
      | (Inr buf, r') \<Rightarrow> (case read_frames r' of (bufs, e) \<Rightarrow> (buf # bufs, e)))"
  by pat_completeness auto
termination
  by (relation "measure length") (auto dest: read_frame_shorter [OF sym])

declare read_frames.simps [simp del]

lemma write_frame_unlimited:
  "length payload \<le> MAX_IPC_FRAME_BYTES \<Longrightarrow>
   write_frame (out, None) payload = (Inr (), (out @ frame payload, None))"
  by (simp add: write_frame_def write_all_def frame_def)

lemma read_frame_frame: "sendable payload \<Longrightarrow> read_frame (frame payload @ rest) = (Inr payload, rest)"
  by (simp add: read_frame_def read_exact_def frame_def sendable_def IPC_FRAME_LENGTH_PREFIX_BYTES_def
      ipc_frame.prefix_of_body)

lemma read_frame_Nil: "read_frame [] = (Inl FClosed, [])"
  by (simp add: read_frame_def read_exact_def IPC_FRAME_LENGTH_PREFIX_BYTES_def)

lemma read_frame_truncated:
  assumes "sendable payload" and "strict_prefix r (frame payload)"
  shows "\<exists>e r'. read_frame r = (Inl e, r')"
proof -
  have len: "length r < 4 + length payload"
    using assms(2) by (auto simp: frame_def dest: prefix_length_less)
  show ?thesis
  proof (cases "length r < 4")
    case True
    then show ?thesis
      by (simp add: read_frame_def read_exact_def IPC_FRAME_LENGTH_PREFIX_BYTES_def)
  next
    case False
    obtain z where "frame payload = r @ z"
      using assms(2) by (auto simp: strict_prefix_def prefix_def)
    then have "take 4 r = to_be_bytes (of_nat (length payload))"
      using False by (auto simp: frame_def dest: arg_cong [where f = "take 4"])
    then show ?thesis
      using False len assms(1)
      by (simp add: read_frame_def read_exact_def IPC_FRAME_LENGTH_PREFIX_BYTES_def sendable_def
          ipc_frame.prefix_of_body)
  qed
qed

lemma read_frames_cut:
  assumes "list_all sendable ps" and "prefix r (concat (map frame ps))"
  shows "prefix (fst (read_frames r)) ps \<and>
    (r = concat (map frame ps) \<longrightarrow> read_frames r = (ps, FClosed))"
  using assms
proof (induction ps arbitrary: r)
  case Nil
  then have "r = []" by simp
  then show ?case by (simp add: read_frames.simps read_frame_Nil)
next
  case (Cons p ps)
  show ?case
  proof (cases "strict_prefix r (frame p)")
    case True
    then obtain e r' where "read_frame r = (Inl e, r')"
      using Cons.prems read_frame_truncated by fastforce
    moreover have "r \<noteq> concat (map frame (p # ps))"
      using True by (auto simp: strict_prefix_def prefix_def)
    ultimately show ?thesis by (simp add: read_frames.simps)
  next
    case False
    with Cons.prems(2) obtain s where r: "r = frame p @ s" and s: "prefix s (concat (map frame ps))"
      by (auto simp: prefix_append strict_prefix_def)
    have "read_frame r = (Inr p, s)"
      using Cons.prems(1) by (simp add: r read_frame_frame)
    then have "read_frames r = (case read_frames s of (bufs, e) \<Rightarrow> (p # bufs, e))"
      by (simp add: read_frames.simps [of r])
    with Cons.IH [of s] Cons.prems(1) s show ?thesis
      by (auto simp: r split: prod.splits)
  qed
qed

text \<open>
  Whatever was cut off a stream of IPC frames, the reader returns a prefix of the payloads
  that were written, in order and byte for byte, and never a partial or merged one; on the whole
  stream it returns all of them and then reports that the connection was closed.
\<close>

theorem read_frames_prefix:
  assumes "list_all sendable ps" and "prefix r (concat (map frame ps))"
  shows "prefix (fst (read_frames r)) ps \<and>
    (r = concat (map frame ps) \<longrightarrow> read_frames r = (ps, FClosed))"
  using assms by (rule read_frames_cut)

theorem read_frames_prefix_witness:
  "prefix (fst (read_frames (frame [1, 2] @ [0, 0, 0]))) [[1, 2], [3]]"
proof -
  have s: "list_all sendable [[1, 2], [3]]"
    by (simp add: sendable_def MAX_IPC_FRAME_BYTES_def)
  have p: "prefix (frame [1, 2] @ [0, 0, 0]) (concat (map frame [[1, 2], [3]]))"
    by (simp add: frame_def to_be_bytes_def)
  from read_frames_prefix [OF s p] show ?thesis by blast
qed

text \<open>
  \<open>read_frame\<close> undoes \<open>write_frame\<close> exactly on the payloads between 1 byte and 6 MiB: an
  oversized payload is refused before anything is written, and the empty payload, which the
  writer accepts, is refused by the reader.
\<close>

theorem write_read_frame:
  "(case write_frame (out, None) payload of
      (Inl e, w) \<Rightarrow> length payload > MAX_IPC_FRAME_BYTES \<and> w = (out, None)
    | (Inr _, w) \<Rightarrow>
        (\<exists>fr. w = (out @ fr, None) \<and>
           read_frame (fr @ rest) =
             (if payload = [] then (Inl (FProtocol EmptyFrame), rest) else (Inr payload, rest))))"
proof (cases "length payload \<le> MAX_IPC_FRAME_BYTES")
  case True
  have "read_frame (frame payload @ rest) =
      (if payload = [] then (Inl (FProtocol EmptyFrame), rest) else (Inr payload, rest))"
  proof (cases "payload = []")
    case True
    then show ?thesis
      by (simp add: read_frame_def read_exact_def frame_def IPC_FRAME_LENGTH_PREFIX_BYTES_def
          ipc_frame.check_zero)
  next
    case False
    with \<open>length payload \<le> MAX_IPC_FRAME_BYTES\<close> show ?thesis
      by (simp add: read_frame_frame sendable_def)
  qed
  with True show ?thesis by (simp add: write_frame_unlimited)
next
  case False
  then show ?thesis by (simp add: write_frame_def)
qed

end
