(* ===== verification/Lcp_Codec.thy ===== *)
theory Lcp_Codec
  imports Lcp_Ipc
begin

text \<open>
  The serialization that \<open>serde\<close> derives for the types of \<open>lcp-protocol/src/ipc.rs\<close>, on JSON
  values: field names, defaults, skipped fields and the untagged choice between a response and
  an event.  The text of a JSON value and of a UUID are parameters.
\<close>

section \<open>The derived serialization\<close>

record json_codec =
  jc_text :: "json \<Rightarrow> bytes option" \<comment> \<open>\<open>serde_json::to_vec\<close> of a value\<close>
  jc_parse :: "bytes \<Rightarrow> json option" \<comment> \<open>the value of a text, if it is JSON and repeats no field\<close>
  jc_uuid :: "uuid \<Rightarrow> string"
  jc_uuid_parse :: "string \<Rightarrow> uuid option"

text \<open>A struct reads from an object or from the array of its fields; unknown fields are ignored.\<close>

definition struct_fields :: "string list \<Rightarrow> json \<Rightarrow> json" where
  "struct_fields names v =
     (case v of
        JArr vs \<Rightarrow> if length vs \<le> length names then JObj (zip names vs) else JNull
      | _ \<Rightarrow> v)"

definition as_u16 :: "json \<Rightarrow> u16 option" where
  "as_u16 v = (case v of JInt n \<Rightarrow> if 0 \<le> n \<and> n < 2 ^ 16 then Some (of_int n) else None | _ \<Rightarrow> None)"

definition request_json :: "json_codec \<Rightarrow> ipc_request \<Rightarrow> json" where
  "request_json j q =
     JObj [(''ipc_version'', JInt (uint (rq_ipc_version q))), (''id'', JStr (jc_uuid j (rq_id q))),
           (''method'', JStr (rq_method q)), (''params'', rq_params q)]"

definition request_of_json :: "json_codec \<Rightarrow> json \<Rightarrow> ipc_request option" where
  "request_of_json j v =
     (let w = struct_fields [''ipc_version'', ''id'', ''method'', ''params''] v
      in case (Option.bind (get w ''ipc_version'') as_u16,
                Option.bind (get_str w ''id'') (jc_uuid_parse j), get_str w ''method'') of
            (Some n, Some i, Some m) \<Rightarrow>
              Some \<lparr>rq_ipc_version = n, rq_id = i, rq_method = m,
                    rq_params = unwrap_or (get w ''params'') JNull\<rparr>
          | _ \<Rightarrow> None)"

definition error_json :: "ipc_error \<Rightarrow> json" where
  "error_json e = JObj [(''code'', JStr (err_code e)), (''message'', JStr (err_message e))]"

definition error_of_json :: "json \<Rightarrow> ipc_error option" where
  "error_of_json v =
     (let w = struct_fields [''code'', ''message''] v
      in case (get_str w ''code'', get_str w ''message'') of
            (Some c, Some m) \<Rightarrow> Some \<lparr>err_code = c, err_message = m\<rparr>
          | _ \<Rightarrow> None)"

text \<open>\<open>skip_serializing_if = "Option::is_none"\<close>\<close>

definition opt_field :: "string \<Rightarrow> ('a \<Rightarrow> json) \<Rightarrow> 'a option \<Rightarrow> (string \<times> json) list" where
  "opt_field k f x = (case x of None \<Rightarrow> [] | Some a \<Rightarrow> [(k, f a)])"

definition response_json :: "json_codec \<Rightarrow> ipc_response \<Rightarrow> json" where
  "response_json j r =
     JObj ([(''ipc_version'', JInt (uint (rs_ipc_version r))), (''id'', JStr (jc_uuid j (rs_id r))),
            (''ok'', JBool (rs_ok r))] @
           opt_field ''result'' (\<lambda>v. v) (rs_result r) @ opt_field ''error'' error_json (rs_error r))"

text \<open>A missing field and \<open>null\<close> both read as \<open>None\<close>; anything else has to parse.\<close>

definition opt_of_json :: "(json \<Rightarrow> 'a option) \<Rightarrow> json option \<Rightarrow> 'a option option" where
  "opt_of_json f x =
     (case x of
        None \<Rightarrow> Some None
      | Some v \<Rightarrow> if v = JNull then Some None else map_option Some (f v))"

definition response_of_json :: "json_codec \<Rightarrow> json \<Rightarrow> ipc_response option" where
  "response_of_json j v =
     (let w = struct_fields [''ipc_version'', ''id'', ''ok'', ''result'', ''error''] v
      in case (Option.bind (get w ''ipc_version'') as_u16,
                Option.bind (get_str w ''id'') (jc_uuid_parse j), get_bool w ''ok'',
                opt_of_json Some (get w ''result''), opt_of_json error_of_json (get w ''error'')) of
            (Some n, Some i, Some b, Some r, Some e) \<Rightarrow>
              Some \<lparr>rs_ipc_version = n, rs_id = i, rs_ok = b, rs_result = r, rs_error = e\<rparr>
          | _ \<Rightarrow> None)"

definition event_json :: "ipc_event \<Rightarrow> json" where
  "event_json e =
     JObj [(''ipc_version'', JInt (uint (ev_ipc_version e))), (''event'', JStr (ev_event e)),
           (''payload'', ev_payload e)]"

definition event_of_json :: "json \<Rightarrow> ipc_event option" where
  "event_of_json v =
     (let w = struct_fields [''ipc_version'', ''event'', ''payload''] v
      in case (Option.bind (get w ''ipc_version'') as_u16, get_str w ''event'', get w ''payload'') of
            (Some n, Some e, Some p) \<Rightarrow> Some \<lparr>ev_ipc_version = n, ev_event = e, ev_payload = p\<rparr>
          | _ \<Rightarrow> None)"

text \<open>\<open>serde(untagged)\<close>: the first variant that parses.\<close>

definition server_frame_of_json :: "json_codec \<Rightarrow> json \<Rightarrow> ipc_server_frame option" where
  "server_frame_of_json j v =
     (case response_of_json j v of
        Some r \<Rightarrow> Some (Response r)
      | None \<Rightarrow> map_option Event (event_of_json v))"

fun server_frame_json :: "json_codec \<Rightarrow> ipc_server_frame \<Rightarrow> json" where
  "server_frame_json j (Response r) = response_json j r"
| "server_frame_json j (Event e) = event_json e"

definition request_to_vec :: "json_codec \<Rightarrow> ipc_request \<Rightarrow> bytes option" where
  "request_to_vec j q = jc_text j (request_json j q)"

definition request_from_slice :: "json_codec \<Rightarrow> bytes \<Rightarrow> ipc_request option" where
  "request_from_slice j bs = Option.bind (jc_parse j bs) (request_of_json j)"

definition server_frame_to_vec :: "json_codec \<Rightarrow> ipc_server_frame \<Rightarrow> bytes option" where
  "server_frame_to_vec j f = jc_text j (server_frame_json j f)"

definition server_frame_from_slice :: "json_codec \<Rightarrow> bytes \<Rightarrow> ipc_server_frame option" where
  "server_frame_from_slice j bs = Option.bind (jc_parse j bs) (server_frame_of_json j)"

section \<open>Reading back\<close>

text \<open>A result of \<open>null\<close> is written and read back as no result.\<close>

definition reread_response :: "ipc_response \<Rightarrow> ipc_response" where
  "reread_response r = (if rs_result r = Some JNull then r\<lparr>rs_result := None\<rparr> else r)"

fun reread :: "ipc_server_frame \<Rightarrow> ipc_server_frame" where
  "reread (Response r) = Response (reread_response r)"
| "reread (Event e) = Event e"

lemma as_u16_uint [simp]: "as_u16 (JInt (uint n)) = Some n"
  using uint_lt2p [of n] by (simp add: as_u16_def)

lemma request_of_request_json:
  assumes "\<And>u. jc_uuid_parse j (jc_uuid j u) = Some u"
  shows "request_of_json j (request_json j q) = Some q"
  using assms by (simp add: request_of_json_def request_json_def struct_fields_def get_str_def)

lemma response_of_response_json:
  assumes "\<And>u. jc_uuid_parse j (jc_uuid j u) = Some u"
  shows "response_of_json j (response_json j r) = Some (reread_response r)"
proof -
  have "error_of_json (error_json e) = Some e" for e
    by (simp add: error_of_json_def error_json_def struct_fields_def get_str_def)
  moreover have "error_json e \<noteq> JNull" for e
    by (simp add: error_json_def)
  ultimately show ?thesis
    using assms
    by (cases "rs_result r"; cases "rs_error r";
        simp add: response_of_json_def response_json_def struct_fields_def get_str_def get_bool_def
          opt_field_def opt_of_json_def reread_response_def)
qed

lemma event_is_no_response: "response_of_json j (event_json e) = None"
  by (simp add: response_of_json_def event_json_def struct_fields_def get_str_def split: option.split)

lemma event_of_event_json: "event_of_json (event_json e) = Some e"
  by (simp add: event_of_json_def event_json_def struct_fields_def get_str_def)

lemma server_frame_of_frame_json:
  assumes "\<And>u. jc_uuid_parse j (jc_uuid j u) = Some u"
  shows "server_frame_of_json j (server_frame_json j f) = Some (reread f)"
  using assms
  by (cases f) (simp_all add: server_frame_of_json_def response_of_response_json event_is_no_response
      event_of_event_json)

text \<open>A codec given by tables of the texts, for concrete runs.\<close>

definition table_codec :: "(json \<rightharpoonup> bytes) \<Rightarrow> (bytes \<rightharpoonup> json) \<Rightarrow> json_codec" where
  "table_codec texts values =
     \<lparr>jc_text = texts, jc_parse = values, jc_uuid = show_nat \<circ> unat,
      jc_uuid_parse = (\<lambda>s. map_option of_nat (digits_value 0 s))\<rparr>"

lemma table_codec_sel [simp]:
  "jc_text (table_codec t v) = t" "jc_parse (table_codec t v) = v"
  "jc_uuid_parse (table_codec t v) (jc_uuid (table_codec t' v') u) = Some u"
  by (simp_all add: table_codec_def)

lemma table_codec_request [simp]:
  "request_of_json (table_codec t v) (request_json (table_codec t' v') q) = Some q"
  using request_of_request_json [of "table_codec t v" q]
  by (simp add: request_json_def) (simp add: table_codec_def)

lemma table_codec_frame [simp]:
  "server_frame_of_json (table_codec t v) (response_json (table_codec t' v') r) = Some (reread (Response r))"
  "server_frame_of_json (table_codec t v) (event_json e) = Some (Event e)"
  using server_frame_of_frame_json [of "table_codec t v" "Response r"]
    server_frame_of_frame_json [of "table_codec t v" "Event e"]
  by (simp_all add: response_json_def) (simp_all add: table_codec_def)

abbreviation "hex_codec \<equiv> table_codec Map.empty Map.empty"

text \<open>
  C40.  What one side serializes the other reads back: a request as itself, and a frame of the
  server as the same response or the same event, although no tag tells them apart; only a
  result of \<open>null\<close> comes back as no result.  The only condition is that UUIDs survive their text.
\<close>

theorem ipc_frames_read_back:
  assumes "\<And>u. jc_uuid_parse j (jc_uuid j u) = Some u"
  shows "request_of_json j (request_json j q) = Some q \<and>
    server_frame_of_json j (server_frame_json j f) =
      Some (case f of
              Response r \<Rightarrow> Response (if rs_result r = Some JNull then r\<lparr>rs_result := None\<rparr> else r)
            | Event e \<Rightarrow> Event e)"
  using request_of_request_json [OF assms, of q] server_frame_of_frame_json [OF assms, of f]
  by (cases f) (simp_all add: reread_response_def)

theorem ipc_frames_read_back_witness:
  "server_frame_of_json hex_codec (server_frame_json hex_codec (Response (response_ok 1 7 JNull))) =
     Some (Response \<lparr>rs_ipc_version = 1, rs_id = 7, rs_ok = True, rs_result = None, rs_error = None\<rparr>)"
proof -
  have "jc_uuid_parse hex_codec (jc_uuid hex_codec u) = Some u" for u
    by simp
  from ipc_frames_read_back [OF this, of undefined "Response (response_ok 1 7 JNull)"]
  show ?thesis by (simp add: response_ok_def)
qed

section \<open>A small codec for concrete runs\<close>

definition demo_event :: ipc_event where
  "demo_event = \<lparr>ev_ipc_version = 1, ev_event = PEER_UPDATED, ev_payload = JNull\<rparr>"

definition demo_request :: ipc_request where
  "demo_request = \<lparr>rq_ipc_version = 1, rq_id = 7, rq_method = HELLO, rq_params = JNull\<rparr>"

definition demo_response :: ipc_response where
  "demo_response = response_ok 1 7 (JBool True)"

definition tiny_codec :: json_codec where
  "tiny_codec = table_codec
     [event_json demo_event \<mapsto> [255], request_json hex_codec demo_request \<mapsto> [49],
      response_json hex_codec demo_response \<mapsto> [55]]
     [[255] \<mapsto> event_json demo_event, [49] \<mapsto> request_json hex_codec demo_request,
      [55] \<mapsto> response_json hex_codec demo_response]"

lemma demo_frames:
  "read_frame (frame [49]) = (Inr [49], [])" "read_frame (frame [55]) = (Inr [55], [])" "frame [255] = [0, 0, 0, 1, 255]" "frame [55] = [0, 0, 0, 1, 55]"
  using read_frame_frame [of "[49]" "[]"] read_frame_frame [of "[55]" "[]"]
  by (simp_all add: frame_def to_be_bytes_def sendable_def MAX_IPC_FRAME_BYTES_def)

lemma tiny_codec_json: "request_json tiny_codec q = request_json hex_codec q"
  "response_json tiny_codec r = response_json hex_codec r"
  by (simp_all add: request_json_def response_json_def tiny_codec_def) (simp_all add: table_codec_def)

lemma demo_json_distinct:
  "event_json e \<noteq> request_json j q" "event_json e \<noteq> response_json j r" "request_json j q \<noteq> response_json j r"
  by (simp_all add: event_json_def request_json_def response_json_def)

lemma demo_texts:
  "request_to_vec tiny_codec demo_request = Some [49]"
  "request_from_slice tiny_codec [49] = Some demo_request"
  "server_frame_to_vec tiny_codec (Event demo_event) = Some [255]"
  "server_frame_to_vec tiny_codec (Response demo_response) = Some [55]"
  "server_frame_from_slice tiny_codec [55] = Some (Response demo_response)"
proof -
  note distinct = demo_json_distinct demo_json_distinct [symmetric]
  show "request_to_vec tiny_codec demo_request = Some [49]"
    "server_frame_to_vec tiny_codec (Event demo_event) = Some [255]"
    "server_frame_to_vec tiny_codec (Response demo_response) = Some [55]"
    using distinct by (simp_all add: request_to_vec_def server_frame_to_vec_def tiny_codec_json)
      (simp_all add: tiny_codec_def)
  show "request_from_slice tiny_codec [49] = Some demo_request"
    "server_frame_from_slice tiny_codec [55] = Some (Response demo_response)"
    by (simp_all add: request_from_slice_def server_frame_from_slice_def tiny_codec_def reread_response_def)
      (simp add: demo_response_def)
qed

end
