(* ===== verification/Lcp_Picker.thy ===== *)
theory Lcp_Picker
  imports Lcp_Prelude
begin

text \<open>
  The interactive picker (\<open>lcp-cli/src/picker.rs\<close>): the text it draws, and its loop over key
  events with the terminal's raw mode and cursor, which a guard restores.  The terminal is a
  record; what one turn of the loop meets (the width, a failure to draw, the next event) is an
  argument, and so is the local time of a message.
\<close>

section \<open>Text\<close>

lemma chars_append:
  assumes "b = [] \<or> \<not> is_cont (hd b)"
  shows "chars (a @ b) = chars a @ chars b"
proof -
  have "blocks (chars a @ chars b)"
  proof (cases "chars a")
    case Nil
    then show ?thesis by simp
  next
    case (Cons x xs)
    moreover have "list_all lead (chars b)"
    proof (cases "chars b")
      case (Cons y ys)
      with blocks_chars [of b] lead_chars [OF assms] show ?thesis by (simp add: blocks_def)
    qed simp
    ultimately show ?thesis
      using blocks_chars [of a] blocks_chars [of b] by (cases "chars b") (auto simp: blocks_def)
  qed
  then have "chars (concat (chars a @ chars b)) = chars a @ chars b" by (rule chars_concat)
  then show ?thesis by simp
qed

text \<open>Text of ASCII characters: one byte each.\<close>

lemma chars_ascii: "list_all (\<lambda>c. \<not> is_cont c) s \<Longrightarrow> chars s = map (\<lambda>c. [c]) s"
proof (induction s)
  case (Cons c s)
  then have "takeWhile is_cont s = []" "dropWhile is_cont s = s"
    by (cases s; simp)+
  with Cons show ?case by simp
qed simp

definition pad_right :: "string \<Rightarrow> nat \<Rightarrow> string" where
  "pad_right t width = t @ replicate (width - char_count t) (CHR '' '')"

definition ellipsis :: string where
  "ellipsis = map char_of [226, 128, 166 :: nat]"

definition fit :: "string \<Rightarrow> nat \<Rightarrow> string" where
  "fit t width =
     (if char_count t \<le> width then pad_right t width
      else take_chars (width - 1) t @ ellipsis)"

text \<open>\<open>str::split_whitespace\<close>, first on the characters.\<close>

function split_chars :: "string list \<Rightarrow> string list list" where
  "split_chars cs =
     (case dropWhile is_whitespace cs of
        [] \<Rightarrow> []
      | d # ds \<Rightarrow>
          (d # takeWhile (\<lambda>c. \<not> is_whitespace c) ds) # split_chars (dropWhile (\<lambda>c. \<not> is_whitespace c) ds))"
  by pat_completeness auto
termination
proof (relation "measure length", simp)
  fix cs d ds
  assume "dropWhile is_whitespace cs = d # ds"
  then have "length (d # ds) \<le> length cs" by (metis length_dropWhile_le)
  moreover have "length (dropWhile (\<lambda>c. \<not> is_whitespace c) ds) \<le> length ds" by (rule length_dropWhile_le)
  ultimately show "(dropWhile (\<lambda>c. \<not> is_whitespace c) ds, cs) \<in> measure length" by simp
qed

declare split_chars.simps [simp del]

definition split_whitespace :: "string \<Rightarrow> string list" where
  "split_whitespace t = map concat (split_chars (chars t))"

definition make_preview :: "string \<Rightarrow> nat \<Rightarrow> string" where
  "make_preview t max_width =
     (let collapsed = join '' '' (split_whitespace t); width = max max_width 20
      in if char_count collapsed \<le> width then collapsed
         else take_chars (width - 3) collapsed @ ''...'')"

lemma not_cont_simps [simp]: "\<not> is_cont (CHR '' '')" "\<not> is_cont (CHR ''.'')" "\<not> is_cont (char_of (226 :: nat))"
  by (simp_all add: is_cont_def)

lemma chars_ellipsis [simp]: "chars ellipsis = [ellipsis]" "hd ellipsis = char_of (226 :: nat)"
  by (simp_all add: ellipsis_def is_cont_def)

lemma fit_width: "0 < width \<Longrightarrow> char_count (fit t width) = width"
proof (cases "char_count t \<le> width")
  case True
  have "chars (replicate n (CHR '' '')) = replicate n '' ''" for n
    using chars_ascii [of "replicate n (CHR '' '')"] by (simp add: list_all_iff)
  moreover have "chars (t @ replicate n (CHR '' '')) = chars t @ chars (replicate n (CHR '' ''))" for n
    by (rule chars_append) (cases n; simp)
  ultimately have "chars (pad_right t width) = chars t @ replicate (width - char_count t) '' ''"
    unfolding pad_right_def by simp
  with True show ?thesis by (simp add: fit_def char_count_def)
next
  case False
  moreover assume "0 < width"
  moreover have "chars (take_chars (width - 1) t @ ellipsis) = take (width - 1) (chars t) @ [ellipsis]"
    by (subst chars_append) simp_all
  ultimately show ?thesis by (simp add: fit_def char_count_def)
qed

text \<open>The words with one space between them, as characters.\<close>

fun spaced :: "string list list \<Rightarrow> string list" where
  "spaced [] = []"
| "spaced [w] = w"
| "spaced (w # v # ws) = w @ '' '' # spaced (v # ws)"

lemma concat_spaced: "concat (spaced ws) = join '' '' (map concat ws)"
  by (induction ws rule: spaced.induct) simp_all

lemma set_spaced: "set (spaced ws) \<subseteq> insert '' '' (\<Union> (set ` set ws))"
  by (induction ws rule: spaced.induct) auto

lemma split_chars_Nil: "dropWhile is_whitespace cs = [] \<Longrightarrow> split_chars cs = []"
  by (subst split_chars.simps) (simp del: dropWhile_eq_Nil_conv)

lemma split_chars_Cons:
  "dropWhile is_whitespace cs = d # ds \<Longrightarrow>
   split_chars cs = (d # takeWhile (\<lambda>c. \<not> is_whitespace c) ds) # split_chars (dropWhile (\<lambda>c. \<not> is_whitespace c) ds)"
  by (subst split_chars.simps) simp

lemma split_chars_set: "w \<in> set (split_chars cs) \<Longrightarrow> set w \<subseteq> set cs \<and> (\<forall>c \<in> set w. \<not> is_whitespace c)"
proof (induction cs rule: split_chars.induct)
  case (1 cs)
  show ?case
  proof (cases "dropWhile is_whitespace cs")
    case Nil
    with 1(2) show ?thesis by (simp add: split_chars_Nil)
  next
    case (Cons d ds)
    have d: "\<not> is_whitespace d" using Cons by (metis hd_dropWhile list.distinct(1) list.sel(1))
    have ds: "insert d (set ds) \<subseteq> set cs"
      using set_dropWhileD [of _ is_whitespace cs] Cons by (metis list.simps(15) subsetI)
    let ?rest = "dropWhile (\<lambda>c. \<not> is_whitespace c) ds"
    from 1(2) consider "w = d # takeWhile (\<lambda>c. \<not> is_whitespace c) ds" | "w \<in> set (split_chars ?rest)"
      by (auto simp: split_chars_Cons [OF Cons])
    then show ?thesis
    proof cases
      case 1
      with d ds show ?thesis by (auto dest: set_takeWhileD)
    next
      case 2
      from "1.IH" [OF Cons 2] ds show ?thesis by (auto dest: set_dropWhileD)
    qed
  qed
qed

lemma lead_split: "list_all lead cs \<Longrightarrow> w \<in> set (split_chars cs) \<Longrightarrow> list_all lead w"
  using split_chars_set by (fastforce simp: list_all_iff)

lemma lead_space [simp]: "lead '' ''" "block '' ''"
  by (simp_all add: lead_def block_def)

lemma blocks_spaced:
  assumes "blocks cs"
  shows "blocks (spaced (split_chars cs))"
proof -
  have "list_all block (spaced (split_chars cs))"
    using set_spaced [of "split_chars cs"] split_chars_set [of _ cs] assms by (fastforce simp: blocks_def list_all_iff)
  moreover have "list_all lead (tl (spaced (split_chars cs)))"
  proof (cases "dropWhile is_whitespace cs")
    case Nil
    then show ?thesis by (simp add: split_chars_Nil del: dropWhile_eq_Nil_conv)
  next
    case (Cons d ds)
    have "list_all lead ds"
    proof -
      obtain pre where "cs = pre @ d # ds" using takeWhile_dropWhile_id [of is_whitespace cs] Cons by metis
      then have "set ds \<subseteq> set (tl cs)" by (cases pre) auto
      with assms show ?thesis by (auto simp: blocks_def list_all_iff)
    qed
    let ?w = "takeWhile (\<lambda>c. \<not> is_whitespace c) ds" and ?rest = "split_chars (dropWhile (\<lambda>c. \<not> is_whitespace c) ds)"
    have w: "list_all lead ?w" and r: "list_all lead (dropWhile (\<lambda>c. \<not> is_whitespace c) ds)"
      using \<open>list_all lead ds\<close> by (auto simp: list_all_iff dest: set_takeWhileD set_dropWhileD)
    have "list_all lead (spaced ?rest)"
      using set_spaced [of ?rest] lead_split [OF r] by (fastforce simp: list_all_iff)
    with w Cons show ?thesis
      by (cases ?rest) (simp_all add: split_chars_Cons [OF Cons])
  qed
  ultimately show ?thesis by (simp add: blocks_def)
qed

lemma chars_collapsed: "chars (join '' '' (split_whitespace t)) = spaced (split_chars (chars t))"
  using chars_concat [OF blocks_spaced [OF blocks_chars [of t]]] by (simp add: concat_spaced split_whitespace_def)

section \<open>Drawing\<close>

record picker_row =
  sender_label :: string
  received_at_unix_ms :: int
  row_text :: string

datatype pick_outcome = Selected string | Cancelled | Interrupted

text \<open>\<open>hhmm\<close> is the local time of a time stamp, where it has one.\<close>

definition format_local_hhmm :: "(int \<Rightarrow> string option) \<Rightarrow> int \<Rightarrow> string" where
  "format_local_hhmm hhmm ms = (case hhmm ms of Some t \<Rightarrow> t | None \<Rightarrow> ''--:--'')"

definition CRLF :: string where
  "CRLF = [CHR 0x0D, CHR 0x0A]"

definition marker :: "bool \<Rightarrow> string" where
  "marker here = (if here then map char_of [226, 157, 175 :: nat] @ '' '' else ''  '')"

definition unwrap_size :: "nat option \<Rightarrow> nat" where
  "unwrap_size cols = (case cols of Some w \<Rightarrow> w | None \<Rightarrow> 80)"

definition preview_width :: "nat option \<Rightarrow> nat" where
  "preview_width cols = max (unwrap_size cols - (2 + 7 + 9)) 20"

definition render_row :: "(int \<Rightarrow> string option) \<Rightarrow> nat option \<Rightarrow> bool \<Rightarrow> picker_row \<Rightarrow> string" where
  "render_row hhmm cols here row =
     marker here @ fit (format_local_hhmm hhmm (received_at_unix_ms row)) 7 @ fit (sender_label row) 9 @
     make_preview (row_text row) (preview_width cols)"

definition footer :: string where
  "footer = CRLF @ map char_of [226, 134, 145 :: nat] @ ''/'' @ map char_of [226, 134, 147 :: nat] @
     '' Select   Enter Copy   Esc Cancel'' @ CRLF"

definition render :: "(int \<Rightarrow> string option) \<Rightarrow> nat option \<Rightarrow> string \<Rightarrow> picker_row list \<Rightarrow> nat \<Rightarrow> string" where
  "render hhmm cols title rows selected =
     title @ CRLF @ CRLF @
     concat (map (\<lambda>(i, row). render_row hhmm cols (i = selected) row @ CRLF) (enumerate 0 rows)) @ footer"

section \<open>The loop\<close>

datatype key_code = Up | Down | Enter | Esc | Char_key string | Other_key

record key_event =
  key_press :: bool
  key_code :: key_code
  key_ctrl :: bool

datatype term_event = Key key_event | Other_event

record turn =
  tu_size :: "nat option"
  tu_draw_error :: "string option"
  tu_event :: "string + term_event"

record terminal =
  raw_mode :: bool
  cursor_hidden :: bool
  screen :: string

text \<open>What a key press does: move the cursor or end the picker.\<close>

definition press :: "picker_row list \<Rightarrow> nat \<Rightarrow> key_event \<Rightarrow> nat + pick_outcome" where
  "press rows selected key =
     (case key_code key of
        Up \<Rightarrow> Inl (selected - 1)
      | Down \<Rightarrow> Inl (min (selected + 1) (length rows - 1))
      | Enter \<Rightarrow> Inr (Selected (row_text (rows ! selected)))
      | Esc \<Rightarrow> Inr Cancelled
      | Char_key c \<Rightarrow> if c = ''c'' \<and> key_ctrl key then Inr Interrupted else Inl selected
      | Other_key \<Rightarrow> Inl selected)"

text \<open>\<open>None\<close> while the picker still waits for an event.\<close>

primrec picker_loop ::
  "(int \<Rightarrow> string option) \<Rightarrow> string \<Rightarrow> picker_row list \<Rightarrow> turn list \<Rightarrow> nat \<Rightarrow> terminal \<Rightarrow>
   (terminal \<times> (string + pick_outcome)) option" where
  "picker_loop hhmm title rows [] selected tm = None"
| "picker_loop hhmm title rows (t # ts) selected tm =
     (case tu_draw_error t of
        Some e \<Rightarrow> Some (tm, Inl e)
      | None \<Rightarrow>
          (let tm1 = tm\<lparr>screen := render hhmm (tu_size t) title rows selected\<rparr>
           in case tu_event t of
                Inl e \<Rightarrow> Some (tm1, Inl e)
              | Inr Other_event \<Rightarrow> picker_loop hhmm title rows ts selected tm1
              | Inr (Key key) \<Rightarrow>
                  if \<not> key_press key then picker_loop hhmm title rows ts selected tm1
                  else (case press rows selected key of
                          Inl s \<Rightarrow> picker_loop hhmm title rows ts s tm1
                        | Inr outcome \<Rightarrow> Some (tm1, Inr outcome))))"

text \<open>
  \<open>RawModeGuard\<close>: enabling it turns raw mode on and hides the cursor, dropping it undoes both;
  when hiding fails, no guard exists.  The picker drops it on every way out.
\<close>

definition guard_enable :: "string option \<Rightarrow> string option \<Rightarrow> terminal \<Rightarrow> terminal \<times> (string + unit)" where
  "guard_enable raw_error hide_error tm =
     (case raw_error of
        Some e \<Rightarrow> (tm, Inl e)
      | None \<Rightarrow>
          (case hide_error of
             Some e \<Rightarrow> (tm\<lparr>raw_mode := True\<rparr>, Inl e)
           | None \<Rightarrow> (tm\<lparr>raw_mode := True, cursor_hidden := True\<rparr>, Inr ())))"

text \<open>
  \<open>drop\<close> shows the cursor and leaves raw mode; it ignores that either fails, so the terminal may
  stay as it is.
\<close>

record drop_faults =
  show_error :: "string option"
  unraw_error :: "string option"

definition guard_drop :: "drop_faults \<Rightarrow> terminal \<Rightarrow> terminal" where
  "guard_drop faults tm =
     tm\<lparr>cursor_hidden := cursor_hidden tm \<and> show_error faults \<noteq> None,
       raw_mode := raw_mode tm \<and> unraw_error faults \<noteq> None\<rparr>"

definition picker_run ::
  "(int \<Rightarrow> string option) \<Rightarrow> string option \<Rightarrow> string option \<Rightarrow> drop_faults \<Rightarrow> turn list \<Rightarrow>
   string \<Rightarrow> picker_row list \<Rightarrow> terminal \<Rightarrow> (terminal \<times> (string + pick_outcome)) option" where
  "picker_run hhmm raw_error hide_error drops turns title rows tm =
     (if rows = [] then Some (tm, Inr Cancelled)
      else case guard_enable raw_error hide_error tm of
             (tm1, Inl e) \<Rightarrow> Some (tm1, Inl e)
           | (tm1, Inr _) \<Rightarrow>
               map_option (\<lambda>(tm2, r). (guard_drop drops tm2, r)) (picker_loop hhmm title rows turns 0 tm1))"

text \<open>The results that the picker can return for some rows, in any terminal.\<close>

definition picker_may_return :: "picker_row list \<Rightarrow> (string + pick_outcome) \<Rightarrow> bool" where
  "picker_may_return rows r \<longleftrightarrow>
     (\<exists>hhmm raw_error hide_error drops turns title tm tm'.
        picker_run hhmm raw_error hide_error drops turns title rows tm = Some (tm', r))"

section \<open>The cursor\<close>

text \<open>The cursor that a list of pressed keys leads to: clamped to the rows.\<close>

primrec cursor_after :: "nat \<Rightarrow> nat \<Rightarrow> key_code list \<Rightarrow> nat" where
  "cursor_after n i [] = i"
| "cursor_after n i (k # ks) =
     cursor_after n (case k of Up \<Rightarrow> i - 1 | Down \<Rightarrow> min (i + 1) (n - 1) | _ \<Rightarrow> i) ks"

text \<open>The presses among what happened before the last turn.\<close>

definition presses :: "turn list \<Rightarrow> key_code list" where
  "presses ts = List.map_filter (\<lambda>t. case tu_event t of
     Inr (Key key) \<Rightarrow> if key_press key then Some (key_code key) else None | _ \<Rightarrow> None) ts"

lemma cursor_in_range: "i < n \<Longrightarrow> cursor_after n i ks < n"
  by (induction ks arbitrary: i) (auto split: key_code.split)

text \<open>What a turn \<open>t\<close> that ends the loop with the cursor at \<open>i\<close> leaves on the screen and returns.\<close>

definition turn_result ::
  "(int \<Rightarrow> string option) \<Rightarrow> string \<Rightarrow> picker_row list \<Rightarrow> nat \<Rightarrow> turn \<Rightarrow> terminal \<Rightarrow> string + pick_outcome \<Rightarrow> bool" where
  "turn_result hhmm title rows i t tm r \<longleftrightarrow>
     (case r of
        Inl e \<Rightarrow> tu_draw_error t = Some e \<or> tu_event t = Inl e
      | Inr (Selected s) \<Rightarrow> s = row_text (rows ! i) \<and> i < length rows \<and>
          screen tm = render hhmm (tu_size t) title rows i \<and>
          (\<exists>key. tu_event t = Inr (Key key) \<and> key_press key \<and> key_code key = Enter)
      | Inr Cancelled \<Rightarrow> \<exists>key. tu_event t = Inr (Key key) \<and> key_press key \<and> key_code key = Esc
      | Inr Interrupted \<Rightarrow>
          \<exists>key. tu_event t = Inr (Key key) \<and> key_press key \<and> key_code key = Char_key ''c'' \<and> key_ctrl key)"

text \<open>One turn either moves the cursor within the rows and goes on, or it is the last one.\<close>

lemma picker_turn:
  assumes "i < length rows"
  obtains
    (again) j where "j < length rows"
      and "picker_loop hhmm title rows (t # ts) i tm =
        picker_loop hhmm title rows ts j (tm\<lparr>screen := render hhmm (tu_size t) title rows i\<rparr>)"
      and "\<And>ks. cursor_after (length rows) j ks = cursor_after (length rows) i (presses [t] @ ks)"
  | (ends) tm' r where "picker_loop hhmm title rows (t # ts) i tm = Some (tm', r)"
      and "raw_mode tm' = raw_mode tm" and "cursor_hidden tm' = cursor_hidden tm"
      and "turn_result hhmm title rows i t tm' r"
proof (cases "tu_draw_error t = None \<and> (\<exists>ev. tu_event t = Inr ev)")
  case False
  then consider e where "tu_draw_error t = Some e" | e where "tu_draw_error t = None" "tu_event t = Inl e"
    by (cases "tu_event t") auto
  then show ?thesis
  proof cases
    case (1 e)
    then show ?thesis by (intro ends [of tm "Inl e"]) (simp_all add: turn_result_def)
  next
    case (2 e)
    then show ?thesis
      by (intro ends [of "tm\<lparr>screen := render hhmm (tu_size t) title rows i\<rparr>" "Inl e"])
        (simp_all add: turn_result_def)
  qed
next
  case True
  then obtain ev where t: "tu_draw_error t = None" "tu_event t = Inr ev" by blast
  show ?thesis
  proof (cases "\<exists>key. ev = Key key \<and> key_press key")
    case False
    with t assms show ?thesis
      by (intro again [of i]) (auto simp: Let_def presses_def List.map_filter_def split: term_event.splits)
  next
    case True
    then obtain key where ev: "ev = Key key" "key_press key" by blast
    with t have ks: "presses [t] = [key_code key]"
      by (simp add: presses_def List.map_filter_def)
    show ?thesis
    proof (cases "press rows i key")
      case (Inl j)
      with t ev assms ks show ?thesis
        by (intro again [of j]) (auto simp: Let_def press_def split: key_code.splits if_splits)
    next
      case (Inr outcome)
      with t ev assms show ?thesis
        by (intro ends [of "tm\<lparr>screen := render hhmm (tu_size t) title rows i\<rparr>" "Inr outcome"])
          (auto simp: Let_def press_def turn_result_def split: key_code.splits if_splits)
    qed
  qed
qed

lemma picker_loop_spec:
  assumes "picker_loop hhmm title rows ts i tm = Some (tm', r)" and "i < length rows"
  shows "\<exists>us t vs. ts = us @ t # vs \<and> raw_mode tm' = raw_mode tm \<and> cursor_hidden tm' = cursor_hidden tm \<and>
    turn_result hhmm title rows (cursor_after (length rows) i (presses us)) t tm' r"
  using assms
proof (induction ts arbitrary: i tm)
  case Nil
  then show ?case by simp
next
  case (Cons t ts)
  from Cons.prems(2) show ?case
  proof (cases rule: picker_turn [of i rows hhmm title t ts tm])
    case (again j)
    from Cons.IH [of j "tm\<lparr>screen := render hhmm (tu_size t) title rows i\<rparr>"] again Cons.prems(1)
    obtain us t' vs where "ts = us @ t' # vs"
      and "raw_mode tm' = raw_mode tm" "cursor_hidden tm' = cursor_hidden tm"
      and "turn_result hhmm title rows (cursor_after (length rows) j (presses us)) t' tm' r"
      by auto
    moreover have "presses (t # us) = presses [t] @ presses us"
      by (simp add: presses_def List.map_filter_def)
    then have "cursor_after (length rows) i (presses (t # us)) = cursor_after (length rows) j (presses us)"
      by (simp only: again(3))
    ultimately show ?thesis
      by - (rule exI [of _ "t # us"], rule exI [of _ t'], rule exI [of _ vs], simp)
  next
    case (ends tm1 r1)
    with Cons.prems(1) show ?thesis
      by - (rule exI [of _ "[]"], rule exI [of _ t], rule exI [of _ ts],
        simp del: picker_loop.simps add: presses_def List.map_filter_def)
  qed
qed

lemma preview_chars:
  "chars (make_preview t w) =
     (let cs = spaced (split_chars (chars t)); m = max w 20
      in if length cs \<le> m then cs else take (m - 3) cs @ [''.'', ''.'', ''.''])"
proof -
  have "chars (x @ ''...'') = chars x @ [''.'', ''.'', ''.'']" for x
    by (subst chars_append) simp_all
  then show ?thesis by (simp add: make_preview_def Let_def char_count_def chars_collapsed)
qed

text \<open>
  What the picker shows of a message stays on its line and in its columns: the time and the
  sender take exactly their widths, the preview at most the width of the terminal that is left
  and never more than that or 20 characters, and no line break or tab of the message is drawn.
  A message that fits is shown in full, a longer one ends in three dots.
\<close>

theorem picker_columns:
  "char_count (fit t 7) = 7 \<and> char_count (fit t 9) = 9 \<and>
   char_count (make_preview t w) \<le> max w 20 \<and>
   (\<forall>c. c \<in> set (chars (make_preview t w)) \<and> is_whitespace c \<longrightarrow> c = '' '') \<and>
   (if char_count (join '' '' (split_whitespace t)) \<le> max w 20
    then make_preview t w = join '' '' (split_whitespace t)
    else suffix ''...'' (make_preview t w) \<and> char_count (make_preview t w) = max w 20)"
proof -
  let ?cs = "spaced (split_chars (chars t))"
  have words: "\<not> is_whitespace c" if "c \<in> set ?cs" "c \<noteq> '' ''" for c
    using that set_spaced [of "split_chars (chars t)"] split_chars_set by fastforce
  have dot: "\<not> is_whitespace ''.''" by (simp add: is_whitespace_def whitespace_chars_def)
  have "c = '' ''" if "c \<in> set (chars (make_preview t w))" "is_whitespace c" for c
    using that words [of c] dot by (auto simp: preview_chars Let_def split: if_splits dest: in_set_takeD)
  moreover have "char_count (make_preview t w) \<le> max w 20"
    by (simp add: char_count_def preview_chars Let_def max_def) arith
  moreover have "if char_count (join '' '' (split_whitespace t)) \<le> max w 20
    then make_preview t w = join '' '' (split_whitespace t)
    else suffix ''...'' (make_preview t w) \<and> char_count (make_preview t w) = max w 20"
    by (simp add: char_count_def preview_chars chars_collapsed Let_def max_def)
      (simp add: make_preview_def Let_def char_count_def chars_collapsed suffix_def max_def, arith)
  ultimately show ?thesis by (simp add: fit_width)
qed

theorem picker_columns_witness:
  "make_preview (''hello'' @ [CHR 0x0A, CHR 0x09] @ ''world   there'') 5 = ''hello world there''"
  using picker_columns [of "''hello'' @ [CHR 0x0A, CHR 0x09] @ ''world   there''" 5]
  by (simp add: make_preview_def split_whitespace_def split_chars.simps is_cont_def is_whitespace_def
      whitespace_chars_def char_count_def Let_def)

text \<open>Whether a turn ends the picker.\<close>

definition ends :: "turn \<Rightarrow> bool" where
  "ends t \<longleftrightarrow> tu_draw_error t \<noteq> None \<or>
     (case tu_event t of
        Inl _ \<Rightarrow> True
      | Inr Other_event \<Rightarrow> False
      | Inr (Key key) \<Rightarrow> key_press key \<and>
          (key_code key \<in> {Enter, Esc} \<or> key_code key = Char_key ''c'' \<and> key_ctrl key))"

lemma picker_loop_None: "picker_loop hhmm title rows ts i tm = None \<longleftrightarrow> (\<forall>t \<in> set ts. \<not> ends t)"
proof (induction ts arbitrary: i tm)
  case (Cons t ts)
  then show ?case
    by (cases "tu_draw_error t"; cases "tu_event t")
      (auto simp: ends_def press_def Let_def split: term_event.split key_code.split)
qed simp

text \<open>
  C33.  The picker returns the full text of a row, the one on which the pressed arrow keys left the
  cursor, clamped to the list, and which the last screen marked, and only on Enter; it ends
  exactly on Enter, Esc, Ctrl-C or an error.  The terminal is left as it was found on every way
  out, except that the cursor stays hidden when showing it fails, and raw mode stays on when
  leaving it fails, or when hiding the cursor fails after raw mode was entered.
\<close>

theorem picker_selects:
  assumes "\<not> raw_mode tm" and "\<not> cursor_hidden tm" and "rows \<noteq> []"
  shows "case picker_run hhmm raw_error hide_error drops turns title rows tm of
      None \<Rightarrow> \<forall>t \<in> set turns. \<not> ends t
    | Some (tm', r) \<Rightarrow>
        (cursor_hidden tm' \<longleftrightarrow> raw_error = None \<and> hide_error = None \<and> show_error drops \<noteq> None) \<and>
        (raw_mode tm' \<longleftrightarrow> raw_error = None \<and> (hide_error \<noteq> None \<or> unraw_error drops \<noteq> None)) \<and>
        (raw_error = None \<and> hide_error = None \<longrightarrow> (\<exists>t \<in> set turns. ends t)) \<and>
        (\<forall>s. r = Inr (Selected s) \<longrightarrow>
           (\<exists>us t vs i. turns = us @ t # vs \<and> i = cursor_after (length rows) 0 (presses us) \<and>
              i < length rows \<and> s = row_text (rows ! i) \<and>
              screen tm' = render hhmm (tu_size t) title rows i \<and>
              (\<exists>key. tu_event t = Inr (Key key) \<and> key_press key \<and> key_code key = Enter)))"
proof (cases "raw_error = None \<and> hide_error = None")
  case False
  with assms show ?thesis
    by (auto simp: picker_run_def guard_enable_def split: option.split)
next
  case True
  let ?tm = "tm\<lparr>raw_mode := True, cursor_hidden := True\<rparr>"
  have run: "picker_run hhmm raw_error hide_error drops turns title rows tm =
      map_option (\<lambda>(tm2, r). (guard_drop drops tm2, r)) (picker_loop hhmm title rows turns 0 ?tm)"
    using True assms(3) by (simp add: picker_run_def guard_enable_def)
  show ?thesis
  proof (cases "picker_loop hhmm title rows turns 0 ?tm")
    case None
    then show ?thesis
      using picker_loop_None [of hhmm title rows turns 0 ?tm] unfolding run by simp
  next
    case (Some tr)
    obtain tm2 r where tr: "tr = (tm2, r)" by fastforce
    have "\<exists>t \<in> set turns. ends t"
      using picker_loop_None [of hhmm title rows turns 0 ?tm] Some by auto
    moreover have "\<forall>s. r = Inr (Selected s) \<longrightarrow>
           (\<exists>us t vs i. turns = us @ t # vs \<and> i = cursor_after (length rows) 0 (presses us) \<and>
              i < length rows \<and> s = row_text (rows ! i) \<and>
              screen (guard_drop drops tm2) = render hhmm (tu_size t) title rows i \<and>
              (\<exists>key. tu_event t = Inr (Key key) \<and> key_press key \<and> key_code key = Enter))"
      using picker_loop_spec [OF Some [unfolded tr]] assms(3) by (fastforce simp: guard_drop_def turn_result_def)
    moreover have "raw_mode tm2" "cursor_hidden tm2"
      using picker_loop_spec [OF Some [unfolded tr]] assms(3) by auto
    ultimately show ?thesis
      unfolding run Some tr using True by (simp add: guard_drop_def)
  qed
qed

definition demo_rows :: "picker_row list" where
  "demo_rows = [\<lparr>sender_label = ''Ann'', received_at_unix_ms = 0, row_text = ''first''\<rparr>,
     \<lparr>sender_label = ''Bob'', received_at_unix_ms = 1, row_text = ''second''\<rparr>]"

definition demo_turn :: "key_code \<Rightarrow> turn" where
  "demo_turn k = \<lparr>tu_size = Some 40, tu_draw_error = None,
     tu_event = Inr (Key \<lparr>key_press = True, key_code = k, key_ctrl = False\<rparr>)\<rparr>"

definition no_drop_faults :: drop_faults where
  "no_drop_faults = \<lparr>show_error = None, unraw_error = None\<rparr>"

theorem picker_selects_witness:
  "let tm = \<lparr>raw_mode = False, cursor_hidden = False, screen = []\<rparr>
   in \<exists>tm'. picker_run (\<lambda>_. None) None None no_drop_faults [demo_turn Down, demo_turn Down, demo_turn Enter] ''t'' demo_rows tm =
        Some (tm', Inr (Selected ''second'')) \<and> \<not> raw_mode tm' \<and> \<not> cursor_hidden tm'"
proof -
  let ?tm = "\<lparr>raw_mode = False, cursor_hidden = False, screen = []\<rparr>"
  obtain tm' where run: "picker_run (\<lambda>_. None) None None no_drop_faults [demo_turn Down, demo_turn Down, demo_turn Enter] ''t'' demo_rows ?tm =
        Some (tm', Inr (Selected ''second''))"
    by (simp add: picker_run_def guard_enable_def demo_turn_def demo_rows_def press_def Let_def)
  have "demo_rows \<noteq> []" by (simp add: demo_rows_def)
  from picker_selects [where tm = ?tm and rows = demo_rows and hhmm = "\<lambda>_. None" and raw_error = None
      and hide_error = None and drops = no_drop_faults and turns = "[demo_turn Down, demo_turn Down, demo_turn Enter]" and title = "''t''", OF _ _ this]
  show ?thesis unfolding run Let_def by (simp add: no_drop_faults_def)
qed

lemma picker_selected:
  assumes "picker_may_return rows (Inr (Selected s))"
  shows "\<exists>row \<in> set rows. s = row_text row"
proof -
  from assms obtain hhmm raw_error hide_error drops turns title tm tm' where
    run: "picker_run hhmm raw_error hide_error drops turns title rows tm = Some (tm', Inr (Selected s))"
    unfolding picker_may_return_def by blast
  then have rows: "rows \<noteq> []" by (auto simp: picker_run_def)
  with run obtain tm1 tm2 where "picker_loop hhmm title rows turns 0 tm1 = Some (tm2, Inr (Selected s))"
    by (auto simp: picker_run_def split: prod.splits sum.splits)
  from picker_loop_spec [OF this] rows show ?thesis by (auto simp: turn_result_def)
qed

end
