(* ===== verification/Lcp_Cli.thy ===== *)
theory Lcp_Cli
  imports Lcp_Codec Lcp_Picker
begin

text \<open>
  Programs of the command line (\<open>lcp-cli/src\<close>): a command is a tree of what it does to the
  outside, one constructor per kind of operation, each with the continuation that receives the
  result; connections, answers of the daemon, the user, the clipboard and the clock are left to the
  environment.  The loops that wait for events or poll are \<open>Loop\<close>, whose body goes round with
  \<open>Again\<close>.  \<open>runs\<close> is the execution against any environment, \<open>csafe\<close> a condition on a tree
  that implies a property of all its runs, by recursion on the tree.  Also here: the helpers that
  the commands share, of \<open>main.rs\<close>, \<open>output.rs\<close> and \<open>daemon_conn.rs\<close>.
\<close>

section \<open>Commands as trees\<close>

datatype cli =
    Exit int
  | Fail string \<comment> \<open>an error returned to \<open>main\<close>\<close>
  | Out string cli
  | Err_out string cli
  | Print_json json cli
  | Write_stdout string "(string + unit) \<Rightarrow> cli"
  | Read_line "string option \<Rightarrow> cli"
  | Read_stdin nat "(string + bytes) \<Rightarrow> cli"
  | Ask_terminal "bool \<Rightarrow> cli"
  | Read_clipboard "(string + string) \<Rightarrow> cli"
  | Write_clipboard string "(string + unit) \<Rightarrow> cli"
  | Try_connect "(string + unit) \<Rightarrow> cli"
  | Spawn_daemon "(string + unit) \<Rightarrow> cli"
  | Sleep nat cli
  | Now "nat \<Rightarrow> cli"
  | Call_daemon string json "ipc_response option \<Rightarrow> cli"
  | Await_event "ipc_event option \<Rightarrow> cli"
  | Run_picker string "picker_row list" "(string + pick_outcome) \<Rightarrow> cli"
  | Set_autostart bool "(string + unit) \<Rightarrow> cli"
  | Loop cli
  | Again

datatype act =
    Did_out string
  | Did_err string
  | Printed json
  | Wrote_stdout string "string + unit"
  | Got_line "string option"
  | Got_stdin nat "string + bytes"
  | Is_terminal bool
  | Clipboard_read "string + string"
  | Clipboard_written string "string + unit"
  | Connected "string + unit"
  | Spawned_daemon "string + unit"
  | Slept nat
  | Time nat
  | Called string json "ipc_response option"
  | Got_event "ipc_event option"
  | Picked "string + pick_outcome"
  | Autostart_set bool "string + unit"

text \<open>
  A step on an answer of the environment.  \<open>main\<close> prints an error and exits with the general
  code; reading the standard input returns at most as many bytes as were asked for; the picker
  returns what its own model can return.
\<close>

primrec cstep :: "cli \<Rightarrow> act \<Rightarrow> cli option" where
  "cstep (Exit n) a = None"
| "cstep (Fail m) a = (if a = Did_err (''Error: '' @ m @ [CHR 0x0A]) then Some (Exit 1) else None)"
| "cstep (Out s c) a = (if a = Did_out s then Some c else None)"
| "cstep (Err_out s c) a = (if a = Did_err s then Some c else None)"
| "cstep (Print_json v c) a = (if a = Printed v then Some c else None)"
| "cstep (Write_stdout s k) a =
     (case a of Wrote_stdout s' r \<Rightarrow> if s' = s then Some (k r) else None | _ \<Rightarrow> None)"
| "cstep (Read_line k) a = (case a of Got_line r \<Rightarrow> Some (k r) | _ \<Rightarrow> None)"
| "cstep (Read_stdin n k) a =
     (case a of
        Got_stdin n' r \<Rightarrow>
          if n' = n \<and> (\<forall>bs. r = Inr bs \<longrightarrow> length bs \<le> n) then Some (k r) else None
      | _ \<Rightarrow> None)"
| "cstep (Ask_terminal k) a = (case a of Is_terminal b \<Rightarrow> Some (k b) | _ \<Rightarrow> None)"
| "cstep (Read_clipboard k) a = (case a of Clipboard_read r \<Rightarrow> Some (k r) | _ \<Rightarrow> None)"
| "cstep (Write_clipboard s k) a =
     (case a of Clipboard_written s' r \<Rightarrow> if s' = s then Some (k r) else None | _ \<Rightarrow> None)"
| "cstep (Try_connect k) a = (case a of Connected r \<Rightarrow> Some (k r) | _ \<Rightarrow> None)"
| "cstep (Spawn_daemon k) a = (case a of Spawned_daemon r \<Rightarrow> Some (k r) | _ \<Rightarrow> None)"
| "cstep (Sleep n c) a = (if a = Slept n then Some c else None)"
| "cstep (Now k) a = (case a of Time t \<Rightarrow> Some (k t) | _ \<Rightarrow> None)"
| "cstep (Call_daemon m p k) a =
     (case a of Called m' p' r \<Rightarrow> if m' = m \<and> p' = p then Some (k r) else None | _ \<Rightarrow> None)"
| "cstep (Await_event k) a = (case a of Got_event r \<Rightarrow> Some (k r) | _ \<Rightarrow> None)"
| "cstep (Run_picker t rows k) a =
     (case a of Picked r \<Rightarrow> if picker_may_return rows r then Some (k r) else None | _ \<Rightarrow> None)"
| "cstep (Set_autostart b k) a =
     (case a of Autostart_set b' r \<Rightarrow> if b' = b then Some (k r) else None | _ \<Rightarrow> None)"
| "cstep (Loop c) a = None"
| "cstep Again a = None"

text \<open>
  A run: the body of the innermost loop, the rest of the program, and what was done, newest first.
\<close>

inductive runs :: "cli \<Rightarrow> act list \<Rightarrow> cli \<Rightarrow> cli \<Rightarrow> bool" for start where
  run_start: "runs start [] start start"
| run_act: "runs start h b c \<Longrightarrow> cstep c a = Some c' \<Longrightarrow> runs start (a # h) b c'"
| run_loop: "runs start h b (Loop c) \<Longrightarrow> runs start h c c"
| run_again: "runs start h b Again \<Longrightarrow> runs start h b b"

definition does :: "cli \<Rightarrow> act list \<Rightarrow> bool" where
  "does start h \<longleftrightarrow> (\<exists>b c. runs start h b c)"

definition exits :: "cli \<Rightarrow> act list \<Rightarrow> int \<Rightarrow> bool" where
  "exits start h n \<longleftrightarrow> (\<exists>b. runs start h b (Exit n))"

section \<open>Conditions on trees\<close>

text \<open>
  \<open>P h a\<close> has to hold of every action \<open>a\<close> after the actions \<open>h\<close>, \<open>Q h n\<close> of every exit; \<open>I\<close>
  is the invariant at the head of the loop.
\<close>

primrec csafe ::
  "(act list \<Rightarrow> act \<Rightarrow> bool) \<Rightarrow> (act list \<Rightarrow> int \<Rightarrow> bool) \<Rightarrow> cli \<Rightarrow>
   (act list \<Rightarrow> bool) \<Rightarrow> act list \<Rightarrow> bool" where
  "csafe P Q (Exit n) I h = Q h n"
| "csafe P Q (Fail m) I h =
     (let a = Did_err (''Error: '' @ m @ [CHR 0x0A]) in P h a \<and> Q (a # h) 1)"
| "csafe P Q (Out s c) I h = (P h (Did_out s) \<and> csafe P Q c I (Did_out s # h))"
| "csafe P Q (Err_out s c) I h = (P h (Did_err s) \<and> csafe P Q c I (Did_err s # h))"
| "csafe P Q (Print_json v c) I h = (P h (Printed v) \<and> csafe P Q c I (Printed v # h))"
| "csafe P Q (Write_stdout s k) I h =
     (\<forall>r. P h (Wrote_stdout s r) \<and> csafe P Q (k r) I (Wrote_stdout s r # h))"
| "csafe P Q (Read_line k) I h = (\<forall>r. P h (Got_line r) \<and> csafe P Q (k r) I (Got_line r # h))"
| "csafe P Q (Read_stdin n k) I h =
     (\<forall>r. (\<forall>bs. r = Inr bs \<longrightarrow> length bs \<le> n) \<longrightarrow>
        P h (Got_stdin n r) \<and> csafe P Q (k r) I (Got_stdin n r # h))"
| "csafe P Q (Ask_terminal k) I h = (\<forall>b. P h (Is_terminal b) \<and> csafe P Q (k b) I (Is_terminal b # h))"
| "csafe P Q (Read_clipboard k) I h =
     (\<forall>r. P h (Clipboard_read r) \<and> csafe P Q (k r) I (Clipboard_read r # h))"
| "csafe P Q (Write_clipboard s k) I h =
     (\<forall>r. P h (Clipboard_written s r) \<and> csafe P Q (k r) I (Clipboard_written s r # h))"
| "csafe P Q (Try_connect k) I h = (\<forall>r. P h (Connected r) \<and> csafe P Q (k r) I (Connected r # h))"
| "csafe P Q (Spawn_daemon k) I h =
     (\<forall>r. P h (Spawned_daemon r) \<and> csafe P Q (k r) I (Spawned_daemon r # h))"
| "csafe P Q (Sleep n c) I h = (P h (Slept n) \<and> csafe P Q c I (Slept n # h))"
| "csafe P Q (Now k) I h = (\<forall>t. P h (Time t) \<and> csafe P Q (k t) I (Time t # h))"
| "csafe P Q (Call_daemon m p k) I h =
     (\<forall>r. P h (Called m p r) \<and> csafe P Q (k r) I (Called m p r # h))"
| "csafe P Q (Await_event k) I h = (\<forall>r. P h (Got_event r) \<and> csafe P Q (k r) I (Got_event r # h))"
| "csafe P Q (Run_picker t rows k) I h =
     (\<forall>r. picker_may_return rows r \<longrightarrow> P h (Picked r) \<and> csafe P Q (k r) I (Picked r # h))"
| "csafe P Q (Set_autostart b k) I h =
     (\<forall>r. P h (Autostart_set b r) \<and> csafe P Q (k r) I (Autostart_set b r # h))"
| "csafe P Q (Loop c) I h = (\<exists>J. J h \<and> (\<forall>h'. J h' \<longrightarrow> csafe P Q c J h'))"
| "csafe P Q Again I h = I h"

lemma csafe_step:
  assumes "csafe P Q c I h" and "cstep c a = Some c'"
  shows "P h a \<and> csafe P Q c' I (a # h)"
  using assms
  by (cases c) (auto simp: Let_def split: act.splits if_splits)

lemma csafe_runs:
  assumes "runs start h b c" and "csafe P Q start (\<lambda>_. False) []"
  shows "(\<exists>I. csafe P Q c I h \<and> (\<forall>h'. I h' \<longrightarrow> csafe P Q b I h')) \<and>
    (\<forall>xs a ys. h = xs @ a # ys \<longrightarrow> P ys a)"
  using assms(1)
proof (induction rule: runs.induct)
  case run_start
  then show ?case using assms(2) by auto
next
  case (run_act h b c a c')
  then obtain I where I: "csafe P Q c I h" "\<forall>h'. I h' \<longrightarrow> csafe P Q b I h'" by blast
  from csafe_step [OF I(1) run_act.hyps(2)] I(2) run_act.IH show ?case
    by (auto simp: Cons_eq_append_conv)
next
  case (run_loop h b c)
  then show ?case by auto
next
  case (run_again h b)
  then show ?case by auto
qed

lemma does_safe: "does c h \<Longrightarrow> csafe P Q c (\<lambda>_. False) [] \<Longrightarrow> h = xs @ a # ys \<Longrightarrow> P ys a"
  using csafe_runs by (fastforce simp: does_def)

lemma exits_safe: "exits c h n \<Longrightarrow> csafe P Q c (\<lambda>_. False) [] \<Longrightarrow> Q h n"
  using csafe_runs by (fastforce simp: exits_def)

text \<open>A scripted run, for concrete inputs.\<close>

primrec script :: "nat \<Rightarrow> act list \<Rightarrow> cli \<Rightarrow> cli \<Rightarrow> cli option" where
  "script 0 as b c = None"
| "script (Suc n) as b c =
     (case c of
        Loop c' \<Rightarrow> script n as c' c'
      | Again \<Rightarrow> script n as b b
      | _ \<Rightarrow>
          (case as of
             [] \<Rightarrow> Some c
           | a # as' \<Rightarrow> (case cstep c a of None \<Rightarrow> None | Some c' \<Rightarrow> script n as' b c')))"

lemma script_numeral:
  "script (numeral v) as b c =
     (case c of
        Loop c' \<Rightarrow> script (pred_numeral v) as c' c'
      | Again \<Rightarrow> script (pred_numeral v) as b b
      | _ \<Rightarrow>
          (case as of
             [] \<Rightarrow> Some c
           | a # as' \<Rightarrow> (case cstep c a of None \<Rightarrow> None | Some c' \<Rightarrow> script (pred_numeral v) as' b c')))"
  by (simp only: numeral_eq_Suc script.simps)

lemma script_runs:
  "script n as b c = Some c' \<Longrightarrow> runs start h b c \<Longrightarrow> \<exists>b'. runs start (rev as @ h) b' c'"
proof (induction n arbitrary: as b c h)
  case 0
  then show ?case by simp
next
  case (Suc n)
  show ?case
  proof (cases "(\<exists>d. c = Loop d) \<or> c = Again")
    case True
    with Suc.prems show ?thesis
      by (auto intro: Suc.IH [OF _ run_loop] Suc.IH [OF _ run_again])
  next
    case False
    have "script (Suc n) as b c = (case as of [] \<Rightarrow> Some c
        | a # as' \<Rightarrow> (case cstep c a of None \<Rightarrow> None | Some d \<Rightarrow> script n as' b d))"
      using False by (cases c; hypsubst) simp_all
    with Suc.prems(1) show ?thesis
      using Suc.prems(2) Suc.IH [OF _ run_act [OF Suc.prems(2)]]
      by (auto split: list.splits option.splits)
  qed
qed

lemma script_does: "script n as c c \<noteq> None \<Longrightarrow> does c (rev as)"
  using script_runs [OF _ run_start] by (fastforce simp: does_def)

lemma script_exits: "script n as c c = Some (Exit k) \<Longrightarrow> exits c (rev as) k"
  using script_runs [OF _ run_start] by (fastforce simp: exits_def)

section \<open>Shared helpers\<close>

text \<open>What the CLI uses of third-party code: the text of a JSON value, lower case.\<close>

record cli_env =
  ce_json_text :: "json \<Rightarrow> string"
  ce_lowercase :: "string \<Rightarrow> string"

abbreviation nl :: string where
  "nl \<equiv> [CHR 0x0A]"

text \<open>\<open>println!\<close> and \<open>eprintln!\<close>\<close>

definition println :: "string \<Rightarrow> cli \<Rightarrow> cli" where
  "println s c = Out (s @ nl) c"

definition eprintln :: "string \<Rightarrow> cli \<Rightarrow> cli" where
  "eprintln s c = Err_out (s @ nl) c"

text \<open>\<open>output::exit_code\<close>\<close>

definition SUCCESS :: int where "SUCCESS = 0"
definition GENERAL_ERROR :: int where "GENERAL_ERROR = 1"
definition INVALID_ARGS :: int where "INVALID_ARGS = 2"
definition PEER_NOT_FOUND_CODE :: int where "PEER_NOT_FOUND_CODE = 3"
definition PEER_OFFLINE_CODE :: int where "PEER_OFFLINE_CODE = 4"
definition NO_MESSAGE_CODE :: int where "NO_MESSAGE_CODE = 5"
definition DAEMON_UNAVAILABLE :: int where "DAEMON_UNAVAILABLE = 6"
definition PAIRING_FAILURE :: int where "PAIRING_FAILURE = 7"
definition LIMIT_EXCEEDED_CODE :: int where "LIMIT_EXCEEDED_CODE = 8"
definition VERSION_MISMATCH_CODE :: int where "VERSION_MISMATCH_CODE = 9"
definition PERMISSION_FAILURE :: int where "PERMISSION_FAILURE = 10"
definition INTERRUPTED :: int where "INTERRUPTED = 130"

lemmas exit_codes = SUCCESS_def GENERAL_ERROR_def INVALID_ARGS_def PEER_NOT_FOUND_CODE_def
  PEER_OFFLINE_CODE_def NO_MESSAGE_CODE_def DAEMON_UNAVAILABLE_def PAIRING_FAILURE_def
  LIMIT_EXCEEDED_CODE_def VERSION_MISMATCH_CODE_def PERMISSION_FAILURE_def INTERRUPTED_def

definition unwrap_response :: "ipc_response \<Rightarrow> ipc_error + json" where
  "unwrap_response r =
     (if rs_ok r then Inr (unwrap_or (rs_result r) JNull)
      else Inl (unwrap_or (rs_error r) \<lparr>err_code = INTERNAL, err_message = ''unknown error''\<rparr>))"

definition exit_code_for :: "ipc_error \<Rightarrow> int" where
  "exit_code_for e =
     (let c = err_code e
      in if c = PEER_NOT_FOUND \<or> c = PEER_AMBIGUOUS then PEER_NOT_FOUND_CODE
         else if c = PEER_OFFLINE then PEER_OFFLINE_CODE
         else if c = NO_MESSAGE then NO_MESSAGE_CODE
         else if c = PAIRING_FAILED then PAIRING_FAILURE
         else if c = LIMIT_EXCEEDED then LIMIT_EXCEEDED_CODE
         else if c = VERSION_MISMATCH then VERSION_MISMATCH_CODE
         else if c = CREDENTIAL_STORE_FAILURE then PERMISSION_FAILURE
         else if c = INVALID_PARAMS then INVALID_ARGS
         else GENERAL_ERROR)"

text \<open>\<open>prompt_yes_no\<close>\<close>

definition says_yes :: "cli_env \<Rightarrow> string option \<Rightarrow> bool" where
  "says_yes x line =
     (case line of None \<Rightarrow> False | Some l \<Rightarrow> ce_lowercase x (trim l) \<in> {''y'', ''yes''})"

definition prompt_yes_no :: "cli_env \<Rightarrow> string \<Rightarrow> (bool \<Rightarrow> cli) \<Rightarrow> cli" where
  "prompt_yes_no x prompt k = Out prompt (Read_line (\<lambda>line. k (says_yes x line)))"

definition AUTOSTART_RETRY_ATTEMPTS :: nat where
  "AUTOSTART_RETRY_ATTEMPTS = 30"

definition AUTOSTART_RETRY_DELAY :: nat where
  "AUTOSTART_RETRY_DELAY = 150"

text \<open>Sleep, then try to connect, at most so many times.\<close>

primrec retry_connect :: "nat \<Rightarrow> nat \<Rightarrow> cli \<Rightarrow> cli \<Rightarrow> cli" where
  "retry_connect 0 delay connected gave_up = gave_up"
| "retry_connect (Suc n) delay connected gave_up =
     Sleep delay (Try_connect (\<lambda>r.
       case r of Inr _ \<Rightarrow> connected | Inl _ \<Rightarrow> retry_connect n delay connected gave_up))"

lemma retry_numeral:
  "retry_connect (numeral v) delay connected gave_up =
     Sleep delay (Try_connect (\<lambda>r.
       case r of Inr _ \<Rightarrow> connected | Inl _ \<Rightarrow> retry_connect (pred_numeral v) delay connected gave_up))"
  by (simp only: numeral_eq_Suc retry_connect.simps)

definition connect_or_autostart :: "(string \<Rightarrow> cli) \<Rightarrow> cli \<Rightarrow> cli" where
  "connect_or_autostart failed connected =
     Try_connect (\<lambda>r.
       case r of
         Inr _ \<Rightarrow> connected
       | Inl _ \<Rightarrow>
           Spawn_daemon (\<lambda>s.
             case s of
               Inl e \<Rightarrow> failed e
             | Inr _ \<Rightarrow>
                 retry_connect AUTOSTART_RETRY_ATTEMPTS AUTOSTART_RETRY_DELAY connected
                   (failed ''started lanclipd but it never became reachable over IPC'')))"

text \<open>\<open>connect_or_autostart().await?\<close> and \<open>client.call(..).await?\<close>\<close>

definition with_daemon :: "cli \<Rightarrow> cli" where
  "with_daemon c = connect_or_autostart Fail c"

definition call :: "string \<Rightarrow> json \<Rightarrow> (ipc_response \<Rightarrow> cli) \<Rightarrow> cli" where
  "call m p k =
     Call_daemon m p (\<lambda>r. case r of None \<Rightarrow> Fail ''daemon closed the connection'' | Some resp \<Rightarrow> k resp)"

text \<open>\<open>wait_until_unreachable\<close>: polls until a connect fails or the deadline passes.\<close>

definition wait_until_unreachable :: "nat \<Rightarrow> (bool \<Rightarrow> cli) \<Rightarrow> cli" where
  "wait_until_unreachable timeout k =
     Now (\<lambda>t0. Loop (Now (\<lambda>t.
       if t < t0 + timeout
       then Try_connect (\<lambda>r. case r of Inl _ \<Rightarrow> k True | Inr _ \<Rightarrow> Sleep 100 Again)
       else k False)))"

text \<open>Reporting the error of a response.\<close>

definition report :: "ipc_error \<Rightarrow> int \<Rightarrow> cli" where
  "report e code = eprintln (''Error: '' @ err_message e) (Exit code)"

lemmas cli_defs = println_def eprintln_def prompt_yes_no_def with_daemon_def connect_or_autostart_def
  call_def report_def

end
