(* ===== verification/Lcp_Commands.thy ===== *)
theory Lcp_Commands
  imports Lcp_Cli
begin

text \<open>
  The commands of \<open>lcp\<close> for peers, messages and pairing (\<open>lcp-cli/src/commands\<close>), one
  definition per function, with the text of each line they print.
\<close>

definition str_field :: "json \<Rightarrow> string \<Rightarrow> string \<Rightarrow> string" where
  "str_field v k d = unwrap_or (get_str v k) d"

section \<open>Status and peers\<close>

definition format_uptime :: "nat \<Rightarrow> string" where
  "format_uptime secs =
     (let h = secs div 3600; m = secs mod 3600 div 60; s = secs mod 60
      in if h > 0 then show_nat h @ ''h '' @ show_nat m @ ''m''
         else if m > 0 then show_nat m @ ''m '' @ show_nat s @ ''s''
         else show_nat s @ ''s'')"

definition status_run :: "bool \<Rightarrow> cli" where
  "status_run json =
     connect_or_autostart
       (\<lambda>e. eprintln (''Error: could not reach or start lanclipd: '' @ e) (Exit DAEMON_UNAVAILABLE))
       (call GET_STATUS (JObj []) (\<lambda>resp.
          case unwrap_response resp of
            Inl e \<Rightarrow> report e (exit_code_for e)
          | Inr v \<Rightarrow>
              if json then Print_json v (Exit SUCCESS)
              else let count = (\<lambda>k. unat (unwrap_or (get_u64 v k) 0))
                   in println ''Daemon       running''
                        (println (''Identity     '' @ str_field v ''endpoint_id_prefix'' ''-'')
                        (println (''Relay        '' @ str_field v ''relay_mode'' ''-'')
                        (println (''Peers        '' @ show_nat (count ''online_peer_count'') @ '' online / ''
                           @ show_nat (count ''trusted_peer_count'') @ '' paired'')
                        (println ''History      memory only''
                        (println (''Uptime       '' @ format_uptime (count ''uptime_secs'')) (Exit SUCCESS))))))))"

definition pad :: "string \<Rightarrow> nat \<Rightarrow> string" where
  "pad v width = pad_right v (max width (char_count v + 2))"

definition peer_line :: "json \<Rightarrow> string" where
  "peer_line peer =
     (let path = str_field peer ''path'' ''-''
      in pad (str_field peer ''alias'' ''-'') 10 @ pad (str_field peer ''device_name'' ''-'') 13
         @ pad (str_field peer ''status'' ''-'') 12 @ (if path = ''unknown'' then ''-'' else path))"

definition peers_run :: "bool \<Rightarrow> cli" where
  "peers_run json =
     with_daemon (call LIST_PEERS (JObj []) (\<lambda>resp.
       case unwrap_response resp of
         Inl e \<Rightarrow> report e GENERAL_ERROR
       | Inr v \<Rightarrow>
           if json then Print_json v (Exit SUCCESS)
           else let peers = unwrap_or (as_array v) []
                in if peers = [] then
                     println (''No paired peers yet. Run `lcp invite` on this machine, or `lcp pair ''
                       @ ''<ticket>` with one a friend sent you.'') (Exit SUCCESS)
                   else println (pad ''NAME'' 10 @ pad ''DEVICE'' 13 @ pad ''STATUS'' 12 @ ''PATH'')
                     (foldr (\<lambda>p c. println (peer_line p) c) peers (Exit SUCCESS))))"

definition peers_rename :: "string \<Rightarrow> string \<Rightarrow> cli" where
  "peers_rename peer new_alias =
     with_daemon (call RENAME_PEER (JObj [(''peer'', JStr peer), (''alias'', JStr new_alias)]) (\<lambda>resp.
       case unwrap_response resp of
         Inl e \<Rightarrow> report e (exit_code_for e)
       | Inr v \<Rightarrow> println (''Renamed peer to '' @ str_field v ''alias'' new_alias @ ''.'') (Exit SUCCESS)))"

section \<open>Messages\<close>

text \<open>\<open>String::from_utf8\<close>: the well-formed byte sequences of the Unicode standard.\<close>

definition cont_byte :: "nat \<Rightarrow> bool" where
  "cont_byte b \<longleftrightarrow> 128 \<le> b \<and> b \<le> 191"

definition second_byte :: "nat \<Rightarrow> nat \<Rightarrow> bool" where
  "second_byte a b \<longleftrightarrow>
     (if a = 224 then 160 \<le> b \<and> b \<le> 191
      else if a = 237 then 128 \<le> b \<and> b \<le> 159
      else if a = 240 then 144 \<le> b \<and> b \<le> 191
      else if a = 244 then 128 \<le> b \<and> b \<le> 143
      else cont_byte b)"

fun utf8_valid :: "nat list \<Rightarrow> bool" where
  "utf8_valid [] = True"
| "utf8_valid (a # bs) =
     (if a < 128 then utf8_valid bs
      else if 194 \<le> a \<and> a \<le> 223 then
        (case bs of b # cs \<Rightarrow> cont_byte b \<and> utf8_valid cs | _ \<Rightarrow> False)
      else if 224 \<le> a \<and> a \<le> 239 then
        (case bs of b # c # cs \<Rightarrow> second_byte a b \<and> cont_byte c \<and> utf8_valid cs | _ \<Rightarrow> False)
      else if 240 \<le> a \<and> a \<le> 244 then
        (case bs of
           b # c # d # cs \<Rightarrow> second_byte a b \<and> cont_byte c \<and> cont_byte d \<and> utf8_valid cs
         | _ \<Rightarrow> False)
      else False)"

definition read_stdin_capped :: "(string + string \<Rightarrow> cli) \<Rightarrow> cli" where
  "read_stdin_capped k =
     Read_stdin (MAX_TEXT_BYTES + 1) (\<lambda>r.
       case r of
         Inl e \<Rightarrow> k (Inl (''could not read stdin: '' @ e))
       | Inr buf \<Rightarrow>
           if length buf > MAX_TEXT_BYTES
           then k (Inl (''stdin exceeds the '' @ show_nat MAX_TEXT_BYTES @ ''-byte limit''))
           else if utf8_valid (map unat buf) then k (Inr (map (\<lambda>b. char_of (unat b)) buf))
           else k (Inl ''stdin is not valid UTF-8''))"

definition send_this :: "string \<Rightarrow> string \<Rightarrow> cli" where
  "send_this peer t =
     (if t = [] then eprintln ''Error: refusing to send empty text.'' (Exit INVALID_ARGS)
      else if length t > MAX_TEXT_BYTES
      then eprintln (''Error: text is '' @ show_nat (length t) @ '' bytes, over the ''
             @ show_nat MAX_TEXT_BYTES @ ''-byte limit.'') (Exit LIMIT_EXCEEDED_CODE)
      else with_daemon (call SEND_TEXT (JObj [(''peer'', JStr peer), (''text'', JStr t)]) (\<lambda>resp.
             case unwrap_response resp of
               Inr _ \<Rightarrow> println (''Sent to '' @ peer @ ''.'') (Exit SUCCESS)
             | Inl e \<Rightarrow> report e (exit_code_for e))))"

definition send_run :: "string \<Rightarrow> bool \<Rightarrow> string option \<Rightarrow> cli" where
  "send_run peer use_stdin text_arg =
     (if use_stdin then
        read_stdin_capped (\<lambda>r.
          case r of
            Inr t \<Rightarrow> send_this peer t
          | Inl m \<Rightarrow> eprintln (''Error: '' @ m) (Exit INVALID_ARGS))
      else case text_arg of
             Some t \<Rightarrow> send_this peer t
           | None \<Rightarrow>
               Read_clipboard (\<lambda>r.
                 case r of
                   Inr t \<Rightarrow> send_this peer t
                 | Inl e \<Rightarrow> eprintln (''Error: could not read clipboard: '' @ e) (Exit INVALID_ARGS)))"

definition peer_params :: "string option \<Rightarrow> json" where
  "peer_params peer = (case peer of Some p \<Rightarrow> JObj [(''peer'', JStr p)] | None \<Rightarrow> JObj [])"

definition copy_run :: "string option \<Rightarrow> cli" where
  "copy_run peer =
     with_daemon (call GET_LATEST_INCOMING (peer_params peer) (\<lambda>resp.
       case unwrap_response resp of
         Inr v \<Rightarrow>
           Write_clipboard (str_field v ''text'' []) (\<lambda>r.
             case r of
               Inr _ \<Rightarrow>
                 println (case peer of
                     Some p \<Rightarrow> ''Copied latest message from '' @ p @ ''.''
                   | None \<Rightarrow> ''Copied latest message.'') (Exit SUCCESS)
             | Inl e \<Rightarrow> eprintln (''Error: could not write clipboard: '' @ e) (Exit GENERAL_ERROR))
       | Inl e \<Rightarrow> report e (exit_code_for e)))"

definition fetch_run :: "string option \<Rightarrow> bool \<Rightarrow> cli" where
  "fetch_run peer json =
     with_daemon (call GET_LATEST_INCOMING (peer_params peer) (\<lambda>resp.
       case unwrap_response resp of
         Inr v \<Rightarrow>
           if json then Print_json v (Exit SUCCESS)
           else Write_stdout (str_field v ''text'' []) (\<lambda>r.
                  case r of Inl e \<Rightarrow> Fail e | Inr _ \<Rightarrow> Exit SUCCESS)
       | Inl e \<Rightarrow> report e (exit_code_for e)))"

definition message_row :: "json \<Rightarrow> picker_row" where
  "message_row m =
     \<lparr>sender_label = str_field m ''sender_label'' ''?'',
      received_at_unix_ms = unwrap_or (get_i64 m ''received_at_unix_ms'') 0,
      row_text = str_field m ''text'' []\<rparr>"

definition pick_title :: "string option \<Rightarrow> string" where
  "pick_title peer =
     (case peer of
        Some p \<Rightarrow> ''Choose a message to copy '' @ map char_of [226, 128, 148 :: nat] @ '' '' @ p
      | None \<Rightarrow> ''Choose a message to copy'')"

definition pick_outcome_run :: "string + pick_outcome \<Rightarrow> cli" where
  "pick_outcome_run r =
     (case r of
        Inl e \<Rightarrow> Fail e
      | Inr (Selected t) \<Rightarrow>
          Write_clipboard t (\<lambda>w.
            case w of
              Inr _ \<Rightarrow> println ''Copied.'' (Exit SUCCESS)
            | Inl e \<Rightarrow> eprintln (''Error: could not write clipboard: '' @ e) (Exit GENERAL_ERROR))
      | Inr Cancelled \<Rightarrow> Exit SUCCESS
      | Inr Interrupted \<Rightarrow> Exit INTERRUPTED)"

definition pick_run :: "string option \<Rightarrow> bool \<Rightarrow> cli" where
  "pick_run peer incoming_only =
     (let refuse = eprintln ''Error: `lcp pick` requires an interactive terminal.'' (Exit INVALID_ARGS)
      in Ask_terminal (\<lambda>stdin_is. if \<not> stdin_is then refuse else
         Ask_terminal (\<lambda>stdout_is. if \<not> stdout_is then refuse else
           with_daemon (call LIST_MESSAGES
               (JObj [(''peer'', jopt JStr peer), (''incoming_only'', JBool incoming_only)]) (\<lambda>resp.
             case unwrap_response resp of
               Inl e \<Rightarrow> report e (exit_code_for e)
             | Inr v \<Rightarrow>
                 let messages = unwrap_or (as_array v) []
                 in if messages = [] then println ''No messages to show yet.'' (Exit SUCCESS)
                    else Run_picker (pick_title peer) (map message_row messages) pick_outcome_run)))))"

section \<open>Pairing\<close>

definition match_prompt :: string where
  "match_prompt = ''Does this match on their screen too? Confirm pairing? [y/N] ''"

definition verification_line :: "string \<Rightarrow> string" where
  "verification_line v = ''Verification string: '' @ v"

text \<open>A question about a verification string that was just shown, and the method it selects.\<close>

definition decide :: "cli_env \<Rightarrow> string \<Rightarrow> (bool \<Rightarrow> string \<Rightarrow> cli) \<Rightarrow> cli" where
  "decide x verification k =
     println (verification_line verification)
       (prompt_yes_no x match_prompt (\<lambda>yes. k yes (if yes then CONFIRM_PAIRING else REJECT_PAIRING)))"

definition pairing_params :: "string \<Rightarrow> json" where
  "pairing_params pairing_id = JObj [(''pairing_id'', JStr pairing_id)]"

text \<open>The end of a pairing, from the payload of its \<open>pairing_updated\<close> event.\<close>

definition pairing_result :: "string \<Rightarrow> json \<Rightarrow> cli" where
  "pairing_result rejected_text payload =
     (let status = str_field payload ''status'' []
      in if status = ''paired''
         then println (''Paired with '' @ str_field payload ''alias'' ''peer'' @ ''.'') (Exit SUCCESS)
         else if status = ''rejected'' then println rejected_text (Exit PAIRING_FAILURE)
         else println (''Pairing failed: '' @ str_field payload ''reason'' ''unknown error'')
                (Exit PAIRING_FAILURE))"

definition lost_connection :: cli where
  "lost_connection =
     eprintln ''Error: lost connection to the daemon while waiting.'' (Exit DAEMON_UNAVAILABLE)"

definition invite_wait :: "cli_env \<Rightarrow> cli" where
  "invite_wait x =
     Loop (Await_event (\<lambda>e.
       case e of
         None \<Rightarrow> lost_connection
       | Some ev \<Rightarrow>
           if ev_event ev = PAIRING_REQUESTED then
             (let p = ev_payload ev; pairing_id = str_field p ''pairing_id'' []
              in println (nl @ str_field p ''peer_display_name'' ''someone'' @ '' (''
                     @ str_field p ''peer_device_name'' ''a device'' @ '') wants to pair.'')
                   (decide x (str_field p ''verification_string'' []) (\<lambda>yes method.
                      Call_daemon method (pairing_params pairing_id) (\<lambda>_. Again))))
           else if ev_event ev = PAIRING_UPDATED
           then pairing_result ''Pairing was rejected.'' (ev_payload ev)
           else Again))"

definition invite_run :: "cli_env \<Rightarrow> u64 \<Rightarrow> bool \<Rightarrow> cli" where
  "invite_run x ttl_secs no_copy =
     with_daemon (call SUBSCRIBE (JObj []) (\<lambda>_.
       call CREATE_INVITE (JObj [(''ttl_secs'', JInt (uint ttl_secs))]) (\<lambda>resp.
         case unwrap_response resp of
           Inl e \<Rightarrow> report e (exit_code_for e)
         | Inr v \<Rightarrow>
             (let ticket = str_field v ''ticket'' [];
                  ttl = unwrap_or (get_u64 v ''ttl_secs'') ttl_secs;
                  wait = println (''Waiting for a peer for '' @ show_nat ((unat ttl + 59) div 60)
                           @ '' minutes. Press Ctrl+C to cancel.'') (invite_wait x)
              in if no_copy then println (ticket @ nl) wait
                 else Write_clipboard ticket (\<lambda>r.
                        case r of
                          Inr _ \<Rightarrow>
                            println (''Pairing ticket copied to clipboard.'' @ nl @ nl @ ticket @ nl) wait
                        | Inl _ \<Rightarrow>
                            println (''(could not copy ticket to clipboard)'' @ nl @ nl @ ticket @ nl) wait)))))"

definition pair_wait :: "string \<Rightarrow> cli" where
  "pair_wait pairing_id =
     Loop (Await_event (\<lambda>e.
       case e of
         None \<Rightarrow> lost_connection
       | Some ev \<Rightarrow>
           if ev_event ev \<noteq> PAIRING_UPDATED then Again
           else if get_str (ev_payload ev) ''pairing_id'' \<noteq> Some pairing_id then Again
           else pairing_result ''The other side rejected pairing.'' (ev_payload ev)))"

definition pair_run :: "cli_env \<Rightarrow> string \<Rightarrow> cli" where
  "pair_run x ticket =
     with_daemon (call SUBSCRIBE (JObj []) (\<lambda>_.
       call JOIN_INVITE (JObj [(''ticket'', JStr ticket)]) (\<lambda>resp.
         case unwrap_response resp of
           Inl e \<Rightarrow> report e (exit_code_for e)
         | Inr v \<Rightarrow>
             (let pairing_id = str_field v ''pairing_id'' []
              in decide x (str_field v ''verification_string'' []) (\<lambda>yes method.
                   call method (pairing_params pairing_id) (\<lambda>resp.
                     case unwrap_response resp of
                       Inl e \<Rightarrow> report e (exit_code_for e)
                     | Inr _ \<Rightarrow>
                         if \<not> yes then println ''Cancelled.'' (Exit SUCCESS)
                         else pair_wait pairing_id))))))"

definition unpair_prompt :: "string \<Rightarrow> string" where
  "unpair_prompt peer = ''Unpair '' @ peer @ ''? This cannot be undone without pairing again. [y/N] ''"

definition unpair_run :: "cli_env \<Rightarrow> string \<Rightarrow> bool \<Rightarrow> cli" where
  "unpair_run x peer yes =
     (let go = with_daemon (call UNPAIR_PEER (JObj [(''peer'', JStr peer)]) (\<lambda>resp.
                 case unwrap_response resp of
                   Inr _ \<Rightarrow> println (''Unpaired '' @ peer @ ''.'') (Exit SUCCESS)
                 | Inl e \<Rightarrow> report e (exit_code_for e)))
      in if yes then go
         else prompt_yes_no x (unpair_prompt peer)
                (\<lambda>confirmed. if \<not> confirmed then println ''Cancelled.'' (Exit SUCCESS) else go))"

end
