(* ===== verification/Lcp_Admin.thy ===== *)
theory Lcp_Admin
  imports Lcp_Commands "HOL-Library.Product_Lexorder"
begin

text \<open>
  The commands of \<open>lcp\<close> for the configuration, the daemon and the diagnosis
  (\<open>commands/config.rs\<close>, \<open>daemon.rs\<close>, \<open>doctor.rs\<close>) and the dispatch of \<open>main.rs\<close>.
\<close>

section \<open>Configuration\<close>

definition scalar_to_string :: "cli_env \<Rightarrow> json \<Rightarrow> string" where
  "scalar_to_string x v = (case v of JStr s \<Rightarrow> s | other \<Rightarrow> ce_json_text x other)"

fun flatten :: "cli_env \<Rightarrow> string \<Rightarrow> json \<Rightarrow> (string \<times> string) list" where
  "flatten x path (JObj kvs) =
     concat (map (\<lambda>(k, v). flatten x (if path = [] then k else path @ ''.'' @ k) v) kvs)"
| "flatten x path (JArr vs) = []"
| "flatten x path v = [(path, scalar_to_string x v)]"

definition config_get :: "cli_env \<Rightarrow> string \<Rightarrow> bool \<Rightarrow> cli" where
  "config_get x key json =
     with_daemon (call GET_CONFIG (JObj [(''key'', JStr key)]) (\<lambda>resp.
       case unwrap_response resp of
         Inr v \<Rightarrow>
           if json then Print_json v (Exit SUCCESS)
           else println (scalar_to_string x v) (Exit SUCCESS)
       | Inl e \<Rightarrow> report e INVALID_ARGS))"

definition config_set :: "string \<Rightarrow> string \<Rightarrow> cli" where
  "config_set key v =
     with_daemon (call SET_CONFIG (JObj [(''key'', JStr key), (''value'', JStr v)]) (\<lambda>resp.
       case unwrap_response resp of
         Inr _ \<Rightarrow> println (key @ '' = '' @ v) (Exit SUCCESS)
       | Inl e \<Rightarrow> report e INVALID_ARGS))"

definition config_list :: "cli_env \<Rightarrow> bool \<Rightarrow> cli" where
  "config_list x json =
     with_daemon (call GET_CONFIG (JObj []) (\<lambda>resp.
       case unwrap_response resp of
         Inr v \<Rightarrow>
           if json then Print_json v (Exit SUCCESS)
           else foldr (\<lambda>(k, t) c. if k = ''schema_version'' then c else println (k @ '' = '' @ t) c)
                  (sort (flatten x [] v)) (Exit SUCCESS)
       | Inl e \<Rightarrow> report e GENERAL_ERROR))"

definition reset_prompt :: string where
  "reset_prompt = ''Reset local config settings to defaults? Paired peers are kept. [y/N] ''"

definition config_reset :: "cli_env \<Rightarrow> bool \<Rightarrow> bool \<Rightarrow> cli" where
  "config_reset x yes json =
     (let go = with_daemon (call RESET_CONFIG (JObj []) (\<lambda>resp.
                 case unwrap_response resp of
                   Inr v \<Rightarrow>
                     if json then Print_json v (Exit SUCCESS)
                     else println ''Config reset to defaults. Paired peers were kept.'' (Exit SUCCESS)
                 | Inl e \<Rightarrow> report e GENERAL_ERROR))
      in if yes then go
         else prompt_yes_no x reset_prompt
                (\<lambda>confirmed. if \<not> confirmed then println ''Cancelled.'' (Exit SUCCESS) else go))"

section \<open>The daemon\<close>

definition daemon_status :: cli where
  "daemon_status =
     Try_connect (\<lambda>r.
       case r of
         Inl _ \<Rightarrow> println ''lanclipd is not running.'' (Exit SUCCESS)
       | Inr _ \<Rightarrow>
           call HELLO (JObj []) (\<lambda>resp.
             case unwrap_response resp of
               Inr _ \<Rightarrow> println ''lanclipd is running.'' (Exit SUCCESS)
             | Inl e \<Rightarrow>
                 println (''lanclipd is reachable but not responding correctly: '' @ err_message e)
                   (Exit DAEMON_UNAVAILABLE)))"

definition daemon_start :: cli where
  "daemon_start =
     Try_connect (\<lambda>r.
       case r of
         Inr _ \<Rightarrow> println ''lanclipd is already running.'' (Exit SUCCESS)
       | Inl _ \<Rightarrow>
           Spawn_daemon (\<lambda>s.
             case s of
               Inl e \<Rightarrow> Fail e
             | Inr _ \<Rightarrow>
                 retry_connect 30 150
                   (println ''lanclipd started.'' (Exit SUCCESS))
                   (eprintln ''Error: started lanclipd but it never became reachable over IPC.''
                     (Exit DAEMON_UNAVAILABLE))))"

text \<open>\<open>stop\<close>, with what its caller does with the exit code.\<close>

definition stop_then :: "(int \<Rightarrow> cli) \<Rightarrow> cli" where
  "stop_then k =
     Try_connect (\<lambda>r.
       case r of
         Inl _ \<Rightarrow> println ''lanclipd was not running.'' (k SUCCESS)
       | Inr _ \<Rightarrow>
           Call_daemon SHUTDOWN (JObj []) (\<lambda>_.
             wait_until_unreachable 5000 (\<lambda>stopped.
               if stopped then println ''lanclipd stopped.'' (k SUCCESS)
               else eprintln ''Error: lanclipd did not stop within 5 seconds.'' (k GENERAL_ERROR))))"

definition daemon_stop :: cli where
  "daemon_stop = stop_then Exit"

definition daemon_restart :: cli where
  "daemon_restart =
     Try_connect (\<lambda>r.
       case r of
         Inr _ \<Rightarrow> stop_then (\<lambda>code. if code \<noteq> SUCCESS then Exit code else daemon_start)
       | Inl _ \<Rightarrow> daemon_start)"

definition daemon_install :: cli where
  "daemon_install =
     Set_autostart True (\<lambda>r.
       case r of
         Inl e \<Rightarrow> Fail e
       | Inr _ \<Rightarrow> println ''Autostart installed for the current user.'' (Exit SUCCESS))"

definition daemon_uninstall :: cli where
  "daemon_uninstall =
     Set_autostart False (\<lambda>r.
       case r of
         Inl e \<Rightarrow> Fail e
       | Inr _ \<Rightarrow>
           println ''Autostart removed. Pairing and identity are unaffected.'' (Exit SUCCESS))"

section \<open>Doctor\<close>

definition check :: "string \<Rightarrow> string \<Rightarrow> string \<Rightarrow> string \<Rightarrow> string option \<Rightarrow> json" where
  "check i severity summary detail action =
     JObj [(''id'', JStr i), (''severity'', JStr severity), (''summary'', JStr summary),
           (''detail'', JStr detail), (''suggested_action'', jopt JStr action)]"

definition print_check :: "json \<Rightarrow> cli \<Rightarrow> cli" where
  "print_check c rest =
     (let severity = str_field c ''severity'' ''?'';
          marker = (if severity = ''ok'' then ''[ok]   ''
                    else if severity = ''warning'' then ''[warn] ''
                    else if severity = ''error'' then ''[error]''
                    else ''[?]    '');
          suggestion = (case get_str c ''suggested_action'' of
              None \<Rightarrow> rest
            | Some action \<Rightarrow> println (''          Suggested: '' @ action) rest);
          detail = (case get_str c ''detail'' of
              None \<Rightarrow> suggestion
            | Some d \<Rightarrow> if d = [] then suggestion else println (''          '' @ d) suggestion)
      in println (marker @ '' '' @ str_field c ''summary'' []) detail)"

definition doctor_report :: "bool \<Rightarrow> bool \<Rightarrow> json list \<Rightarrow> cli" where
  "doctor_report json daemon_unreachable checks =
     (let code = (if daemon_unreachable then DAEMON_UNAVAILABLE
                  else if \<exists>c\<in>set checks. get_str c ''severity'' = Some ''error'' then GENERAL_ERROR
                  else SUCCESS)
      in if json then Print_json (JArr checks) (Exit code)
         else foldr print_check checks (Exit code))"

definition daemon_checks :: "ipc_response option \<Rightarrow> json list" where
  "daemon_checks resp =
     check ''daemon_running'' ''ok'' ''lanclipd is running'' [] None #
     (case resp of
        None \<Rightarrow>
          [check ''run_diagnostics'' ''error'' ''Lost connection to daemon while running diagnostics''
             ''daemon closed the connection'' None]
      | Some rs \<Rightarrow>
          (case unwrap_response rs of
             Inl e \<Rightarrow>
               [check ''run_diagnostics'' ''error'' ''Could not run daemon diagnostics'' (err_message e) None]
           | Inr v \<Rightarrow> unwrap_or (as_array v) []))"

definition doctor_run :: "bool \<Rightarrow> cli" where
  "doctor_run json =
     Try_connect (\<lambda>r.
       case r of
         Inl e \<Rightarrow>
           doctor_report json True
             [check ''daemon_running'' ''error'' ''lanclipd is not reachable'' e
                (Some ''Run `lcp daemon start`.'')]
       | Inr _ \<Rightarrow>
           Call_daemon RUN_DIAGNOSTICS (JObj []) (\<lambda>resp.
             doctor_report json False (daemon_checks resp)))"

section \<open>\<open>main\<close>\<close>

datatype command =
    Status
  | Peers "(string \<times> string) option"
  | Send string bool "string option"
  | Copy "string option" bool bool
  | Fetch "string option"
  | Pick "string option" bool
  | Invite u64 bool
  | Pair string
  | Unpair string bool
  | Config_get string
  | Config_set string string
  | Config_list
  | Config_reset bool
  | Daemon_status
  | Daemon_start
  | Daemon_stop
  | Daemon_restart
  | Daemon_install
  | Daemon_uninstall
  | Doctor

fun cli_main :: "cli_env \<Rightarrow> bool \<Rightarrow> command \<Rightarrow> cli" where
  "cli_main x json Status = status_run json"
| "cli_main x json (Peers (Some (peer, new_alias))) = peers_rename peer new_alias"
| "cli_main x json (Peers None) = peers_run json"
| "cli_main x json (Send peer use_stdin text_arg) = send_run peer use_stdin text_arg"
| "cli_main x json (Copy peer list_them incoming) =
     (if list_them then pick_run peer incoming else copy_run peer)"
| "cli_main x json (Fetch peer) = fetch_run peer json"
| "cli_main x json (Pick peer incoming) = pick_run peer incoming"
| "cli_main x json (Invite ttl no_copy) = invite_run x ttl no_copy"
| "cli_main x json (Pair ticket) = pair_run x ticket"
| "cli_main x json (Unpair peer yes) = unpair_run x peer yes"
| "cli_main x json (Config_get key) = config_get x key json"
| "cli_main x json (Config_set key v) = config_set key v"
| "cli_main x json Config_list = config_list x json"
| "cli_main x json (Config_reset yes) = config_reset x yes json"
| "cli_main x json Daemon_status = daemon_status"
| "cli_main x json Daemon_start = daemon_start"
| "cli_main x json Daemon_stop = daemon_stop"
| "cli_main x json Daemon_restart = daemon_restart"
| "cli_main x json Daemon_install = daemon_install"
| "cli_main x json Daemon_uninstall = daemon_uninstall"
| "cli_main x json Doctor = doctor_run json"

end
