(* ===== verification/Lcp_Usage.thy ===== *)
theory Lcp_Usage
  imports Lcp_Admin
begin

text \<open>
  What the commands of \<open>lcp\<close> promise: what they may send to the daemon and when, what they copy and
  print, how often they try to reach the daemon, and the exit codes they end with.  Every claim
  is proved by \<open>csafe\<close> on the tree of the command.
\<close>

section \<open>Connecting\<close>

text \<open>The actions of \<open>connect_or_autostart\<close>.\<close>

definition connecting :: "act \<Rightarrow> bool" where
  "connecting a \<longleftrightarrow> (\<exists>r. a = Connected r) \<or> (\<exists>r. a = Spawned_daemon r) \<or> (\<exists>n. a = Slept n)"

lemma connecting_simps [simp]: "connecting (Connected r)" "connecting (Spawned_daemon s)"
  "connecting (Slept n)" "\<not> connecting (Called m p a)" "\<not> connecting (Got_event e)"
  "\<not> connecting (Did_out t)" "\<not> connecting (Did_err t)" "\<not> connecting (Printed v)"
  "\<not> connecting (Got_line l)" "\<not> connecting (Clipboard_written t w)"
  "\<not> connecting (Clipboard_read cr)" "\<not> connecting (Wrote_stdout t w)"
  "\<not> connecting (Got_stdin k b)" "\<not> connecting (Is_terminal q)" "\<not> connecting (Time k)"
  "\<not> connecting (Picked o')" "\<not> connecting (Autostart_set q w)"
  by (auto simp: connecting_def)

lemma csafe_retry:
  assumes "J n h"
    and step: "\<And>n h r. J (Suc n) h \<Longrightarrow> P h (Slept d) \<and> P (Slept d # h) (Connected r)"
    and reached: "\<And>n h s. J (Suc n) h \<Longrightarrow> csafe P Q c I (Connected (Inr s) # Slept d # h)"
    and missed: "\<And>n h e. J (Suc n) h \<Longrightarrow> J n (Connected (Inl e) # Slept d # h)"
    and gave_up: "\<And>h. J 0 h \<Longrightarrow> csafe P Q g I h"
  shows "csafe P Q (retry_connect n d c g) I h"
  using assms(1)
proof (induction n arbitrary: h)
  case 0
  then show ?case using gave_up by simp
next
  case (Suc n)
  then show ?case
    using step reached missed by (auto split: sum.splits)
qed

lemma csafe_connect:
  assumes acts: "\<And>h' a. list_all connecting h' \<Longrightarrow> connecting a \<Longrightarrow> P (h' @ h) a"
    and reached: "\<And>h'. list_all connecting h' \<Longrightarrow> csafe P Q c I (h' @ h)"
    and failed: "\<And>h' e. list_all connecting h' \<Longrightarrow> csafe P Q (f e) I (h' @ h)"
  shows "csafe P Q (connect_or_autostart f c) I h"
proof -
  have retry: "csafe P Q (retry_connect n d c (f e)) I (h' @ h)"
    if "list_all connecting h'" for n d e h'
  proof (rule csafe_retry [where J = "\<lambda>_ k. \<exists>h'. k = h' @ h \<and> list_all connecting h'"])
    show "\<exists>h''. h' @ h = h'' @ h \<and> list_all connecting h''" using that by blast
  next
    fix n k r
    assume "\<exists>h'. k = h' @ h \<and> list_all connecting h'"
    then obtain h' where k: "k = h' @ h" "list_all connecting h'" by blast
    then show "P k (Slept d) \<and> P (Slept d # k) (Connected r)"
      using acts [of h'] acts [of "Slept d # h'"] by simp
  next
    fix n k s
    assume "\<exists>h'. k = h' @ h \<and> list_all connecting h'"
    then obtain h' where k: "k = h' @ h" "list_all connecting h'" by blast
    then show "csafe P Q c I (Connected (Inr s) # Slept d # k)"
      using reached [of "Connected (Inr s) # Slept d # h'"] by simp
  next
    fix n k e'
    assume "\<exists>h'. k = h' @ h \<and> list_all connecting h'"
    then obtain h' where k: "k = h' @ h" "list_all connecting h'" by blast
    then show "\<exists>h'. Connected (Inl e') # Slept d # k = h' @ h \<and> list_all connecting h'"
      by (intro exI [of _ "Connected (Inl e') # Slept d # h'"]) simp
  next
    fix k
    assume "\<exists>h'. k = h' @ h \<and> list_all connecting h'"
    then show "csafe P Q (f e) I k" using failed by blast
  qed
  show ?thesis
    using acts [of "[]"] acts [of "[Connected (Inl _)]"]
      reached [of "[Connected (Inr _)]"] failed [of "[Spawned_daemon (Inl _), Connected (Inl _)]"]
      retry [of "[Spawned_daemon (Inr _), Connected (Inl _)]"]
    by (auto simp: connect_or_autostart_def split: sum.splits)
qed

lemma csafe_with_daemon:
  assumes "\<And>h' a. list_all connecting h' \<Longrightarrow> connecting a \<Longrightarrow> P (h' @ h) a"
    and "\<And>h'. list_all connecting h' \<Longrightarrow> csafe P Q c I (h' @ h)"
    and "\<And>h' e. list_all connecting h' \<Longrightarrow> csafe P Q (Fail e) I (h' @ h)"
  shows "csafe P Q (with_daemon c) I h"
  unfolding with_daemon_def by (rule csafe_connect) (use assms in auto)

lemma csafe_call [simp]:
  "csafe P Q (call m p k) I h \<longleftrightarrow>
     P h (Called m p None) \<and> csafe P Q (Fail ''daemon closed the connection'') I (Called m p None # h) \<and>
     (\<forall>rs. P h (Called m p (Some rs)) \<and> csafe P Q (k rs) I (Called m p (Some rs) # h))"
  by (auto simp: call_def split_option_all simp del: csafe.simps(2))

lemma csafe_println [simp]:
  "csafe P Q (println s c) I h \<longleftrightarrow> P h (Did_out (s @ nl)) \<and> csafe P Q c I (Did_out (s @ nl) # h)"
  by (simp add: println_def)

lemma csafe_eprintln [simp]:
  "csafe P Q (eprintln s c) I h \<longleftrightarrow> P h (Did_err (s @ nl)) \<and> csafe P Q c I (Did_err (s @ nl) # h)"
  by (simp add: eprintln_def)

lemma csafe_report [simp]:
  "csafe P Q (report e n) I h \<longleftrightarrow>
     (let a = Did_err (''Error: '' @ err_message e @ nl) in P h a \<and> Q (a # h) n)"
  by (simp add: report_def Let_def)

lemma csafe_prompt [simp]:
  "csafe P Q (prompt_yes_no x q k) I h \<longleftrightarrow>
     P h (Did_out q) \<and>
     (\<forall>l. P (Did_out q # h) (Got_line l) \<and> csafe P Q (k (says_yes x l)) I (Got_line l # Did_out q # h))"
  by (simp add: prompt_yes_no_def)

section \<open>Printing\<close>

definition printed :: "act \<Rightarrow> bool" where
  "printed a \<longleftrightarrow> (\<exists>s. a = Did_out s)"

lemma printed_simps [simp]: "printed (Did_out s)" "\<not> printed (Called m p a)" "\<not> printed (Printed v)"
  "\<not> printed (Connected r)"
  by (auto simp: printed_def)

text \<open>A program transformer that only prints lines before it goes on.\<close>

definition prints :: "(cli \<Rightarrow> cli) \<Rightarrow> bool" where
  "prints g \<longleftrightarrow>
     (\<forall>P Q c I h. (\<forall>h' s. list_all printed h' \<longrightarrow> P (h' @ h) (Did_out s)) \<longrightarrow>
        (\<forall>h'. list_all printed h' \<longrightarrow> csafe P Q c I (h' @ h)) \<longrightarrow> csafe P Q (g c) I h)"

lemma printsD:
  assumes "prints g" and "\<And>h' s. list_all printed h' \<Longrightarrow> P (h' @ h) (Did_out s)"
    and "\<And>h'. list_all printed h' \<Longrightarrow> csafe P Q c I (h' @ h)"
  shows "csafe P Q (g c) I h"
  using assms by (simp add: prints_def)

lemma prints_id: "prints (\<lambda>c. c)"
  unfolding prints_def using append_Nil by (metis list.pred_inject(1))

lemma prints_println:
  assumes "prints g"
  shows "prints (\<lambda>c. println s (g c))"
  unfolding prints_def
proof (intro allI impI)
  fix P Q c I h
  assume out: "\<forall>h' s. list_all printed h' \<longrightarrow> P (h' @ h) (Did_out s)"
    and rest: "\<forall>h'. list_all printed h' \<longrightarrow> csafe P Q c I (h' @ h)"
  have "csafe P Q (g c) I (Did_out (s @ nl) # h)"
  proof (rule printsD [OF assms])
    fix h' t
    assume "list_all printed h'"
    then show "P (h' @ Did_out (s @ nl) # h) (Did_out t)"
      using out [rule_format, of "h' @ [Did_out (s @ nl)]"] by simp
  next
    fix h'
    assume "list_all printed h'"
    then show "csafe P Q c I (h' @ Did_out (s @ nl) # h)"
      using rest [rule_format, of "h' @ [Did_out (s @ nl)]"] by simp
  qed
  with out [rule_format, of "[]"] show "csafe P Q (println s (g c)) I h" by simp
qed

lemma prints_comp:
  assumes "prints f" and "prints g"
  shows "prints (\<lambda>c. f (g c))"
  unfolding prints_def
proof (intro allI impI)
  fix P Q c I h
  assume out: "\<forall>h' s. list_all printed h' \<longrightarrow> P (h' @ h) (Did_out s)"
    and rest: "\<forall>h'. list_all printed h' \<longrightarrow> csafe P Q c I (h' @ h)"
  show "csafe P Q (f (g c)) I h"
  proof (rule printsD [OF assms(1)])
    fix h' :: "act list"
    assume h': "list_all printed h'"
    show "csafe P Q (g c) I (h' @ h)"
    proof (rule printsD [OF assms(2)])
      fix h2 s
      assume "list_all printed h2"
      then show "P (h2 @ h' @ h) (Did_out s)" using out [rule_format, of "h2 @ h'"] h' by simp
    next
      fix h2
      assume "list_all printed h2"
      then show "csafe P Q c I (h2 @ h' @ h)" using rest [rule_format, of "h2 @ h'"] h' by simp
    qed
  qed (use out in simp)
qed

lemma prints_foldr: "(\<And>x. prints (f x)) \<Longrightarrow> prints (foldr f xs)"
  by (induction xs) (simp_all add: prints_id prints_comp comp_def id_def)

lemma prints_option: "prints g \<Longrightarrow> (\<And>a. prints (f a)) \<Longrightarrow>
    prints (\<lambda>c. case v of None \<Rightarrow> g c | Some a \<Rightarrow> f a c)"
  by (cases v) simp_all

lemma prints_if: "prints g \<Longrightarrow> prints f \<Longrightarrow> prints (\<lambda>c. if b then g c else f c)"
  by (cases b) simp_all

lemma prints_skip: "prints (\<lambda>c. if b then c else println s c)"
  by (intro prints_if prints_println prints_id)

lemmas prints_intros = prints_id prints_println prints_foldr prints_option prints_if

lemma prints_check: "prints (print_check v)"
  unfolding print_check_def Let_def by (intro prints_intros)

section \<open>Conditions that connecting and printing cannot break\<close>

abbreviation any_exit :: "act list \<Rightarrow> int \<Rightarrow> bool" where
  "any_exit \<equiv> \<lambda>_ _. True"

locale print_rule =
  fixes P :: "act list \<Rightarrow> act \<Rightarrow> bool"
  assumes out: "P h (Did_out s)"
    and err: "P h (Did_err s)"
    and json: "P h (Printed v)"
    and event: "P h (Got_event e)"
    and time: "P h (Time n)"
begin

lemmas acts = out err json event time

lemma foldr_prints:
  assumes "\<And>v. prints (f v)" and "\<And>h'. csafe P any_exit c I (h' @ h)"
  shows "csafe P any_exit (foldr f vs c) I h"
  by (rule printsD [OF prints_foldr [OF assms(1)]]) (use assms acts in auto)

lemma loop:
  assumes "\<And>h'. csafe P any_exit c (\<lambda>_. True) h'"
  shows "csafe P any_exit (Loop c) I h"
  using assms by (auto intro!: exI [of _ "\<lambda>_. True"])

lemma result: "csafe P any_exit (pairing_result r v) I h"
  by (simp add: pairing_result_def Let_def acts)

lemma report_checks: "csafe P any_exit (doctor_report b u cs) I h"
  by (cases b) (simp_all only: doctor_report_def Let_def if_True if_False csafe.simps acts,
    simp_all add: foldr_prints prints_check)

end

locale act_rule = print_rule +
  assumes connecting: "connecting a \<Longrightarrow> P h a"
begin

lemma connect:
  assumes "\<And>h'. list_all connecting h' \<Longrightarrow> csafe P any_exit c I (h' @ h)"
  shows "csafe P any_exit (with_daemon c) I h"
  by (rule csafe_with_daemon) (use assms acts connecting in \<open>auto simp: Let_def\<close>)

lemma autostart:
  assumes "\<And>h'. list_all connecting h' \<Longrightarrow> csafe P any_exit c I (h' @ h)"
    and "\<And>h' e. list_all connecting h' \<Longrightarrow> csafe P any_exit (f e) I (h' @ h)"
  shows "csafe P any_exit (connect_or_autostart f c) I h"
  by (rule csafe_connect) (use assms connecting in auto)

lemma retry:
  assumes "\<And>h'. csafe P any_exit c I h'" and "\<And>h'. csafe P any_exit g I h'"
  shows "csafe P any_exit (retry_connect n d c g) I h"
  by (rule csafe_retry [where J = "\<lambda>_ _. True"]) (use assms connecting in auto)

lemma start: "csafe P any_exit daemon_start I h"
  by (auto simp: daemon_start_def Let_def acts connecting intro!: retry split: sum.splits)

lemma wait:
  assumes "\<And>h' b. csafe P any_exit (k b) (\<lambda>_. True) h'"
  shows "csafe P any_exit (wait_until_unreachable n k) I h"
  using assms
  by (auto simp: wait_until_unreachable_def acts connecting simp del: csafe.simps(20)
      intro!: loop split: sum.splits)

lemma stop:
  assumes "\<And>h' r. P h' (Called SHUTDOWN (JObj []) r)" and "\<And>h' n J. csafe P any_exit (k n) J h'"
  shows "csafe P any_exit (stop_then k) I h"
  using assms by (auto simp: stop_then_def acts connecting intro!: wait split: sum.splits)

end

end
