(* ===== verification/Lcp_Consent.thy ===== *)
theory Lcp_Consent
  imports Lcp_Usage
begin

text \<open>
  Which requests the commands of \<open>lcp\<close> send, and after which words of the user: confirming and
  rejecting a pairing, unpairing, resetting the configuration, sending a text.
\<close>

text \<open>A condition on the calls of the daemon alone.\<close>

definition on_calls :: "(act list \<Rightarrow> string \<Rightarrow> json \<Rightarrow> bool) \<Rightarrow> act list \<Rightarrow> act \<Rightarrow> bool" where
  "on_calls G h a = (case a of Called m p r \<Rightarrow> G h m p | _ \<Rightarrow> True)"

lemma on_calls_simps [simp]: "on_calls G h (Called m p r) = G h m p"
  "on_calls G h (Did_out s)" "on_calls G h (Did_err s)" "on_calls G h (Printed v)"
  "on_calls G h (Wrote_stdout s w)" "on_calls G h (Got_line l)" "on_calls G h (Got_stdin n b)"
  "on_calls G h (Is_terminal q)" "on_calls G h (Clipboard_read cr)"
  "on_calls G h (Clipboard_written s w)" "on_calls G h (Connected w)"
  "on_calls G h (Spawned_daemon w)" "on_calls G h (Slept n)" "on_calls G h (Time n)"
  "on_calls G h (Got_event e)" "on_calls G h (Picked o')" "on_calls G h (Autostart_set q w)"
  by (simp_all add: on_calls_def)

interpretation calls: act_rule "on_calls G" for G
  by unfold_locales (auto simp: connecting_def)

text \<open>The requests a command may send, with their parameters.\<close>

definition asks :: "command \<Rightarrow> string \<Rightarrow> json \<Rightarrow> bool" where
  "asks cmd m p =
     (case cmd of
        Status \<Rightarrow> m = GET_STATUS \<and> p = JObj []
      | Peers (Some (peer, a)) \<Rightarrow>
          m = RENAME_PEER \<and> p = JObj [(''peer'', JStr peer), (''alias'', JStr a)]
      | Peers None \<Rightarrow> m = LIST_PEERS \<and> p = JObj []
      | Send peer _ _ \<Rightarrow> m = SEND_TEXT \<and> (\<exists>t. p = JObj [(''peer'', JStr peer), (''text'', JStr t)])
      | Copy peer list_them inc \<Rightarrow>
          if list_them
          then m = LIST_MESSAGES \<and> p = JObj [(''peer'', jopt JStr peer), (''incoming_only'', JBool inc)]
          else m = GET_LATEST_INCOMING \<and> p = peer_params peer
      | Fetch peer \<Rightarrow> m = GET_LATEST_INCOMING \<and> p = peer_params peer
      | Pick peer inc \<Rightarrow>
          m = LIST_MESSAGES \<and> p = JObj [(''peer'', jopt JStr peer), (''incoming_only'', JBool inc)]
      | Invite ttl _ \<Rightarrow>
          m = SUBSCRIBE \<and> p = JObj [] \<or> m = CREATE_INVITE \<and> p = JObj [(''ttl_secs'', JInt (uint ttl))] \<or>
          m \<in> {CONFIRM_PAIRING, REJECT_PAIRING} \<and> (\<exists>i. p = pairing_params i)
      | Pair ticket \<Rightarrow>
          m = SUBSCRIBE \<and> p = JObj [] \<or> m = JOIN_INVITE \<and> p = JObj [(''ticket'', JStr ticket)] \<or>
          m \<in> {CONFIRM_PAIRING, REJECT_PAIRING} \<and> (\<exists>i. p = pairing_params i)
      | Unpair peer _ \<Rightarrow> m = UNPAIR_PEER \<and> p = JObj [(''peer'', JStr peer)]
      | Config_get key \<Rightarrow> m = GET_CONFIG \<and> p = JObj [(''key'', JStr key)]
      | Config_set key v \<Rightarrow> m = SET_CONFIG \<and> p = JObj [(''key'', JStr key), (''value'', JStr v)]
      | Config_list \<Rightarrow> m = GET_CONFIG \<and> p = JObj []
      | Config_reset _ \<Rightarrow> m = RESET_CONFIG \<and> p = JObj []
      | Daemon_status \<Rightarrow> m = HELLO \<and> p = JObj []
      | Daemon_stop \<Rightarrow> m = SHUTDOWN \<and> p = JObj []
      | Daemon_restart \<Rightarrow> m = SHUTDOWN \<and> p = JObj []
      | Doctor \<Rightarrow> m = RUN_DIAGNOSTICS \<and> p = JObj []
      | _ \<Rightarrow> False)"

text \<open>The pairing a user was shown last: its id and verification string.\<close>

definition pairing_of :: "json \<Rightarrow> string \<times> string" where
  "pairing_of v = (str_field v ''pairing_id'' [], str_field v ''verification_string'' [])"

definition offered :: "act list \<Rightarrow> (string \<times> string) option" where
  "offered h =
     (case h of
        [] \<Rightarrow> None
      | a # h1 \<Rightarrow>
          (case a of
             Called m p (Some rs) \<Rightarrow>
               (case unwrap_response rs of
                  Inr v \<Rightarrow> if m = JOIN_INVITE then Some (pairing_of v) else None
                | Inl _ \<Rightarrow> None)
           | Did_out s \<Rightarrow>
               (case h1 of
                  b # _ \<Rightarrow>
                    (case b of
                       Got_event (Some ev) \<Rightarrow>
                         if ev_event ev = PAIRING_REQUESTED then Some (pairing_of (ev_payload ev)) else None
                     | _ \<Rightarrow> None)
                | [] \<Rightarrow> None)
           | _ \<Rightarrow> None))"

text \<open>
  The user was shown the verification string of pairing \<open>i\<close>, was asked whether it matches, and
  answered.
\<close>

definition answered_match :: "cli_env \<Rightarrow> string \<Rightarrow> bool \<Rightarrow> act list \<Rightarrow> bool" where
  "answered_match x i yes h \<longleftrightarrow>
     (\<exists>line v h'. h = Got_line line # Did_out match_prompt # Did_out (verification_line v @ nl) # h' \<and>
        offered h' = Some (i, v) \<and> says_yes x line = yes)"

definition agreed :: "cli_env \<Rightarrow> string \<Rightarrow> act list \<Rightarrow> bool" where
  "agreed x q h \<longleftrightarrow>
     (\<exists>cs line h'. h = cs @ Got_line line # Did_out q # h' \<and> list_all connecting cs \<and> says_yes x line)"

definition consent :: "cli_env \<Rightarrow> command \<Rightarrow> act list \<Rightarrow> string \<Rightarrow> json \<Rightarrow> bool" where
  "consent x cmd h m p \<longleftrightarrow>
     (m = CONFIRM_PAIRING \<longrightarrow> (\<exists>i. p = pairing_params i \<and> answered_match x i True h)) \<and>
     (m = REJECT_PAIRING \<longrightarrow> (\<exists>i. p = pairing_params i \<and> answered_match x i False h)) \<and>
     (m = UNPAIR_PEER \<longrightarrow> (\<exists>peer. cmd = Unpair peer True \<or> cmd = Unpair peer False \<and> agreed x (unpair_prompt peer) h)) \<and>
     (m = RESET_CONFIG \<longrightarrow> cmd = Config_reset True \<or> cmd = Config_reset False \<and> agreed x reset_prompt h)"

lemma pairing_consent:
  assumes "offered h = Some (i, v)"
  shows "consent x cmd (Got_line l # Did_out match_prompt # Did_out (verification_line v @ nl) # h)
    (if says_yes x l then CONFIRM_PAIRING else REJECT_PAIRING) (pairing_params i)"
  using assms by (simp add: consent_def answered_match_def)

lemma csafe_decide [simp]:
  "csafe P Q (decide x v k) I h \<longleftrightarrow>
     (let h1 = Did_out (verification_line v @ nl) # h; h2 = Did_out match_prompt # h1
      in P h (Did_out (verification_line v @ nl)) \<and> P h1 (Did_out match_prompt) \<and>
         (\<forall>l. P h2 (Got_line l) \<and>
            csafe P Q (k (says_yes x l) (if says_yes x l then CONFIRM_PAIRING else REJECT_PAIRING)) I
              (Got_line l # h2)))"
  by (simp add: decide_def Let_def)

definition allowed :: "cli_env \<Rightarrow> command \<Rightarrow> act list \<Rightarrow> string \<Rightarrow> json \<Rightarrow> bool" where
  "allowed x cmd h m p \<longleftrightarrow> asks cmd m p \<and> consent x cmd h m p"

abbreviation allows :: "cli_env \<Rightarrow> command \<Rightarrow> cli \<Rightarrow> bool" where
  "allows x cmd c \<equiv> csafe (on_calls (allowed x cmd)) any_exit c (\<lambda>_. False) []"

lemma allowed_plain:
  "m \<notin> {CONFIRM_PAIRING, REJECT_PAIRING, UNPAIR_PEER, RESET_CONFIG} \<Longrightarrow> asks cmd m p \<Longrightarrow> allowed x cmd h m p"
  by (auto simp: allowed_def consent_def)

lemma calls_queries:
  "allows x Status (status_run json)"
  "allows x (Peers None) (peers_run json)"
  "allows x (Peers (Some (peer, a))) (peers_rename peer a)"
  "allows x (Copy who False inc) (copy_run who)"
  "allows x (Fetch who) (fetch_run who json)"
  "allows x (Config_get key) (config_get x key json)"
  "allows x (Config_set key v) (config_set key v)"
  unfolding status_run_def peers_run_def peers_rename_def copy_run_def fetch_run_def config_get_def
    config_set_def
  by (auto simp: Let_def allowed_plain asks_def split: sum.splits
      intro!: calls.connect calls.autostart calls.foldr_prints prints_println prints_id)

lemma calls_list: "allows x Config_list (config_list x json)"
  unfolding config_list_def
  by (auto simp: Let_def allowed_plain asks_def split: sum.splits
      intro!: calls.connect calls.foldr_prints prints_skip)

lemma calls_pick: "asks cmd LIST_MESSAGES
    (JObj [(''peer'', jopt JStr peer), (''incoming_only'', JBool inc)]) \<Longrightarrow> allows x cmd (pick_run peer inc)"
  unfolding pick_run_def
  by (auto simp: Let_def allowed_plain pick_outcome_run_def split: sum.splits pick_outcome.splits
      intro!: calls.connect)

lemma calls_send_this:
  "csafe (on_calls (allowed x (Send peer s t0))) any_exit (send_this peer t) I h"
  by (auto simp: send_this_def Let_def allowed_plain asks_def split: sum.splits intro!: calls.connect)

lemma calls_send: "allows x (Send peer s t) (send_run peer s t)"
  by (auto simp: send_run_def read_stdin_capped_def Let_def calls_send_this split: sum.splits option.splits)

lemma calls_daemon:
  "allows x Daemon_status daemon_status"
  "allows x Daemon_start daemon_start"
  "allows x Daemon_stop daemon_stop"
  "allows x Daemon_restart daemon_restart"
  "allows x Daemon_install daemon_install"
  "allows x Daemon_uninstall daemon_uninstall"
  unfolding daemon_status_def daemon_stop_def daemon_restart_def daemon_install_def daemon_uninstall_def
  by (auto simp: Let_def allowed_plain asks_def calls.start split: sum.splits intro!: calls.stop)

lemma calls_doctor: "allows x Doctor (doctor_run json)"
  unfolding doctor_run_def
  by (auto simp: Let_def allowed_plain asks_def calls.report_checks split: sum.splits)

lemma agreedI:
  "list_all connecting cs \<Longrightarrow> says_yes x l \<Longrightarrow> agreed x q (cs @ Got_line l # Did_out q # h)"
  unfolding agreed_def by blast

lemma allowed_unpair:
  "allowed x (Unpair peer True) h UNPAIR_PEER (JObj [(''peer'', JStr peer)])"
  "agreed x (unpair_prompt peer) h \<Longrightarrow>
   allowed x (Unpair peer False) h UNPAIR_PEER (JObj [(''peer'', JStr peer)])"
  by (simp_all add: allowed_def asks_def consent_def)

lemma allowed_reset:
  "allowed x (Config_reset True) h RESET_CONFIG (JObj [])"
  "agreed x reset_prompt h \<Longrightarrow> allowed x (Config_reset False) h RESET_CONFIG (JObj [])"
  by (simp_all add: allowed_def asks_def consent_def)

lemma calls_removals:
  "allows x (Unpair peer yes) (unpair_run x peer yes)"
  "allows x (Config_reset yes) (config_reset x yes json)"
  unfolding unpair_run_def config_reset_def
  by (cases yes; auto simp: Let_def allowed_unpair allowed_reset agreedI split: sum.splits
      intro!: calls.connect)+

lemma allowed_decision:
  assumes "offered h = Some (i, v)" and "cmd = Invite ttl nc \<or> cmd = Pair ticket"
  shows "allowed x cmd
    (Got_line l # Did_out match_prompt # Did_out (verification_line v @ nl) # h)
    (if says_yes x l then CONFIRM_PAIRING else REJECT_PAIRING) (pairing_params i)"
  using assms by (auto simp: allowed_def asks_def pairing_consent)

lemma calls_invite: "allows x (Invite ttl nc) (invite_run x ttl nc)"
proof -
  have event: "offered (Did_out s # Got_event (Some ev) # h) =
      Some (str_field (ev_payload ev) ''pairing_id'' [], str_field (ev_payload ev) ''verification_string'' [])"
    if "ev_event ev = PAIRING_REQUESTED" for s ev h
    using that by (simp add: offered_def pairing_of_def)
  have wait: "csafe (on_calls (allowed x (Invite ttl b))) any_exit (invite_wait x) I h" for b I h
    unfolding invite_wait_def
    by (rule calls.loop)
      (simp add: Let_def lost_connection_def calls.result allowed_decision event split: option.splits)
  show ?thesis
    unfolding invite_run_def
    by (auto simp: Let_def allowed_plain asks_def wait split: sum.splits intro!: calls.connect)
qed

lemma calls_pair: "allows x (Pair ticket) (pair_run x ticket)"
proof -
  have wait: "csafe (on_calls (allowed x (Pair ticket))) any_exit (pair_wait i) I h" for i I h
    unfolding pair_wait_def
    by (rule calls.loop)
      (auto simp: Let_def lost_connection_def calls.result split: option.splits)
  have joined: "offered (Called JOIN_INVITE p (Some rs) # h) =
      Some (str_field v ''pairing_id'' [], str_field v ''verification_string'' [])"
    if "unwrap_response rs = Inr v" for p rs v h
    using that by (simp add: offered_def pairing_of_def)
  have ask: "allowed x (Pair ticket) h m p"
    if "m = SUBSCRIBE \<and> p = JObj [] \<or> m = JOIN_INVITE \<and> p = JObj [(''ticket'', JStr ticket)]" for h m p
    using that by (auto intro!: allowed_plain simp: asks_def)
  show ?thesis
    unfolding pair_run_def
    by (rule calls.connect) (simp add: Let_def ask joined allowed_decision wait split: sum.splits)
qed

lemma command_allowed: "allows x cmd (cli_main x json cmd)"
  by (cases "(x, json, cmd)" rule: cli_main.cases)
    (simp_all add: calls_queries calls_list calls_pick calls_send calls_daemon calls_doctor
       calls_removals calls_invite calls_pair asks_def)

section \<open>Consent\<close>

lemma call_allowed:
  assumes "does (cli_main x json cmd) (xs @ Called m p r # ys)"
  shows "asks cmd m p" and "consent x cmd ys m p"
  using does_safe [OF assms command_allowed refl] by (simp_all add: allowed_def)

lemma asks_confirm:
  "asks cmd CONFIRM_PAIRING p \<Longrightarrow> (\<exists>ttl nc. cmd = Invite ttl nc) \<or> (\<exists>ticket. cmd = Pair ticket)"
  by (cases cmd) (auto simp: asks_def split: option.splits if_splits)

text \<open>
  C5.  No command of \<open>lcp\<close> confirms a pairing unless the user has just answered yes to the question
  whether the verification string matches, asked right after the verification string of that very
  pairing was printed: the string and the id that is confirmed come from one pairing request, or
  from the daemon's answer to \<open>join_invite\<close>.  Only \<open>invite\<close> and \<open>pair\<close> confirm at all.
\<close>

theorem confirm_needs_yes:
  assumes "does (cli_main x json cmd) (xs @ Called CONFIRM_PAIRING p r # ys)"
  shows "\<exists>i v line zs. p = pairing_params i \<and> offered zs = Some (i, v) \<and> says_yes x line \<and>
    ys = Got_line line # Did_out match_prompt # Did_out (verification_line v @ nl) # zs \<and>
    ((\<exists>ttl nc. cmd = Invite ttl nc) \<or> (\<exists>ticket. cmd = Pair ticket))"
proof -
  from call_allowed(2) [OF assms] obtain i where i: "p = pairing_params i" "answered_match x i True ys"
    by (auto simp: consent_def)
  with asks_confirm [OF call_allowed(1) [OF assms]] show ?thesis
    unfolding answered_match_def by blast
qed

lemma asks_unpair:
  "asks cmd UNPAIR_PEER p \<Longrightarrow> \<exists>peer yes. cmd = Unpair peer yes \<and> p = JObj [(''peer'', JStr peer)]"
  by (cases cmd) (auto simp: asks_def split: option.splits if_splits)

lemma consent_removal:
  "consent x cmd h UNPAIR_PEER p \<Longrightarrow>
     \<exists>peer. cmd = Unpair peer True \<or> cmd = Unpair peer False \<and> agreed x (unpair_prompt peer) h"
  "consent x cmd h RESET_CONFIG p \<Longrightarrow>
     cmd = Config_reset True \<or> cmd = Config_reset False \<and> agreed x reset_prompt h"
  by (simp_all add: consent_def)

text \<open>
  No command removes a peer or the settings behind the user's back: an \<open>unpair_peer\<close> names the
  peer of the command line and a \<open>reset_config\<close> is only sent by \<open>config reset\<close>, each with
  \<open>--yes\<close> or after the user answered yes to the command's question, with nothing but the
  connection to the daemon in between.
\<close>

theorem removal_needs_yes:
  assumes "does (cli_main x json cmd) (xs @ Called m p r # ys)" and "m \<in> {UNPAIR_PEER, RESET_CONFIG}"
  shows "(\<exists>peer. m = UNPAIR_PEER \<and> p = JObj [(''peer'', JStr peer)] \<and>
      (cmd = Unpair peer True \<or> cmd = Unpair peer False \<and> agreed x (unpair_prompt peer) ys)) \<or>
    m = RESET_CONFIG \<and> (cmd = Config_reset True \<or> cmd = Config_reset False \<and> agreed x reset_prompt ys)"
proof (cases "m = UNPAIR_PEER")
  case True
  note calls = call_allowed [OF assms(1) [unfolded True]]
  from asks_unpair [OF calls(1)] consent_removal(1) [OF calls(2)] show ?thesis
    unfolding True by (elim exE conjE) (intro disjI1, auto)
next
  case False
  with assms(2) have m: "m = RESET_CONFIG" by simp
  show ?thesis
    unfolding m using consent_removal(2) [OF call_allowed(2) [OF assms(1) [unfolded m]]] by simp
qed

definition plain_env :: cli_env where
  "plain_env = \<lparr>ce_json_text = (\<lambda>_. ''?''), ce_lowercase = (\<lambda>s. s)\<rparr>"

definition ok_answer :: "json \<Rightarrow> ipc_response" where
  "ok_answer v = \<lparr>rs_ipc_version = IPC_PROTOCOL_VERSION, rs_id = 0, rs_ok = True, rs_result = Some v, rs_error = None\<rparr>"

lemma unwrap_ok [simp]: "unwrap_response (ok_answer v) = Inr v"
  by (simp add: unwrap_response_def ok_answer_def)

definition join_result :: json where
  "join_result = JObj [(''pairing_id'', JStr ''7''), (''verification_string'', JStr ''oak'')]"

lemma join_result_fields [simp]:
  "str_field join_result ''pairing_id'' d = ''7''"
  "str_field join_result ''verification_string'' d = ''oak''"
  by (simp_all add: join_result_def str_field_def)

lemma yes_y [simp]: "says_yes plain_env (Some ''y'')"
  by (simp add: says_yes_def plain_env_def trim_def trim_chars_def is_whitespace_def whitespace_chars_def)

definition pair_script :: "act list" where
  "pair_script =
     [Connected (Inr ()), Called SUBSCRIBE (JObj []) (Some (ok_answer JNull)),
      Called JOIN_INVITE (JObj [(''ticket'', JStr ''t'')]) (Some (ok_answer join_result)),
      Did_out (verification_line ''oak'' @ nl), Did_out match_prompt, Got_line (Some ''y''),
      Called CONFIRM_PAIRING (pairing_params ''7'') (Some (ok_answer JNull))]"

lemma pair_script_does:
  "does (cli_main plain_env False (Pair ''t''))
     ([] @ Called CONFIRM_PAIRING (pairing_params ''7'') (Some (ok_answer JNull)) # rev (butlast pair_script))"
proof -
  have "script 30 pair_script (cli_main plain_env False (Pair ''t'')) (cli_main plain_env False (Pair ''t'')) \<noteq> None"
    by (simp add: pair_script_def pair_run_def cli_defs decide_def pair_wait_def Let_def script_numeral)
  from script_does [OF this] show ?thesis by (simp add: pair_script_def)
qed

lemma confirm_needs_yes_witness:
  "\<exists>i v line zs. pairing_params ''7'' = pairing_params i \<and> offered zs = Some (i, v) \<and>
    says_yes plain_env line \<and>
    rev (butlast pair_script) =
      Got_line line # Did_out match_prompt # Did_out (verification_line v @ nl) # zs \<and>
    ((\<exists>ttl nc. Pair ''t'' = Invite ttl nc) \<or> (\<exists>ticket. Pair ''t'' = Pair ticket))"
  by (rule confirm_needs_yes [OF pair_script_does])

definition unpair_script :: "act list" where
  "unpair_script =
     [Did_out (unpair_prompt ''ada''), Got_line (Some ''y''), Connected (Inl ''refused''),
      Spawned_daemon (Inr ()), Slept 150, Connected (Inr ()),
      Called UNPAIR_PEER (JObj [(''peer'', JStr ''ada'')]) None]"

lemma unpair_script_does:
  "does (cli_main plain_env False (Unpair ''ada'' False))
     ([] @ Called UNPAIR_PEER (JObj [(''peer'', JStr ''ada'')]) None # rev (butlast unpair_script))"
proof -
  have "script 30 unpair_script (cli_main plain_env False (Unpair ''ada'' False))
      (cli_main plain_env False (Unpair ''ada'' False)) \<noteq> None"
    by (simp add: unpair_script_def unpair_run_def cli_defs Let_def script_numeral retry_numeral
        AUTOSTART_RETRY_ATTEMPTS_def AUTOSTART_RETRY_DELAY_def)
  from script_does [OF this] show ?thesis by (simp add: unpair_script_def)
qed

lemma removal_needs_yes_witness:
  "(\<exists>peer. UNPAIR_PEER = UNPAIR_PEER \<and> JObj [(''peer'', JStr ''ada'')] = JObj [(''peer'', JStr peer)] \<and>
      (Unpair ''ada'' False = Unpair peer True \<or>
       Unpair ''ada'' False = Unpair peer False \<and>
         agreed plain_env (unpair_prompt peer) (rev (butlast unpair_script)))) \<or>
    UNPAIR_PEER = RESET_CONFIG \<and>
      (Unpair ''ada'' False = Config_reset True \<or> Unpair ''ada'' False = Config_reset False \<and>
         agreed plain_env reset_prompt (rev (butlast unpair_script)))"
  by (rule removal_needs_yes [OF unpair_script_does]) simp

end
