(* ===== verification/Lcp_Lifecycle.thy ===== *)
theory Lcp_Lifecycle
  imports Lcp_Consent
begin

text \<open>
  How the commands of \<open>lcp\<close> reach, start and stop the daemon: the number of attempts, when a daemon
  is started, what \<open>daemon start\<close>, \<open>stop\<close> and \<open>restart\<close> report, and the exit codes of \<open>doctor\<close>.
\<close>

section \<open>Attempts\<close>

definition acts_of :: "(act \<Rightarrow> bool) \<Rightarrow> act list \<Rightarrow> nat" where
  "acts_of f h = length (filter f h)"

definition is_try :: "act \<Rightarrow> bool" where
  "is_try a \<longleftrightarrow> (\<exists>r. a = Connected r)"

definition is_spawn :: "act \<Rightarrow> bool" where
  "is_spawn a \<longleftrightarrow> (\<exists>r. a = Spawned_daemon r)"

definition is_nap :: "act \<Rightarrow> bool" where
  "is_nap a \<longleftrightarrow> (\<exists>n. a = Slept n)"

lemma count_simps [simp]: "acts_of f [] = 0" "acts_of f (a # h) = (if f a then 1 else 0) + acts_of f h"
  by (simp_all add: acts_of_def)

lemma is_simps [simp]: "is_try (Connected r)" "\<not> is_spawn (Connected r)" "\<not> is_nap (Connected r)"
  "\<not> is_try (Spawned_daemon w)" "is_spawn (Spawned_daemon w)" "\<not> is_nap (Spawned_daemon w)"
  "\<not> is_try (Slept n)" "\<not> is_spawn (Slept n)" "is_nap (Slept n)"
  "\<not> is_try (Called m p q)" "\<not> is_spawn (Called m p q)" "\<not> is_nap (Called m p q)"
  "\<not> is_try (Did_out s)" "\<not> is_spawn (Did_out s)" "\<not> is_nap (Did_out s)"
  "\<not> is_try (Did_err s)" "\<not> is_spawn (Did_err s)" "\<not> is_nap (Did_err s)"
  "\<not> is_try (Got_line l)" "\<not> is_spawn (Got_line l)" "\<not> is_nap (Got_line l)"
  "\<not> is_try (Got_stdin k b)" "\<not> is_spawn (Got_stdin k b)" "\<not> is_nap (Got_stdin k b)"
  "\<not> is_try (Clipboard_read c)" "\<not> is_spawn (Clipboard_read c)" "\<not> is_nap (Clipboard_read c)"
  "\<not> is_try (Is_terminal t)" "\<not> is_spawn (Is_terminal t)" "\<not> is_nap (Is_terminal t)"
  "\<not> is_try (Time k)" "\<not> is_spawn (Time k)" "\<not> is_nap (Time k)"
  "\<not> is_try (Printed v)" "\<not> is_spawn (Printed v)" "\<not> is_nap (Printed v)"
  "\<not> is_try (Wrote_stdout s x)" "\<not> is_spawn (Wrote_stdout s x)" "\<not> is_nap (Wrote_stdout s x)"
  "\<not> is_try (Clipboard_written s x)" "\<not> is_spawn (Clipboard_written s x)"
  "\<not> is_nap (Clipboard_written s x)"
  "\<not> is_try (Got_event e)" "\<not> is_spawn (Got_event e)" "\<not> is_nap (Got_event e)"
  "\<not> is_try (Picked z)" "\<not> is_spawn (Picked z)" "\<not> is_nap (Picked z)"
  "\<not> is_try (Autostart_set t x)" "\<not> is_spawn (Autostart_set t x)" "\<not> is_nap (Autostart_set t x)"
  by (simp_all add: is_try_def is_spawn_def is_nap_def)

text \<open>The commands that may start a daemon, and those that wait for one to end.\<close>

definition may_start :: "command \<Rightarrow> bool" where
  "may_start cmd \<longleftrightarrow>
     cmd \<notin> {Daemon_status, Daemon_stop, Daemon_install, Daemon_uninstall, Doctor}"

definition polls :: "command \<Rightarrow> bool" where
  "polls cmd \<longleftrightarrow> cmd \<in> {Daemon_stop, Daemon_restart}"

definition reaching :: "command \<Rightarrow> act list \<Rightarrow> act \<Rightarrow> bool" where
  "reaching cmd h a =
     (case a of
        Connected r \<Rightarrow> polls cmd \<or> acts_of is_try h \<le> 30
      | Spawned_daemon r \<Rightarrow>
          may_start cmd \<and> acts_of is_spawn h = 0 \<and> (\<exists>e h'. h = Connected (Inl e) # h')
      | Slept n \<Rightarrow> polls cmd \<or> n = 150 \<and> acts_of is_nap h < 30
      | _ \<Rightarrow> True)"

lemma reaching_simps [simp]: "reaching c h (Did_out s)" "reaching c h (Did_err s)"
  "reaching c h (Printed v)" "reaching c h (Got_event e)" "reaching c h (Time k)"
  "reaching c h (Called m p r)" "reaching c h (Wrote_stdout s w)" "reaching c h (Got_line l)"
  "reaching c h (Got_stdin n b)" "reaching c h (Is_terminal q)" "reaching c h (Clipboard_read cr)"
  "reaching c h (Clipboard_written s w)" "reaching c h (Picked o')" "reaching c h (Autostart_set q w)"
  "reaching c h (Connected w) = (polls c \<or> acts_of is_try h \<le> 30)"
  "reaching c h (Spawned_daemon w) =
     (may_start c \<and> acts_of is_spawn h = 0 \<and> (\<exists>e h'. h = Connected (Inl e) # h'))"
  "reaching c h (Slept k) = (polls c \<or> k = 150 \<and> acts_of is_nap h < 30)"
  by (simp_all add: reaching_def)

interpretation reach: print_rule "reaching cmd" for cmd
  by unfold_locales simp_all

text \<open>Nothing has been tried yet.\<close>

definition fresh :: "act list \<Rightarrow> bool" where
  "fresh h \<longleftrightarrow> acts_of is_try h = 0 \<and> acts_of is_spawn h = 0 \<and> acts_of is_nap h = 0"

lemma fresh_simps [simp]: "fresh []" "fresh (a # h) \<longleftrightarrow> \<not> is_try a \<and> \<not> is_spawn a \<and> \<not> is_nap a \<and> fresh h"
  by (auto simp: fresh_def)

lemma reach_retry:
  assumes "acts_of is_try h + n \<le> 31" and "acts_of is_nap h + n \<le> 30"
    and "\<And>h'. csafe (reaching cmd) any_exit c I h'" and "\<And>h'. csafe (reaching cmd) any_exit g I h'"
  shows "csafe (reaching cmd) any_exit (retry_connect n 150 c g) I h"
  by (rule csafe_retry [where J = "\<lambda>n h. acts_of is_try h + n \<le> 31 \<and> acts_of is_nap h + n \<le> 30"])
    (use assms in auto)

lemma reach_autostart:
  assumes "fresh h" and "may_start cmd"
    and "\<And>h'. csafe (reaching cmd) any_exit c I h'"
    and "\<And>h' e. csafe (reaching cmd) any_exit (f e) I h'"
  shows "csafe (reaching cmd) any_exit (connect_or_autostart f c) I h"
  using assms
  by (auto simp: connect_or_autostart_def AUTOSTART_RETRY_ATTEMPTS_def AUTOSTART_RETRY_DELAY_def
      fresh_def intro!: reach_retry split: sum.splits)

lemma reach_connect:
  assumes "fresh h" and "may_start cmd" and "\<And>h'. csafe (reaching cmd) any_exit c I h'"
  shows "csafe (reaching cmd) any_exit (with_daemon c) I h"
  unfolding with_daemon_def by (rule reach_autostart) (use assms in \<open>auto simp: Let_def\<close>)

abbreviation reaches :: "command \<Rightarrow> cli \<Rightarrow> act list \<Rightarrow> bool" where
  "reaches cmd c h \<equiv> csafe (reaching cmd) any_exit c (\<lambda>_. False) h"

lemma reach_queries:
  assumes "may_start cmd"
  shows "reaches cmd (status_run json) []" "reaches cmd (peers_run json) []"
    "reaches cmd (peers_rename peer a) []" "reaches cmd (fetch_run who json) []"
    "reaches cmd (copy_run who) []" "reaches cmd (config_get x key json) []"
    "reaches cmd (config_set key v) []"
  unfolding status_run_def peers_run_def peers_rename_def fetch_run_def config_get_def config_set_def
    copy_run_def
  using assms
  by (auto simp: Let_def split: sum.splits
      intro!: reach_connect reach_autostart reach.foldr_prints prints_println prints_id)

lemma reach_list: "reaches Config_list (config_list x json) []"
  unfolding config_list_def
  by (auto simp: Let_def may_start_def split: sum.splits
      intro!: reach_connect reach.foldr_prints prints_skip)

lemma reach_removals:
  assumes "may_start cmd"
  shows "reaches cmd (unpair_run x peer yes) []" "reaches cmd (config_reset x yes json) []"
  unfolding unpair_run_def config_reset_def using assms
  by (auto simp: Let_def split: sum.splits intro!: reach_connect)

lemma reach_send: "reaches (Send peer s t) (send_run peer s t) []"
proof -
  have "reaches (Send peer s t) (send_this peer t') h" if "fresh h" for t' h
    using that by (auto simp: send_this_def Let_def may_start_def split: sum.splits intro!: reach_connect)
  then show ?thesis
    by (cases s; cases t) (auto simp: send_run_def read_stdin_capped_def split: sum.splits)
qed

lemma reach_pick: "may_start cmd \<Longrightarrow> reaches cmd (pick_run who inc) []"
  unfolding pick_run_def
  by (auto simp: Let_def pick_outcome_run_def split: sum.splits pick_outcome.splits intro!: reach_connect)

lemma reach_invite: "reaches (Invite ttl nc) (invite_run x ttl nc) []"
proof -
  have "reaches c (invite_wait x) h" for c h
    unfolding invite_wait_def
    by (rule reach.loop) (auto simp: Let_def lost_connection_def reach.result split: option.splits)
  then show ?thesis
    unfolding invite_run_def
    by (auto simp: Let_def may_start_def split: sum.splits intro!: reach_connect)
qed

lemma reach_pair: "reaches (Pair ticket) (pair_run x ticket) []"
proof -
  have "reaches c (pair_wait i) h" for c i h
    unfolding pair_wait_def
    by (rule reach.loop) (auto simp: lost_connection_def reach.result split: option.splits)
  then show ?thesis
    unfolding pair_run_def
    by (auto simp: Let_def may_start_def split: sum.splits intro!: reach_connect)
qed

lemma reach_start:
  assumes "may_start cmd" and "acts_of is_spawn h = 0" and "polls cmd \<or> fresh h"
  shows "csafe (reaching cmd) any_exit daemon_start I h"
proof (cases "polls cmd")
  case True
  have "csafe (reaching cmd) any_exit (retry_connect n 150 c g) I h"
    if "\<And>h'. csafe (reaching cmd) any_exit c I h'" "\<And>h'. csafe (reaching cmd) any_exit g I h'" for n c g h
    by (rule csafe_retry [where J = "\<lambda>_ _. True"]) (use that True in auto)
  with assms(1,2) True show ?thesis by (auto simp: daemon_start_def split: sum.splits)
next
  case False
  with assms show ?thesis
    by (auto simp: daemon_start_def fresh_def Let_def intro!: reach_retry split: sum.splits)
qed

lemma reach_stop:
  assumes "polls cmd" and "acts_of is_spawn h = 0"
    and "\<And>h' n J. acts_of is_spawn h' = 0 \<Longrightarrow> csafe (reaching cmd) any_exit (k n) J h'"
  shows "csafe (reaching cmd) any_exit (stop_then k) I h"
  using assms
  by (auto simp: stop_then_def wait_until_unreachable_def split: sum.splits
      intro!: exI [of _ "\<lambda>h. acts_of is_spawn h = 0"])

lemma reach_daemon:
  "reaches Daemon_status daemon_status []" "reaches Daemon_start daemon_start []"
  "reaches Daemon_stop daemon_stop []" "reaches Daemon_restart daemon_restart []"
  "reaches Daemon_install daemon_install []" "reaches Daemon_uninstall daemon_uninstall []"
  "reaches Doctor (doctor_run json) []"
  unfolding daemon_status_def daemon_stop_def daemon_restart_def daemon_install_def
    daemon_uninstall_def doctor_run_def
  by (auto simp: Let_def may_start_def polls_def reach.report_checks
      intro!: reach_start reach_stop split: sum.splits)

lemma command_reaches: "reaches cmd (cli_main x json cmd) []"
  by (cases "(x, json, cmd)" rule: cli_main.cases)
    (simp_all add: reach_queries reach_list reach_removals reach_send reach_pick reach_invite
       reach_pair reach_daemon may_start_def)

lemma reaching_counts:
  assumes "\<And>xs a ys. h = xs @ a # ys \<Longrightarrow> reaching cmd ys a"
  shows "acts_of is_spawn h \<le> 1 \<and> (polls cmd \<or> acts_of is_try h \<le> 31 \<and> acts_of is_nap h \<le> 30)"
  using assms
proof (induction h)
  case Nil
  then show ?case by simp
next
  case (Cons a h)
  from Cons.IH Cons.prems
  have "acts_of is_spawn h \<le> 1 \<and> (polls cmd \<or> acts_of is_try h \<le> 31 \<and> acts_of is_nap h \<le> 30)"
    by (metis append_Cons)
  with Cons.prems [of "[]" a h] show ?case by (cases a) auto
qed

text \<open>
  C23.  Every command starts at most one daemon, and only right after an attempt to connect has failed;
  \<open>doctor\<close>, \<open>daemon status\<close>, \<open>daemon stop\<close>, \<open>daemon install\<close> and \<open>daemon uninstall\<close> never
  start one.  Apart from \<open>daemon stop\<close> and \<open>daemon restart\<close>, which wait for the old daemon to
  end, a command tries to connect at most 31 times and sleeps at most 30 times, 150 ms each.
\<close>

theorem autostart_bounded:
  assumes "does (cli_main x json cmd) h"
  shows "acts_of is_spawn h \<le> 1 \<and> (polls cmd \<or> acts_of is_try h \<le> 31 \<and> acts_of is_nap h \<le> 30) \<and>
    (\<forall>xs r ys. h = xs @ Spawned_daemon r # ys \<longrightarrow> may_start cmd \<and> (\<exists>e zs. ys = Connected (Inl e) # zs)) \<and>
    (\<forall>xs n ys. h = xs @ Slept n # ys \<longrightarrow> polls cmd \<or> n = 150)"
proof -
  have safe: "reaching cmd ys a" if "h = xs @ a # ys" for xs a ys
    using does_safe [OF assms command_reaches that] .
  have "may_start cmd \<and> (\<exists>e zs. ys = Connected (Inl e) # zs)" if "h = xs @ Spawned_daemon r # ys" for xs r ys
    using safe [OF that] by simp
  moreover have "polls cmd \<or> n = 150" if "h = xs @ Slept n # ys" for xs n ys
    using safe [OF that] by auto
  moreover have "acts_of is_spawn h \<le> 1 \<and> (polls cmd \<or> acts_of is_try h \<le> 31 \<and> acts_of is_nap h \<le> 30)"
    using safe by (rule reaching_counts)
  ultimately show ?thesis by blast
qed

lemma autostart_bounded_witness:
  "acts_of is_spawn (rev unpair_script) \<le> 1 \<and> acts_of is_try (rev unpair_script) \<le> 31 \<and>
    acts_of is_nap (rev unpair_script) \<le> 30"
proof -
  have "does (cli_main plain_env False (Unpair ''ada'' False)) (rev unpair_script)"
    using unpair_script_does by (simp add: unpair_script_def)
  from autostart_bounded [OF this] show ?thesis by (simp add: polls_def)
qed

end
