(* ===== verification/Lcp_Peers.thy ===== *)
theory Lcp_Peers
  imports Lcp_Prelude
begin

text \<open>
  Trusted peers and their aliases (\<open>lcp-core/src/peers.rs\<close>).  The lemmas give what an accepted
  alias looks like, when an identifier resolves and to which peer, that the alias chosen for a
  new peer is free, and that adding, renaming and removing peers keep aliases unique without
  regard to case.  The random UUID of the last-resort alias is an argument.
\<close>

record trusted_peer =
  endpoint_id :: string
  peer_alias :: string
  remote_display_name :: string
  device_name :: string
  paired_at :: string

datatype alias_error = InvalidLength | ContainsControlChars | Duplicate string

text \<open>The \<open>Display\<close> of the error; \<open>dbg\<close> is Rust's \<open>Debug\<close> rendering of a string.\<close>

fun alias_error_text :: "(string \<Rightarrow> string) \<Rightarrow> alias_error \<Rightarrow> string" where
  "alias_error_text dbg InvalidLength = ''alias must be 1-32 characters after trimming''"
| "alias_error_text dbg ContainsControlChars = ''alias must not contain control characters''"
| "alias_error_text dbg (Duplicate a) = ''alias '' @ dbg a @ '' is already in use''"

definition validate_alias :: "string \<Rightarrow> alias_error + string" where
  "validate_alias candidate =
     (let trimmed = trim candidate; len = char_count trimmed
      in if \<not> (1 \<le> len \<and> len \<le> 32) then Inl InvalidLength
         else if list_ex is_control (chars trimmed) then Inl ContainsControlChars
         else Inr trimmed)"

definition find_alias_case_insensitive :: "trusted_peer list \<Rightarrow> string \<Rightarrow> trusted_peer option" where
  "find_alias_case_insensitive peers a = find (\<lambda>p. eq_ignore_ascii_case (peer_alias p) a) peers"

datatype resolved = Found trusted_peer | NotFound | Ambiguous "trusted_peer list"

definition resolve_identifier :: "trusted_peer list \<Rightarrow> string \<Rightarrow> resolved" where
  "resolve_identifier peers identifier =
     (case find_alias_case_insensitive peers identifier of
        Some peer \<Rightarrow> Found peer
      | None \<Rightarrow>
          (case filter (\<lambda>p. prefix identifier (endpoint_id p)) peers of
             [] \<Rightarrow> NotFound
           | [peer] \<Rightarrow> Found peer
           | ms \<Rightarrow> Ambiguous ms))"

definition alias_base :: "string \<Rightarrow> string" where
  "alias_base display_name =
     (let trimmed = trim display_name
      in if trimmed = [] then ''Peer'' else take_chars 28 trimmed)"

definition numbered_alias :: "string \<Rightarrow> nat \<Rightarrow> string" where
  "numbered_alias base n = base @ ''-'' @ show_nat n"

definition alias_numbers :: "nat list" where
  "alias_numbers = [2..<1000]"

definition unique_alias :: "trusted_peer list \<Rightarrow> string \<Rightarrow> string \<Rightarrow> string" where
  "unique_alias peers display_name fresh_uuid =
     (let base = alias_base display_name
      in if find_alias_case_insensitive peers base = None then base
         else case find (\<lambda>n. find_alias_case_insensitive peers (numbered_alias base n) = None) alias_numbers of
                Some n \<Rightarrow> numbered_alias base n
              | None \<Rightarrow> base @ ''-'' @ fresh_uuid)"

definition add_trusted_peer ::
  "trusted_peer list \<Rightarrow> string \<Rightarrow> string \<Rightarrow> string \<Rightarrow> string \<Rightarrow> string \<Rightarrow> trusted_peer list \<times> string" where
  "add_trusted_peer peers eid display_name device now fresh_uuid =
     (let a = unique_alias peers display_name fresh_uuid
      in (peers @ [\<lparr>endpoint_id = eid, peer_alias = a, remote_display_name = display_name,
                    device_name = device, paired_at = now\<rparr>], a))"

definition rename_trusted_peer_alias ::
  "trusted_peer list \<Rightarrow> string \<Rightarrow> string \<Rightarrow> trusted_peer list \<times> (alias_error + string)" where
  "rename_trusted_peer_alias peers eid new_alias =
     (case validate_alias new_alias of
        Inl e \<Rightarrow> (peers, Inl e)
      | Inr a \<Rightarrow>
          if list_ex (\<lambda>p. endpoint_id p \<noteq> eid \<and> eq_ignore_ascii_case (peer_alias p) a) peers
          then (peers, Inl (Duplicate a))
          else (update_first (\<lambda>p. endpoint_id p = eid) (\<lambda>p. p\<lparr>peer_alias := a\<rparr>) peers, Inr a))"

definition remove_trusted_peer :: "trusted_peer list \<Rightarrow> string \<Rightarrow> trusted_peer list \<times> bool" where
  "remove_trusted_peer peers eid =
     (let kept = filter (\<lambda>p. endpoint_id p \<noteq> eid) peers in (kept, length kept \<noteq> length peers))"

section \<open>Invariants\<close>

definition lowered :: "string \<Rightarrow> string" where
  "lowered a = map ascii_lower a"

definition aliases_unique :: "trusted_peer list \<Rightarrow> bool" where
  "aliases_unique peers \<longleftrightarrow> distinct (map (\<lambda>p. lowered (peer_alias p)) peers)"

definition endpoints_unique :: "trusted_peer list \<Rightarrow> bool" where
  "endpoints_unique peers \<longleftrightarrow> distinct (map endpoint_id peers)"

definition is_trusted :: "trusted_peer list \<Rightarrow> string \<Rightarrow> bool" where
  "is_trusted peers eid \<longleftrightarrow> list_ex (\<lambda>p. endpoint_id p = eid) peers"

lemma eq_ignore_lowered: "eq_ignore_ascii_case a b \<longleftrightarrow> lowered b = lowered a"
  by (auto simp: eq_ignore_ascii_case_def lowered_def)

lemma set_alias_numbers: "set alias_numbers = {2..<1000}"
  by (simp only: alias_numbers_def set_upt)

lemma find_alias_None:
  "find_alias_case_insensitive peers a = None \<longleftrightarrow> lowered a \<notin> (\<lambda>p. lowered (peer_alias p)) ` set peers"
  by (simp add: find_alias_case_insensitive_def find_None_iff_all eq_ignore_lowered image_iff)

lemma lowered_numbered: "lowered (numbered_alias base m) = lowered (numbered_alias base n) \<longleftrightarrow> m = n"
proof
  assume "lowered (numbered_alias base m) = lowered (numbered_alias base n)"
  then have "eq_ignore_ascii_case (show_nat m) (show_nat n)"
    by (simp add: numbered_alias_def lowered_def eq_ignore_ascii_case_def)
  then show "m = n"
    using eq_ignore_ascii_case_digits [of "show_nat m" m "show_nat n" n] by simp
qed simp

lemma lowered_base_numbered: "lowered base \<noteq> lowered (numbered_alias base n)"
  by (auto simp: lowered_def numbered_alias_def dest: map_eq_imp_length_eq)

text \<open>With fewer than 999 peers one of the 999 candidates is free, by counting.\<close>

lemma unique_alias_free:
  assumes "length peers < 999"
  shows "find_alias_case_insensitive peers (unique_alias peers display_name fresh_uuid) = None"
proof -
  let ?base = "alias_base display_name"
  let ?used = "(\<lambda>p. lowered (peer_alias p)) ` set peers"
  let ?free = "\<lambda>n. find_alias_case_insensitive peers (numbered_alias ?base n) = None"
  show ?thesis
  proof (cases "find_alias_case_insensitive peers ?base = None")
    case True
    then show ?thesis by (simp add: unique_alias_def Let_def)
  next
    case base_used: False
    show ?thesis
    proof (cases "find ?free alias_numbers")
      case (Some n)
      then have "?free n" by (auto dest: find_SomeD)
      with Some base_used show ?thesis by (simp add: unique_alias_def Let_def)
    next
      case None
      let ?cand = "\<lambda>n. lowered (numbered_alias ?base n)"
      have "?cand ` {2..<1000} \<subseteq> ?used"
        using None by (auto simp: find_None_iff_all find_alias_None set_alias_numbers)
      moreover have "lowered ?base \<in> ?used"
        using base_used by (simp add: find_alias_None)
      ultimately have "insert (lowered ?base) (?cand ` {2..<1000}) \<subseteq> ?used" by blast
      then have "card (insert (lowered ?base) (?cand ` {2..<1000})) \<le> card ?used"
        by (rule card_mono [rotated]) simp
      moreover have "card (insert (lowered ?base) (?cand ` {2..<1000})) = 999"
        by (subst card_insert_disjoint)
          (auto simp: lowered_base_numbered card_image inj_on_def lowered_numbered)
      moreover have "card ?used \<le> length peers"
        by (meson card_image_le card_length finite_set le_trans)
      ultimately show ?thesis using assms by simp
    qed
  qed
qed

lemma aliases_unique_append:
  "aliases_unique (peers @ [p]) \<longleftrightarrow>
     aliases_unique peers \<and> find_alias_case_insensitive peers (peer_alias p) = None"
  by (auto simp: aliases_unique_def find_alias_None)

lemma aliases_unique_filter [keeps]: "aliases_unique peers \<Longrightarrow> aliases_unique (filter P peers)"
  by (simp add: aliases_unique_def distinct_map_filter)

lemma endpoints_unique_filter [keeps]: "endpoints_unique peers \<Longrightarrow> endpoints_unique (filter P peers)"
  by (simp add: endpoints_unique_def distinct_map_filter)

lemma aliases_unique_update:
  assumes "aliases_unique peers" and "endpoints_unique peers"
    and "\<forall>p \<in> set peers. endpoint_id p \<noteq> eid \<longrightarrow> lowered (peer_alias p) \<noteq> lowered a"
  shows "aliases_unique (update_first (\<lambda>p. endpoint_id p = eid) (\<lambda>p. p\<lparr>peer_alias := a\<rparr>) peers)"
  using assms
proof (induction peers)
  case Nil
  then show ?case by (simp add: aliases_unique_def)
next
  case (Cons q peers)
  show ?case
  proof (cases "endpoint_id q = eid")
    case True
    have "endpoint_id p \<noteq> eid" if "p \<in> set peers" for p
      using Cons.prems(2) that True by (force simp: endpoints_unique_def image_iff)
    with True Cons.prems(1,3) show ?thesis by (auto simp: aliases_unique_def)
  next
    case False
    let ?peers' = "update_first (\<lambda>p. endpoint_id p = eid) (\<lambda>p. p\<lparr>peer_alias := a\<rparr>) peers"
    have "aliases_unique ?peers'"
      using Cons by (simp add: aliases_unique_def endpoints_unique_def)
    moreover have "lowered (peer_alias q) \<notin> (\<lambda>p. lowered (peer_alias p)) ` set ?peers'"
    proof
      assume "lowered (peer_alias q) \<in> (\<lambda>p. lowered (peer_alias p)) ` set ?peers'"
      then obtain p where p: "p \<in> set ?peers'" "lowered (peer_alias p) = lowered (peer_alias q)" by auto
      from set_update_first [OF p(1)] p(2) show False
        using False Cons.prems(1,3) by (force simp: aliases_unique_def image_iff)
    qed
    ultimately show ?thesis using False by (simp add: aliases_unique_def)
  qed
qed

section \<open>Properties\<close>

text \<open>
  \<open>validate_alias\<close> accepts a candidate exactly when its trimmed form has 1 to 32 characters
  and no control character, and then returns that trimmed form, which it accepts again unchanged.
\<close>

theorem validate_alias_spec:
  "(validate_alias candidate = Inr a \<longleftrightarrow>
      a = trim candidate \<and> 1 \<le> char_count a \<and> char_count a \<le> 32 \<and>
      list_all (\<lambda>c. \<not> is_control c) (chars a)) \<and>
   (validate_alias candidate = Inr a \<longrightarrow> validate_alias a = Inr a)"
proof -
  have iff: "validate_alias candidate = Inr a \<longleftrightarrow>
      a = trim candidate \<and> 1 \<le> char_count a \<and> char_count a \<le> 32 \<and>
      list_all (\<lambda>c. \<not> is_control c) (chars a)" for candidate a
    by (auto simp: validate_alias_def Let_def list_all_iff list_ex_iff simp del: chars_trim)
  have "validate_alias a = Inr a" if "validate_alias candidate = Inr a"
    using that unfolding iff by (metis trim_idem)
  with iff [of candidate a] show ?thesis by blast
qed

theorem validate_alias_spec_witness:
  "validate_alias ''  First  '' = Inr ''First'' \<and> validate_alias ''First'' = Inr ''First''"
proof -
  have "validate_alias ''  First  '' = Inr ''First''"
    by code_simp
  with validate_alias_spec [of "''  First  ''" "''First''"] show ?thesis by blast
qed

lemma resolve_cases:
  "resolve_identifier peers i =
     (case find_alias_case_insensitive peers i of
        Some p \<Rightarrow> Found p
      | None \<Rightarrow>
          let ms = filter (\<lambda>p. prefix i (endpoint_id p)) peers
          in if ms = [] then NotFound else if length ms = 1 then Found (hd ms) else Ambiguous ms)"
  by (auto simp: resolve_identifier_def Let_def split: option.splits list.splits)

lemma resolve_identifier_Found: "resolve_identifier peers i = Found p \<Longrightarrow> p \<in> set peers"
proof -
  assume r: "resolve_identifier peers i = Found p"
  show "p \<in> set peers"
  proof (cases "find_alias_case_insensitive peers i")
    case (Some q)
    with r show ?thesis
      by (auto simp: resolve_identifier_def find_alias_case_insensitive_def dest: find_SomeD)
  next
    case None
    let ?ms = "filter (\<lambda>p. prefix i (endpoint_id p)) peers"
    from None r have "?ms = [p]"
      by (auto simp: resolve_identifier_def split: list.splits)
    then have "p \<in> set ?ms" by simp
    then show ?thesis by simp
  qed
qed

text \<open>
  An identifier resolves to a peer of the list only by its alias without regard to case, or,
  when no alias matches, as the single entry whose endpoint id it is a prefix of; it is not found
  exactly when neither matches, and ambiguous exactly when it is a prefix of several endpoint ids
  and no alias, with those entries as the candidates.
\<close>

theorem resolve_identifier_spec:
  "case resolve_identifier peers i of
     Found p \<Rightarrow>
       p \<in> set peers \<and>
       (eq_ignore_ascii_case (peer_alias p) i \<or>
        (\<forall>q \<in> set peers. \<not> eq_ignore_ascii_case (peer_alias q) i) \<and>
        filter (\<lambda>q. prefix i (endpoint_id q)) peers = [p])
   | NotFound \<Rightarrow>
       \<forall>q \<in> set peers. \<not> eq_ignore_ascii_case (peer_alias q) i \<and> \<not> prefix i (endpoint_id q)
   | Ambiguous ms \<Rightarrow>
       (\<forall>q \<in> set peers. \<not> eq_ignore_ascii_case (peer_alias q) i) \<and>
       ms = filter (\<lambda>q. prefix i (endpoint_id q)) peers \<and> 2 \<le> length ms"
proof (cases "find_alias_case_insensitive peers i")
  case (Some p)
  then show ?thesis
    by (auto simp: resolve_cases find_alias_case_insensitive_def dest: find_SomeD)
next
  case None
  let ?ms = "filter (\<lambda>q. prefix i (endpoint_id q)) peers"
  have no_alias: "\<forall>q \<in> set peers. \<not> eq_ignore_ascii_case (peer_alias q) i"
    using None by (simp add: find_alias_case_insensitive_def find_None_iff_all)
  show ?thesis
  proof (cases ?ms)
    case Nil
    then show ?thesis using None no_alias by (simp add: resolve_cases filter_empty_conv)
  next
    case (Cons p ps)
    have "p \<in> set ?ms" by (simp only: Cons) simp
    then have "p \<in> set peers" by simp
    with Cons show ?thesis
      using None no_alias by (cases ps) (simp_all add: resolve_cases Let_def)
  qed
qed

definition two_peers :: "trusted_peer list" where
  "two_peers =
     [\<lparr>endpoint_id = ''aa11'', peer_alias = ''Bob'', remote_display_name = ''Bob'',
        device_name = ''PC'', paired_at = ''t''\<rparr>,
      \<lparr>endpoint_id = ''aa22'', peer_alias = ''Eve'', remote_display_name = ''Eve'',
        device_name = ''PC'', paired_at = ''t''\<rparr>]"

theorem resolve_identifier_spec_witness:
  "resolve_identifier two_peers ''aa'' = Ambiguous two_peers \<and>
   filter (\<lambda>q. prefix ''aa'' (endpoint_id q)) two_peers = two_peers \<and>
   (\<exists>p. resolve_identifier two_peers ''EVE'' = Found p \<and> p \<in> set two_peers)"
proof -
  have amb: "resolve_identifier two_peers ''aa'' = Ambiguous two_peers" by code_simp
  have found: "resolve_identifier two_peers ''EVE'' = Found (two_peers ! 1)" by code_simp
  from resolve_identifier_spec [of two_peers "''aa''"] resolve_identifier_spec [of two_peers "''EVE''"]
  show ?thesis by (simp add: amb found)
qed

text \<open>
  Adding a peer appends exactly one record, under the endpoint id it was given and an alias no
  existing peer has (ignoring case), so aliases stay unique, as long as fewer than 999 peers
  are stored; the existing records are untouched.
\<close>

theorem add_trusted_peer_fresh:
  assumes "length peers < 999" and "aliases_unique peers"
  shows "\<exists>p a. add_trusted_peer peers eid display_name device now fresh = (peers @ [p], a) \<and>
     endpoint_id p = eid \<and> peer_alias p = a \<and>
     (\<forall>q \<in> set peers. \<not> eq_ignore_ascii_case (peer_alias q) a) \<and>
     aliases_unique (peers @ [p])"
proof -
  let ?a = "unique_alias peers display_name fresh"
  have free: "find_alias_case_insensitive peers ?a = None"
    using assms(1) by (rule unique_alias_free)
  then have "\<forall>q \<in> set peers. \<not> eq_ignore_ascii_case (peer_alias q) ?a"
    by (simp add: find_alias_case_insensitive_def find_None_iff_all)
  with free assms(2) show ?thesis
    by (simp add: add_trusted_peer_def Let_def aliases_unique_append)
qed

definition sample_peer :: "string \<Rightarrow> string \<Rightarrow> trusted_peer" where
  "sample_peer a eid = \<lparr>endpoint_id = eid, peer_alias = a, remote_display_name = a,
     device_name = ''Device'', paired_at = ''2026-08-27T00:00:00Z''\<rparr>"

lemma sample_peer_sel [simp]: "endpoint_id (sample_peer a e) = e" "peer_alias (sample_peer a e) = a"
  by (simp_all add: sample_peer_def)

theorem add_trusted_peer_fresh_witness:
  "\<exists>p a. add_trusted_peer [sample_peer ''First'' ''aaaa''] ''bbbb'' ''first'' ''PC'' ''now'' ''f00d''
     = ([sample_peer ''First'' ''aaaa'', p], a) \<and> endpoint_id p = ''bbbb'' \<and>
     aliases_unique [sample_peer ''First'' ''aaaa'', p]"
proof -
  have u: "aliases_unique [sample_peer ''First'' ''aaaa'']" by (simp add: aliases_unique_def)
  show ?thesis
    using add_trusted_peer_fresh [OF _ u, of "''bbbb''" "''first''" "''PC''" "''now''" "''f00d''"]
    by auto
qed

text \<open>
  Renaming: on success the new alias is the validated one, the first record of the endpoint
  gets it and every other record is as before; on any error nothing changes.  With at most one
  record per endpoint id, aliases stay unique.
\<close>

theorem rename_trusted_peer_alias_spec:
  assumes "aliases_unique peers" and "endpoints_unique peers"
  shows "case rename_trusted_peer_alias peers eid new_alias of
     (peers', Inr a) \<Rightarrow>
       validate_alias new_alias = Inr a \<and>
       peers' = map (\<lambda>p. if endpoint_id p = eid then p\<lparr>peer_alias := a\<rparr> else p) peers \<and>
       aliases_unique peers' \<and> endpoints_unique peers'
   | (peers', Inl e) \<Rightarrow> peers' = peers"
proof -
  let ?f = "\<lambda>a p. p\<lparr>peer_alias := a\<rparr>" and ?P = "\<lambda>p. endpoint_id p = eid"
  have one: "update_first ?P (?f a) ps = map (\<lambda>p. if ?P p then ?f a p else p) ps"
    if "endpoints_unique ps" for a ps
    using that
  proof (induction ps)
    case Nil
    then show ?case by simp
  next
    case (Cons q ps)
    have "map (\<lambda>p. if ?P p then ?f a p else p) ps = ps" if "?P q"
      using Cons.prems that by (intro map_idI) (force simp: endpoints_unique_def image_iff)
    with Cons show ?case by (auto simp: endpoints_unique_def)
  qed
  have "endpoints_unique (update_first ?P (?f a) peers)" for a
    using assms(2) by (simp add: endpoints_unique_def map_update_first)
  moreover have "aliases_unique (update_first ?P (?f a) peers)"
    if "\<not> list_ex (\<lambda>p. endpoint_id p \<noteq> eid \<and> eq_ignore_ascii_case (peer_alias p) a) peers" for a
    using that by (intro aliases_unique_update [OF assms]) (auto simp: list_ex_iff eq_ignore_lowered)
  ultimately show ?thesis
    by (auto simp: rename_trusted_peer_alias_def one [OF assms(2)] split: sum.splits)
qed

theorem rename_trusted_peer_alias_spec_witness:
  "rename_trusted_peer_alias [sample_peer ''First'' ''aaaa''] ''aaaa'' '' Laptop ''
     = ([sample_peer ''First'' ''aaaa''\<lparr>peer_alias := ''Laptop''\<rparr>], Inr ''Laptop'') \<and>
   aliases_unique [sample_peer ''First'' ''aaaa''\<lparr>peer_alias := ''Laptop''\<rparr>]"
proof -
  have v: "validate_alias '' Laptop '' = Inr ''Laptop''" by code_simp
  have u: "aliases_unique [sample_peer ''First'' ''aaaa'']" "endpoints_unique [sample_peer ''First'' ''aaaa'']"
    by (simp_all add: aliases_unique_def endpoints_unique_def)
  have r: "rename_trusted_peer_alias [sample_peer ''First'' ''aaaa''] ''aaaa'' '' Laptop ''
     = ([sample_peer ''First'' ''aaaa''\<lparr>peer_alias := ''Laptop''\<rparr>], Inr ''Laptop'')"
    by (simp add: rename_trusted_peer_alias_def v)
  from rename_trusted_peer_alias_spec [OF u, where eid = "''aaaa''" and new_alias = "'' Laptop ''"] r show ?thesis by simp
qed

text \<open>
  Removing a peer revokes every record of its endpoint id and no other record, keeps the
  order and both uniqueness invariants, and reports whether anything was removed.
\<close>

theorem remove_trusted_peer_spec:
  "case remove_trusted_peer peers eid of (peers', removed) \<Rightarrow>
     \<not> is_trusted peers' eid \<and>
     (\<forall>p. endpoint_id p \<noteq> eid \<longrightarrow> (p \<in> set peers' \<longleftrightarrow> p \<in> set peers)) \<and>
     subseq peers' peers \<and>
     (removed \<longleftrightarrow> is_trusted peers eid) \<and>
     (aliases_unique peers \<longrightarrow> aliases_unique peers') \<and>
     (endpoints_unique peers \<longrightarrow> endpoints_unique peers')"
proof -
  have "length (filter P xs) \<noteq> length xs \<longleftrightarrow> \<not> (\<forall>x \<in> set xs. P x)" for P and xs :: "trusted_peer list"
    by (metis filter_True length_filter_less less_irrefl)
  then show ?thesis
    by (auto simp: remove_trusted_peer_def Let_def is_trusted_def list_ex_iff keeps)
qed

theorem remove_trusted_peer_spec_witness:
  "\<not> is_trusted (fst (remove_trusted_peer [sample_peer ''First'' ''aaaa''] ''aaaa'')) ''aaaa''"
  using remove_trusted_peer_spec [where peers = "[sample_peer ''First'' ''aaaa'']" and eid = "''aaaa''"]
  by (simp add: split_beta)

definition paired_twice :: "trusted_peer list" where
  "paired_twice =
     fst (add_trusted_peer (fst (add_trusted_peer [] ''aaaa'' ''Bob'' ''PC'' ''t1'' ''u1''))
            ''aaaa'' ''Bob'' ''PC'' ''t2'' ''u2'')"

lemma paired_twice_eq:
  "paired_twice =
     [\<lparr>endpoint_id = ''aaaa'', peer_alias = ''Bob'', remote_display_name = ''Bob'',
       device_name = ''PC'', paired_at = ''t1''\<rparr>,
      \<lparr>endpoint_id = ''aaaa'', peer_alias = ''Bob-2'', remote_display_name = ''Bob'',
       device_name = ''PC'', paired_at = ''t2''\<rparr>]"
proof -
  have base: "alias_base ''Bob'' = ''Bob''" by code_simp
  have two: "numbered_alias ''Bob'' 2 = ''Bob-2''" by code_simp
  obtain ns where ns: "alias_numbers = 2 # ns"
    unfolding alias_numbers_def by (subst (asm) upt_conv_Cons) (simp, blast)
  have free: "eq_ignore_ascii_case ''Bob'' ''Bob-2'' = False" by code_simp
  show ?thesis
    by (simp add: paired_twice_def add_trusted_peer_def unique_alias_def base two free ns Let_def
        find_alias_case_insensitive_def)
qed

text \<open>
  Pairing twice with the same endpoint leaves two records for it, since adding a peer does not
  look for the endpoint id.  Renaming the second one then renames the first record instead, and
  can give both the same alias, so aliases do not stay unique.
\<close>

theorem rename_after_repairing_counterexample:
  "aliases_unique paired_twice \<and>
   map peer_alias paired_twice = [''Bob'', ''Bob-2''] \<and>
   resolve_identifier paired_twice ''Bob-2'' = Found (paired_twice ! 1) \<and>
   map peer_alias (fst (rename_trusted_peer_alias paired_twice (endpoint_id (paired_twice ! 1)) ''Laptop''))
     = [''Laptop'', ''Bob-2''] \<and>
   \<not> aliases_unique (fst (rename_trusted_peer_alias paired_twice ''aaaa'' ''bob-2''))"
proof -
  have v: "validate_alias ''Laptop'' = Inr ''Laptop''" "validate_alias ''bob-2'' = Inr ''bob-2''"
    by code_simp+
  have e: "eq_ignore_ascii_case ''Bob'' ''Bob-2'' = False" by code_simp
  have l: "lowered ''bob-2'' = lowered ''Bob-2''" "lowered ''Bob'' \<noteq> lowered ''Bob-2''"
    by code_simp+
  show ?thesis
    using l by (auto simp: paired_twice_eq aliases_unique_def resolve_identifier_def
        rename_trusted_peer_alias_def find_alias_case_insensitive_def v e)
qed

end
