(* ===== verification/Lcp_Config.thy ===== *)
theory Lcp_Config
  imports Lcp_Json Lcp_Wire Lcp_Peers
begin

text \<open>
  The configuration (\<open>lcp-core/src/config.rs\<close>): its schema, the dotted keys behind
  \<open>lcp config\<close>, and loading and saving over a small model of a file system that
  says what a crash may leave of a file (only synced bytes are safe, and only \<open>sync_all\<close> on the file is done).  The JSON text of a config (\<open>ser\<close>, \<open>de\<close>), the environment
  variables (\<open>env\<close>) and the platform directory are arguments.
\<close>

section \<open>Schema\<close>

definition MIN_HISTORY_LIMIT :: u32 where
  "MIN_HISTORY_LIMIT = 20"

definition MAX_HISTORY_LIMIT :: u32 where
  "MAX_HISTORY_LIMIT = 500"

definition DEFAULT_HISTORY_LIMIT :: u32 where
  "DEFAULT_HISTORY_LIMIT = 100"

definition HARD_MAX_MESSAGE_BYTES :: u64 where
  "HARD_MAX_MESSAGE_BYTES = 5 * 1024 * 1024"

definition WRITABLE_KEYS :: "string list" where
  "WRITABLE_KEYS =
     [''user.name'', ''user.device_name'', ''history.limit_per_peer'', ''daemon.autostart'',
      ''network.relay_mode'']"

datatype config_error =
    ConfigIo io_error
  | Parse string
  | UnsupportedSchemaVersion u32 u32 \<comment> \<open>\<open>found\<close>, \<open>expected\<close>\<close>
  | NoConfigDir
  | UnknownKey string
  | InvalidValue string string \<comment> \<open>\<open>key\<close>, \<open>reason\<close>\<close>

text \<open>\<open>dbg\<close> is the \<open>Debug\<close> form of a string, \<open>io_text\<close> the \<open>Display\<close> of an I/O error.\<close>

fun config_error_text :: "(string \<Rightarrow> string) \<Rightarrow> (io_error \<Rightarrow> string) \<Rightarrow> config_error \<Rightarrow> string" where
  "config_error_text dbg io_text (ConfigIo e) = ''io error: '' @ io_text e"
| "config_error_text dbg io_text (Parse e) = ''failed to parse config: '' @ e"
| "config_error_text dbg io_text (UnsupportedSchemaVersion found expected) =
     ''unsupported config schema version '' @ show_nat (unat found) @ '' (expected ''
       @ show_nat (unat expected) @ '')''"
| "config_error_text dbg io_text NoConfigDir = ''could not determine platform config directory''"
| "config_error_text dbg io_text (UnknownKey key) = ''unknown or read-only config key '' @ dbg key"
| "config_error_text dbg io_text (InvalidValue key reason) =
     ''invalid value for '' @ dbg key @ '': '' @ reason"

record user_config =
  user_name :: string
  user_device_name :: string

record history_config =
  limit_per_peer :: u32

record message_config =
  max_bytes :: u64

record daemon_config =
  autostart :: bool

record network_config =
  relay_mode :: string

record config =
  schema_version :: u32
  user_cfg :: user_config
  history_cfg :: history_config
  message_cfg :: message_config
  daemon_cfg :: daemon_config
  network_cfg :: network_config
  trusted_peers :: "trusted_peer list"

definition or_else :: "'a option \<Rightarrow> 'a option \<Rightarrow> 'a option" where
  "or_else x y = (case x of None \<Rightarrow> y | Some a \<Rightarrow> Some a)"

definition default_user_name :: "(string \<Rightarrow> string option) \<Rightarrow> string" where
  "default_user_name env = unwrap_or (or_else (env ''USERNAME'') (env ''USER'')) ''Me''"

definition default_device_name :: "(string \<Rightarrow> string option) \<Rightarrow> string" where
  "default_device_name env = unwrap_or (or_else (env ''COMPUTERNAME'') (env ''HOSTNAME'')) ''My Device''"

definition config_default :: "(string \<Rightarrow> string option) \<Rightarrow> config" where
  "config_default env =
     \<lparr>schema_version = CONFIG_SCHEMA_VERSION,
      user_cfg = \<lparr>user_name = default_user_name env, user_device_name = default_device_name env\<rparr>,
      history_cfg = \<lparr>limit_per_peer = DEFAULT_HISTORY_LIMIT\<rparr>,
      message_cfg = \<lparr>max_bytes = HARD_MAX_MESSAGE_BYTES\<rparr>,
      daemon_cfg = \<lparr>autostart = True\<rparr>,
      network_cfg = \<lparr>relay_mode = ''default''\<rparr>,
      trusted_peers = []\<rparr>"

text \<open>\<open>PathBuf::join\<close>, with the separator of the platform.\<close>

definition path_join :: "string \<Rightarrow> string \<Rightarrow> string" where
  "path_join d f = d @ ''/'' @ f"

definition app_dir :: "(string \<Rightarrow> string option) \<Rightarrow> string option \<Rightarrow> config_error + string" where
  "app_dir env config_dir =
     (case env ''LCP_PROFILE_DIR'' of
        Some dir \<Rightarrow> Inr dir
      | None \<Rightarrow> (case config_dir of None \<Rightarrow> Inl NoConfigDir | Some base \<Rightarrow> Inr (path_join base ''lcp'')))"

text \<open>\<open>logs_dir\<close>, given the platform and its home and local data directories.\<close>

definition logs_dir ::
  "bool \<Rightarrow> (string \<Rightarrow> string option) \<Rightarrow> (string \<times> string) option \<Rightarrow> config_error + string" where
  "logs_dir macos env base_dirs =
     (case env ''LCP_PROFILE_DIR'' of
        Some dir \<Rightarrow> Inr (path_join dir ''logs'')
      | None \<Rightarrow>
          (case base_dirs of
             None \<Rightarrow> Inl NoConfigDir
           | Some (home, local_data) \<Rightarrow>
               if macos then Inr (path_join (path_join (path_join home ''Library'') ''Logs'') ''lcp'')
               else Inr (path_join (path_join local_data ''lcp'') ''logs'')))"

definition config_file_path :: "(string \<Rightarrow> string option) \<Rightarrow> string option \<Rightarrow> config_error + string" where
  "config_file_path env config_dir =
     (case app_dir env config_dir of Inl e \<Rightarrow> Inl e | Inr dir \<Rightarrow> Inr (path_join dir ''config.json''))"

section \<open>Dotted keys\<close>

definition trusted_peer_json :: "trusted_peer \<Rightarrow> json" where
  "trusted_peer_json p =
     JObj [(''endpoint_id'', JStr (endpoint_id p)), (''alias'', JStr (peer_alias p)),
           (''remote_display_name'', JStr (remote_display_name p)),
           (''device_name'', JStr (device_name p)), (''paired_at'', JStr (paired_at p))]"

text \<open>\<open>serde_json::to_value(self)\<close>\<close>

definition config_json :: "config \<Rightarrow> json" where
  "config_json c =
     JObj [(''schema_version'', JInt (uint (schema_version c))),
           (''user'', JObj [(''name'', JStr (user_name (user_cfg c))),
                            (''device_name'', JStr (user_device_name (user_cfg c)))]),
           (''history'', JObj [(''limit_per_peer'', JInt (uint (limit_per_peer (history_cfg c))))]),
           (''message'', JObj [(''max_bytes'', JInt (uint (max_bytes (message_cfg c))))]),
           (''daemon'', JObj [(''autostart'', JBool (autostart (daemon_cfg c)))]),
           (''network'', JObj [(''relay_mode'', JStr (relay_mode (network_cfg c)))]),
           (''trusted_peers'', JArr (map trusted_peer_json (trusted_peers c)))]"

text \<open>\<open>str::split\<close> on one ASCII character: always at least one part.\<close>

fun split_on :: "char \<Rightarrow> string \<Rightarrow> string list" where
  "split_on d [] = [[]]"
| "split_on d (c # cs) =
     (if c = d then [] # split_on d cs
      else case split_on d cs of [] \<Rightarrow> [[c]] | p # ps \<Rightarrow> (c # p) # ps)"

fun json_path :: "json \<Rightarrow> string list \<Rightarrow> json option" where
  "json_path v [] = Some v"
| "json_path v (k # ks) = (case get v k of None \<Rightarrow> None | Some v' \<Rightarrow> json_path v' ks)"

definition get_by_key :: "config \<Rightarrow> string \<Rightarrow> json option" where
  "get_by_key c key = json_path (config_json c) (split_on (CHR ''.'') key)"

definition set_by_key :: "config \<Rightarrow> string \<Rightarrow> string \<Rightarrow> config \<times> (config_error + unit)" where
  "set_by_key c key raw_value =
     (if key \<notin> set WRITABLE_KEYS then (c, Inl (UnknownKey key))
      else if key = ''user.name'' then (c\<lparr>user_cfg := (user_cfg c)\<lparr>user_name := raw_value\<rparr>\<rparr>, Inr ())
      else if key = ''user.device_name''
      then (c\<lparr>user_cfg := (user_cfg c)\<lparr>user_device_name := raw_value\<rparr>\<rparr>, Inr ())
      else if key = ''history.limit_per_peer'' then
        (case parse_u32 raw_value of
           None \<Rightarrow> (c, Inl (InvalidValue key ''must be an integer''))
         | Some n \<Rightarrow>
             if \<not> (MIN_HISTORY_LIMIT \<le> n \<and> n \<le> MAX_HISTORY_LIMIT)
             then (c, Inl (InvalidValue key
                    (''must be between '' @ show_nat (unat MIN_HISTORY_LIMIT) @ '' and ''
                       @ show_nat (unat MAX_HISTORY_LIMIT))))
             else (c\<lparr>history_cfg := (history_cfg c)\<lparr>limit_per_peer := n\<rparr>\<rparr>, Inr ()))
      else if key = ''daemon.autostart'' then
        (case parse_bool raw_value of
           None \<Rightarrow> (c, Inl (InvalidValue key ''must be true or false''))
         | Some b \<Rightarrow> (c\<lparr>daemon_cfg := (daemon_cfg c)\<lparr>autostart := b\<rparr>\<rparr>, Inr ()))
      else (c\<lparr>network_cfg := (network_cfg c)\<lparr>relay_mode := raw_value\<rparr>\<rparr>, Inr ()))"

section \<open>Loading and saving\<close>

text \<open>
  A file has the bytes that readers see and the bytes that have been synced.  \<open>sync_all\<close>
  makes the two equal, but it syncs the file and not its directory: a file that was created or
  renamed may be missing from its place after a crash, and what the place held before may be
  there instead.  \<open>stale\<close> says what that is.  A file with bytes that are not synced may
  be left with any bytes.  An operation either succeeds or fails with an error, a failing write
  after some of its bytes, a failing \<open>stat\<close> as if there were no file.
\<close>

record stored_file =
  content :: bytes
  durable :: bytes
  stale :: "bytes option \<Rightarrow> bool"

type_synonym fs = "string \<Rightarrow> stored_file option"

text \<open>What may be found at a path after a crash: no file (\<open>None\<close>), or one with these bytes.\<close>

definition crash_leaves :: "stored_file option \<Rightarrow> bytes option \<Rightarrow> bool" where
  "crash_leaves entry found =
     (case entry of
        None \<Rightarrow> found = None
      | Some x \<Rightarrow>
          stale x found \<or>
          (if durable x = content x then found = Some (content x) else found \<noteq> None))"

datatype fs_op =
    CreateDirAll string
  | CreateFile string
  | WriteAll string bytes
  | SyncAll string
  | Rename string string
  | ReadFile string
  | StatFile string

definition on_file :: "fs \<Rightarrow> string \<Rightarrow> (stored_file \<Rightarrow> stored_file) \<Rightarrow> fs" where
  "on_file d p f = (case d p of None \<Rightarrow> d | Some x \<Rightarrow> d(p \<mapsto> f x))"

fun fs_apply :: "fs_op \<Rightarrow> fs \<Rightarrow> fs" where
  "fs_apply (CreateDirAll p) d = d"
| "fs_apply (CreateFile p) d = d(p \<mapsto> \<lparr>content = [], durable = [], stale = crash_leaves (d p)\<rparr>)"
| "fs_apply (WriteAll p bs) d = on_file d p (\<lambda>x. x\<lparr>content := content x @ bs\<rparr>)"
| "fs_apply (SyncAll p) d = on_file d p (\<lambda>x. x\<lparr>durable := content x\<rparr>)"
| "fs_apply (ReadFile p) d = d"
| "fs_apply (StatFile p) d = d"
| "fs_apply (Rename p q) d =
     (if p = q then d
      else (d(q := map_option (\<lambda>x. x\<lparr>stale := crash_leaves (d q)\<rparr>) (d p)))(p := None))"

fun fs_partial :: "nat \<Rightarrow> fs_op \<Rightarrow> fs \<Rightarrow> fs" where
  "fs_partial k (WriteAll p bs) d = fs_apply (WriteAll p (take k bs)) d"
| "fs_partial k oper d = d"

type_synonym faults = "fs_op \<Rightarrow> (io_error \<times> nat) option"

fun run_ops :: "faults \<Rightarrow> fs_op list \<Rightarrow> fs \<Rightarrow> fs \<times> (io_error + unit)" where
  "run_ops fault [] d = (d, Inr ())"
| "run_ops fault (oper # ops) d =
     (case fault oper of
        None \<Rightarrow> run_ops fault ops (fs_apply oper d)
      | Some (e, k) \<Rightarrow> (fs_partial k oper d, Inl e))"

text \<open>What is outside the program when it saves.\<close>

record os_env =
  os_var :: "string \<Rightarrow> string option"
  os_config_dir :: "string option"
  os_pid :: nat
  os_config_text :: "config \<Rightarrow> string + bytes"
  os_fault :: faults

definition save_tmp_path :: "os_env \<Rightarrow> string \<Rightarrow> string" where
  "save_tmp_path os dir = path_join dir (''.config.json.tmp-'' @ show_nat (os_pid os))"

definition save_ops :: "os_env \<Rightarrow> string \<Rightarrow> bytes \<Rightarrow> fs_op list" where
  "save_ops os dir txt =
     (let tmp = save_tmp_path os dir
      in [CreateFile tmp, WriteAll tmp txt, SyncAll tmp, Rename tmp (path_join dir ''config.json'')])"

definition config_save :: "os_env \<Rightarrow> config \<Rightarrow> fs \<Rightarrow> fs \<times> (config_error + unit)" where
  "config_save os c d =
     (case app_dir (os_var os) (os_config_dir os) of
        Inl e \<Rightarrow> (d, Inl e)
      | Inr dir \<Rightarrow>
          (case run_ops (os_fault os) [CreateDirAll dir] d of
             (d1, Inl e) \<Rightarrow> (d1, Inl (ConfigIo e))
           | (d1, Inr _) \<Rightarrow>
               (case os_config_text os c of
                  Inl e \<Rightarrow> (d1, Inl (Parse e))
                | Inr txt \<Rightarrow>
                    (case run_ops (os_fault os) (save_ops os dir txt) d1 of
                       (d2, Inl e) \<Rightarrow> (d2, Inl (ConfigIo e))
                     | (d2, Inr _) \<Rightarrow> (d2, Inr ())))))"

text \<open>\<open>Path::exists\<close> is false, too, when the file cannot be examined.\<close>

definition path_exists :: "os_env \<Rightarrow> string \<Rightarrow> fs \<Rightarrow> stored_file option" where
  "path_exists os p d = (if os_fault os (StatFile p) = None then d p else None)"

definition load_or_create ::
  "(bytes \<Rightarrow> string + config) \<Rightarrow> os_env \<Rightarrow> fs \<Rightarrow> fs \<times> (config_error + config)" where
  "load_or_create de os d =
     (case config_file_path (os_var os) (os_config_dir os) of
        Inl e \<Rightarrow> (d, Inl e)
      | Inr p \<Rightarrow>
          (case path_exists os p d of
             None \<Rightarrow>
               (let c = config_default (os_var os)
                in case config_save os c d of
                     (d1, Inl e) \<Rightarrow> (d1, Inl e)
                   | (d1, Inr _) \<Rightarrow> (d1, Inr c))
           | Some x \<Rightarrow>
               (case run_ops (os_fault os) [ReadFile p] d of
                  (d1, Inl e) \<Rightarrow> (d1, Inl (ConfigIo e))
                | (d1, Inr _) \<Rightarrow>
                    (case de (content x) of
                       Inl e \<Rightarrow> (d1, Inl (Parse e))
                     | Inr c \<Rightarrow>
                         if schema_version c \<noteq> CONFIG_SCHEMA_VERSION
                         then (d1, Inl (UnsupportedSchemaVersion (schema_version c) CONFIG_SCHEMA_VERSION))
                         else (d1, Inr c)))))"

section \<open>Lemmas\<close>

definition limit_ok :: "config \<Rightarrow> bool" where
  "limit_ok c \<longleftrightarrow> MIN_HISTORY_LIMIT \<le> limit_per_peer (history_cfg c) \<and>
     limit_per_peer (history_cfg c) \<le> MAX_HISTORY_LIMIT"

lemma limit_ok_default: "limit_ok (config_default env)"
  by (simp add: limit_ok_def config_default_def MIN_HISTORY_LIMIT_def MAX_HISTORY_LIMIT_def
      DEFAULT_HISTORY_LIMIT_def)

text \<open>What reading a writable key gives.\<close>

lemma split_writable:
  "split_on (CHR ''.'') ''user.name'' = [''user'', ''name'']"
  "split_on (CHR ''.'') ''user.device_name'' = [''user'', ''device_name'']"
  "split_on (CHR ''.'') ''history.limit_per_peer'' = [''history'', ''limit_per_peer'']"
  "split_on (CHR ''.'') ''daemon.autostart'' = [''daemon'', ''autostart'']"
  "split_on (CHR ''.'') ''network.relay_mode'' = [''network'', ''relay_mode'']"
  by code_simp+

lemma get_writable:
  "get_by_key c ''user.name'' = Some (JStr (user_name (user_cfg c)))"
  "get_by_key c ''user.device_name'' = Some (JStr (user_device_name (user_cfg c)))"
  "get_by_key c ''history.limit_per_peer'' = Some (JInt (uint (limit_per_peer (history_cfg c))))"
  "get_by_key c ''daemon.autostart'' = Some (JBool (autostart (daemon_cfg c)))"
  "get_by_key c ''network.relay_mode'' = Some (JStr (relay_mode (network_cfg c)))"
  by (simp_all add: get_by_key_def config_json_def split_writable del: split_on.simps)

text \<open>The value a raw string stands for under a key, and whether the key takes it.\<close>

definition key_value :: "string \<Rightarrow> string \<Rightarrow> json option" where
  "key_value key raw =
     (if key \<notin> set WRITABLE_KEYS then None
      else if key = ''history.limit_per_peer'' then
        (case parse_u32 raw of
           None \<Rightarrow> None
         | Some n \<Rightarrow> if 20 \<le> uint n \<and> uint n \<le> 500 then Some (JInt (uint n)) else None)
      else if key = ''daemon.autostart'' then map_option JBool (parse_bool raw)
      else Some (JStr raw))"

lemma limit_bounds_uint:
  "(MIN_HISTORY_LIMIT \<le> n \<and> n \<le> MAX_HISTORY_LIMIT) \<longleftrightarrow> 20 \<le> uint n \<and> uint n \<le> 500"
  by (simp add: MIN_HISTORY_LIMIT_def MAX_HISTORY_LIMIT_def word_le_def)

lemma WRITABLE_cases:
  assumes "key \<in> set WRITABLE_KEYS"
  obtains "key = ''user.name''" | "key = ''user.device_name''" | "key = ''history.limit_per_peer''"
    | "key = ''daemon.autostart''" | "key = ''network.relay_mode''"
  using assms unfolding WRITABLE_KEYS_def
  by (simp only: list.set insert_iff empty_iff simp_thms) (elim disjE; erule that)

lemma all_writable:
  "(\<forall>k. k \<in> set WRITABLE_KEYS \<longrightarrow> P k) \<longleftrightarrow>
     P ''user.name'' \<and> P ''user.device_name'' \<and> P ''history.limit_per_peer'' \<and>
     P ''daemon.autostart'' \<and> P ''network.relay_mode''"
  by (simp only: WRITABLE_KEYS_def list.set insert_iff empty_iff) blast

lemma WRITABLE_simps [simp]:
  "''user.name'' \<in> set WRITABLE_KEYS" "''user.device_name'' \<in> set WRITABLE_KEYS"
  "''history.limit_per_peer'' \<in> set WRITABLE_KEYS" "''daemon.autostart'' \<in> set WRITABLE_KEYS"
  "''network.relay_mode'' \<in> set WRITABLE_KEYS"
  by (simp_all add: WRITABLE_KEYS_def)

lemma set_writable:
  "set_by_key c ''user.name'' raw = (c\<lparr>user_cfg := (user_cfg c)\<lparr>user_name := raw\<rparr>\<rparr>, Inr ())"
  "set_by_key c ''user.device_name'' raw =
     (c\<lparr>user_cfg := (user_cfg c)\<lparr>user_device_name := raw\<rparr>\<rparr>, Inr ())"
  "set_by_key c ''history.limit_per_peer'' raw =
     (case parse_u32 raw of
        None \<Rightarrow> (c, Inl (InvalidValue ''history.limit_per_peer'' ''must be an integer''))
      | Some n \<Rightarrow>
          if 20 \<le> uint n \<and> uint n \<le> 500
          then (c\<lparr>history_cfg := (history_cfg c)\<lparr>limit_per_peer := n\<rparr>\<rparr>, Inr ())
          else (c, Inl (InvalidValue ''history.limit_per_peer''
            (''must be between '' @ show_nat (unat MIN_HISTORY_LIMIT) @ '' and ''
               @ show_nat (unat MAX_HISTORY_LIMIT)))))"
  "set_by_key c ''daemon.autostart'' raw =
     (case parse_bool raw of
        None \<Rightarrow> (c, Inl (InvalidValue ''daemon.autostart'' ''must be true or false''))
      | Some b \<Rightarrow> (c\<lparr>daemon_cfg := (daemon_cfg c)\<lparr>autostart := b\<rparr>\<rparr>, Inr ()))"
  "set_by_key c ''network.relay_mode'' raw =
     (c\<lparr>network_cfg := (network_cfg c)\<lparr>relay_mode := raw\<rparr>\<rparr>, Inr ())"
  by (simp_all add: set_by_key_def limit_bounds_uint split: option.split)

lemma value_writable:
  "key_value ''user.name'' raw = Some (JStr raw)"
  "key_value ''user.device_name'' raw = Some (JStr raw)"
  "key_value ''history.limit_per_peer'' raw =
     (case parse_u32 raw of
        None \<Rightarrow> None
      | Some n \<Rightarrow> if 20 \<le> uint n \<and> uint n \<le> 500 then Some (JInt (uint n)) else None)"
  "key_value ''daemon.autostart'' raw = map_option JBool (parse_bool raw)"
  "key_value ''network.relay_mode'' raw = Some (JStr raw)"
  by (simp_all add: key_value_def)

section \<open>Properties\<close>

text \<open>
  C34.  \<open>set_by_key\<close> succeeds exactly on a writable key with a value of the key's type (a limit
  between 20 and 500, a boolean, any string).  Then the key reads back as that value and every
  other writable key, the schema version and the trusted peers are as before; otherwise the
  config is unchanged.
\<close>

theorem set_by_key_spec:
  "case set_by_key c key raw of
     (c', Inr _) \<Rightarrow>
       key_value key raw \<noteq> None \<and> get_by_key c' key = key_value key raw \<and>
       (\<forall>k. k \<in> set WRITABLE_KEYS \<longrightarrow> k \<noteq> key \<longrightarrow> get_by_key c' k = get_by_key c k) \<and>
       schema_version c' = schema_version c \<and> message_cfg c' = message_cfg c \<and>
       trusted_peers c' = trusted_peers c \<and> (limit_ok c \<longrightarrow> limit_ok c')
   | (c', Inl e) \<Rightarrow>
       key_value key raw = None \<and> c' = c \<and>
       (e = UnknownKey key \<longleftrightarrow> key \<notin> set WRITABLE_KEYS)"
proof (cases "key \<in> set WRITABLE_KEYS")
  case False
  then show ?thesis by (simp add: set_by_key_def key_value_def)
next
  case True
  then show ?thesis
    by (cases rule: WRITABLE_cases; hypsubst)
      (simp_all add: set_writable value_writable get_writable all_writable limit_ok_def
        limit_bounds_uint split: option.split)
qed

theorem set_by_key_spec_witness:
  "get_by_key (fst (set_by_key (config_default Map.empty) ''user.name'' ''Ann'')) ''user.name'' =
     key_value ''user.name'' ''Ann'' \<and>
   get_by_key (fst (set_by_key (config_default Map.empty) ''user.name'' ''Ann'')) ''daemon.autostart'' =
     get_by_key (config_default Map.empty) ''daemon.autostart''"
proof -
  obtain c' where s: "set_by_key (config_default Map.empty) ''user.name'' ''Ann'' = (c', Inr ())"
    by (simp add: set_writable)
  from set_by_key_spec [where c = "config_default Map.empty" and key = "''user.name''" and raw = "''Ann''"]
  show ?thesis by (simp add: s WRITABLE_KEYS_def)
qed

lemma config_path_neq_tmp: "path_join dir ''config.json'' \<noteq> save_tmp_path os dir"
  by (simp add: path_join_def save_tmp_path_def)

lemma config_path_Inr:
  "config_file_path env cd = Inr p \<longleftrightarrow> (\<exists>dir. app_dir env cd = Inr dir \<and> p = path_join dir ''config.json'')"
  by (auto simp: config_file_path_def split: sum.splits)

text \<open>A config file as a save leaves it, in the place of the entry that was there before.\<close>

definition saved_file :: "bytes \<Rightarrow> stored_file option \<Rightarrow> stored_file" where
  "saved_file txt before = \<lparr>content = txt, durable = txt, stale = crash_leaves before\<rparr>"

lemma saved_file_sel [simp]:
  "content (saved_file txt before) = txt" "durable (saved_file txt before) = txt"
  by (simp_all add: saved_file_def)

lemma crash_saved [simp]:
  "crash_leaves (Some (saved_file txt before)) found \<longleftrightarrow> found = Some txt \<or> crash_leaves before found"
  by (auto simp: crash_leaves_def [of "Some _"] saved_file_def)

text \<open>The four operations on the temporary file, interrupted anywhere.\<close>

lemma run_save_ops:
  assumes "run_ops fault (save_ops os dir txt) d = (d', r)"
  shows "(case r of
      Inr _ \<Rightarrow> d' (path_join dir ''config.json'') = Some (saved_file txt (d (path_join dir ''config.json'')))
    | Inl _ \<Rightarrow> d' (path_join dir ''config.json'') = d (path_join dir ''config.json'')) \<and>
    (\<forall>q. q \<noteq> path_join dir ''config.json'' \<longrightarrow> q \<noteq> save_tmp_path os dir \<longrightarrow> d' q = d q)"
  using assms config_path_neq_tmp [of dir os]
  by (auto simp: save_ops_def Let_def on_file_def saved_file_def split: option.splits)

lemma config_save_cases:
  assumes "config_file_path (os_var os) (os_config_dir os) = Inr p"
  shows "case config_save os c d of (d', r) \<Rightarrow>
    (case r of
       Inl _ \<Rightarrow> d' p = d p
     | Inr _ \<Rightarrow>
         \<exists>txt. os_config_text os c = Inr txt \<and> d' p = Some (saved_file txt (d p))) \<and>
    (\<forall>q. d' q \<noteq> d q \<longrightarrow>
       q = p \<or> (\<exists>dir. app_dir (os_var os) (os_config_dir os) = Inr dir \<and> q = save_tmp_path os dir))"
proof -
  obtain dir where dir: "app_dir (os_var os) (os_config_dir os) = Inr dir"
      and p: "p = path_join dir ''config.json''"
    using assms by (auto simp: config_path_Inr)
  show ?thesis
  proof (cases "os_fault os (CreateDirAll dir)")
    case (Some ek)
    then show ?thesis by (cases ek) (auto simp: config_save_def dir)
  next
    case None
    show ?thesis
    proof (cases "os_config_text os c")
      case (Inl e)
      then show ?thesis using None by (simp add: config_save_def dir)
    next
      case (Inr out)
      obtain d' r where run: "run_ops (os_fault os) (save_ops os dir out) d = (d', r)" by fastforce
      have "config_save os c d = (d', case r of Inl e \<Rightarrow> Inl (ConfigIo e) | Inr _ \<Rightarrow> Inr ())"
        using None Inr by (simp add: config_save_def dir run split: sum.split)
      then show ?thesis
        using run_save_ops [OF run] Inr dir by (auto simp: p split: sum.splits)
    qed
  qed
qed

text \<open>
  C13.  Saving is atomic.  Operations may fail at any point and writes after any number of bytes:
  a save that reports an error leaves the config file exactly as it was, for readers and after a
  crash, and one that succeeds leaves the complete new text for readers, with every byte synced.
  A crash after that leaves the new text or, as the directory is not synced, what a crash would
  have left before the save; it never leaves a part of a text.  No file other than the config file
  and the temporary file changes.
\<close>

theorem config_save_atomic:
  assumes "config_file_path (os_var os) (os_config_dir os) = Inr p"
  shows "case config_save os c d of (d', r) \<Rightarrow>
    (case r of
       Inl _ \<Rightarrow> d' p = d p
     | Inr _ \<Rightarrow>
         \<exists>txt. os_config_text os c = Inr txt \<and>
           d' p = Some \<lparr>content = txt, durable = txt, stale = crash_leaves (d p)\<rparr> \<and>
           (\<forall>found. crash_leaves (d' p) found \<longleftrightarrow> found = Some txt \<or> crash_leaves (d p) found)) \<and>
    (\<forall>q. d' q \<noteq> d q \<longrightarrow>
       q = p \<or> (\<exists>dir. app_dir (os_var os) (os_config_dir os) = Inr dir \<and> q = save_tmp_path os dir))"
proof -
  obtain d' r where save: "config_save os c d = (d', r)" by fastforce
  show ?thesis
    using config_save_cases [OF assms, where c = c and d = d]
    by (cases r) (auto simp: save saved_file_def [symmetric])
qed

definition sample_os :: os_env where
  "sample_os = \<lparr>os_var = (\<lambda>_. None), os_config_dir = Some ''cfg'', os_pid = 7,
     os_config_text = (\<lambda>_. Inr [1, 2, 3]), os_fault = (\<lambda>_. None)\<rparr>"

lemma sample_os_path:
  "config_file_path (os_var sample_os) (os_config_dir sample_os) = Inr ''cfg/lcp/config.json''"
  by (simp add: sample_os_def config_file_path_def app_dir_def path_join_def)

theorem config_save_atomic_witness:
  "let os = sample_os\<lparr>os_fault := (\<lambda>oper. case oper of WriteAll _ _ \<Rightarrow> Some (OtherIo ''disk full'', 2) | _ \<Rightarrow> None)\<rparr>;
       old = \<lparr>content = [9], durable = [9], stale = (\<lambda>_. False)\<rparr>; d = [''cfg/lcp/config.json'' \<mapsto> old]
   in \<exists>d' d2. config_save os (config_default Map.empty) d = (d', Inl (ConfigIo (OtherIo ''disk full''))) \<and>
        d' ''cfg/lcp/config.json'' = Some old \<and>
        config_save sample_os (config_default Map.empty) d = (d2, Inr ()) \<and>
        map_option content (d2 ''cfg/lcp/config.json'') = Some [1, 2, 3] \<and>
        crash_leaves (d2 ''cfg/lcp/config.json'') (Some [9]) \<and>
        \<not> crash_leaves (d2 ''cfg/lcp/config.json'') (Some [1])"
proof -
  let ?os = "sample_os\<lparr>os_fault := (\<lambda>oper. case oper of WriteAll _ _ \<Rightarrow> Some (OtherIo ''disk full'', 2) | _ \<Rightarrow> None)\<rparr>"
  let ?old = "\<lparr>content = [9], durable = [9], stale = (\<lambda>_. False)\<rparr> :: stored_file"
  let ?d = "[''cfg/lcp/config.json'' \<mapsto> ?old] :: fs"
  have p: "config_file_path (os_var ?os) (os_config_dir ?os) = Inr ''cfg/lcp/config.json''"
    using sample_os_path by simp
  have "snd (config_save ?os (config_default Map.empty) ?d) = Inl (ConfigIo (OtherIo ''disk full''))"
    "snd (config_save sample_os (config_default Map.empty) ?d) = Inr ()"
    by (simp_all add: config_save_def sample_os_def app_dir_def save_ops_def Let_def)
  moreover have "os_config_text sample_os c = Inr [1, 2, 3]" for c
    by (simp add: sample_os_def)
  ultimately show ?thesis
    using config_save_atomic [OF p, where c = "config_default Map.empty" and d = ?d]
      config_save_atomic [OF sample_os_path, where c = "config_default Map.empty" and d = ?d]
    by (cases "config_save ?os (config_default Map.empty) ?d";
        cases "config_save sample_os (config_default Map.empty) ?d")
      (simp add: crash_leaves_def)
qed

text \<open>
  C35.  A config that was saved without an error is the one the next start loads, if its JSON text
  parses back to it, its schema version is the current one and the file can be examined and read.  On a first
  start the default config is created, saved and returned, and its history limit is in range.
\<close>

theorem load_after_save:
  assumes "config_file_path (os_var os) (os_config_dir os) = Inr p"
    and "\<And>txt. os_config_text os c = Inr txt \<Longrightarrow> de txt = Inr c"
    and "schema_version c = CONFIG_SCHEMA_VERSION"
    and "os_fault os (StatFile p) = None" and "os_fault os (ReadFile p) = None"
    and "config_save os c d = (d', Inr ())" and "before p = None"
  shows "load_or_create de os d' = (d', Inr c) \<and>
    (case load_or_create de os before of
       (d1, Inr c0) \<Rightarrow> c0 = config_default (os_var os) \<and> limit_ok c0 \<and> d1 p \<noteq> None
     | (d1, Inl _) \<Rightarrow> d1 p = None)"
proof -
  obtain out where ser: "os_config_text os c = Inr out" and
      d': "d' p = Some (saved_file out (d p))"
    using config_save_cases [OF assms(1), where c = c and d = d] assms(6) by auto
  have 1: "load_or_create de os d' = (d', Inr c)"
    using assms(1,3,4,5) ser d' assms(2) by (simp add: load_or_create_def path_exists_def)
  have 2: "case load_or_create de os before of
       (d1, Inr c0) \<Rightarrow> c0 = config_default (os_var os) \<and> limit_ok c0 \<and> d1 p \<noteq> None
     | (d1, Inl _) \<Rightarrow> d1 p = None"
    using assms(1,7) config_save_cases [OF assms(1), where c = "config_default (os_var os)" and d = before]
    by (auto simp: load_or_create_def path_exists_def limit_ok_default Let_def split: sum.splits prod.splits)
  from 1 2 show ?thesis by blast
qed

theorem load_after_save_witness:
  "\<exists>d'. config_save sample_os (config_default Map.empty) Map.empty = (d', Inr ()) \<and>
     load_or_create (\<lambda>_. Inr (config_default Map.empty)) sample_os d' = (d', Inr (config_default Map.empty))"
proof -
  obtain d' where save: "config_save sample_os (config_default Map.empty) Map.empty = (d', Inr ())"
    by (simp add: config_save_def sample_os_def app_dir_def save_ops_def Let_def)
  have v: "schema_version (config_default Map.empty) = CONFIG_SCHEMA_VERSION"
    by (simp add: config_default_def)
  have "load_or_create (\<lambda>_. Inr (config_default Map.empty)) sample_os d' = (d', Inr (config_default Map.empty))"
    using load_after_save [OF sample_os_path _ v _ _ save, where de = "\<lambda>_. Inr (config_default Map.empty)" and before = Map.empty]
    by (simp add: sample_os_def)
  with save show ?thesis by blast
qed

end
