(* ===== verification/Lcp_Texts.thy ===== *)
theory Lcp_Texts
  imports Lcp_Consent Lcp_Config
begin

text \<open>
  Where the texts of \<open>lcp\<close> go: \<open>send\<close> passes on exactly the text it was given and refuses a bad one
  without contacting the daemon, and nothing is put on the clipboard but what the daemon answered.
\<close>

section \<open>Sending\<close>

text \<open>\<open>t\<close> is the text that \<open>send\<close> was told to send.\<close>

definition text_given :: "bool \<Rightarrow> string option \<Rightarrow> act list \<Rightarrow> string \<Rightarrow> bool" where
  "text_given use_stdin arg h t \<longleftrightarrow>
     (if use_stdin then \<exists>n bs. Got_stdin n (Inr bs) \<in> set h \<and> utf8_valid (map unat bs) \<and>
        t = map (\<lambda>b. char_of (unat b)) bs
      else case arg of Some t' \<Rightarrow> t = t' | None \<Rightarrow> Clipboard_read (Inr t) \<in> set h)"

definition sendable_text :: "string \<Rightarrow> bool" where
  "sendable_text t \<longleftrightarrow> t \<noteq> [] \<and> length t \<le> MAX_TEXT_BYTES"

definition contacts :: "act \<Rightarrow> bool" where
  "contacts a \<longleftrightarrow> connecting a \<or> (\<exists>m p r. a = Called m p r)"

definition sends_given :: "string \<Rightarrow> bool \<Rightarrow> string option \<Rightarrow> act list \<Rightarrow> act \<Rightarrow> bool" where
  "sends_given peer use_stdin arg h a \<longleftrightarrow>
     (contacts a \<longrightarrow> (\<exists>t. text_given use_stdin arg h t \<and> sendable_text t \<and>
        (\<forall>m p r. a = Called m p r \<longrightarrow>
           m = SEND_TEXT \<and> p = JObj [(''peer'', JStr peer), (''text'', JStr t)] \<and>
           (\<forall>m' p' r'. Called m' p' r' \<notin> set h))))"

definition sent_ok :: "bool \<Rightarrow> string option \<Rightarrow> act list \<Rightarrow> int \<Rightarrow> bool" where
  "sent_ok use_stdin arg h n \<longleftrightarrow>
     (n = SUCCESS \<longrightarrow>
       (\<exists>s p rs h' v. h = Did_out s # Called SEND_TEXT p (Some rs) # h' \<and> unwrap_response rs = Inr v)) \<and>
     (\<forall>t. \<not> use_stdin \<and> arg = Some t \<and> \<not> sendable_text t \<longrightarrow>
        n = (if t = [] then INVALID_ARGS else LIMIT_EXCEEDED_CODE))"

lemma contacts_simps [simp]: "contacts (Called m p r)" "\<not> contacts (Did_out s)"
  "\<not> contacts (Did_err s)" "\<not> contacts (Got_stdin n b)" "\<not> contacts (Clipboard_read cr)"
  by (simp_all add: contacts_def)

lemma sends_given_silent [simp]: "\<not> contacts a \<Longrightarrow> sends_given peer s arg h a"
  by (simp add: sends_given_def)

lemma text_given_later: "text_given s arg h t \<Longrightarrow> text_given s arg (h' @ h) t"
  by (auto simp: text_given_def split: if_splits option.splits)

lemma sends_given_connecting:
  "text_given s arg h t \<Longrightarrow> sendable_text t \<Longrightarrow> connecting a \<Longrightarrow> sends_given peer s arg h a"
  by (auto simp: sends_given_def)

lemma sends_given_call:
  "text_given s arg h t \<Longrightarrow> sendable_text t \<Longrightarrow> list_all (\<lambda>a. \<not> (\<exists>m p r. a = Called m p r)) h \<Longrightarrow>
   sends_given peer s arg h (Called SEND_TEXT (JObj [(''peer'', JStr peer), (''text'', JStr t)]) r)"
  by (auto simp: sends_given_def list_all_iff)

lemma sent_ok_failed:
  "n \<noteq> SUCCESS \<Longrightarrow> text_given s arg h t \<Longrightarrow> sendable_text t \<Longrightarrow> sent_ok s arg h' n"
  by (auto simp: sent_ok_def text_given_def)

lemma sent_ok_success:
  "text_given s arg h t \<Longrightarrow> sendable_text t \<Longrightarrow> unwrap_response rs = Inr v \<Longrightarrow>
   sent_ok s arg (Did_out m # Called SEND_TEXT p (Some rs) # h') SUCCESS"
  by (auto simp: sent_ok_def text_given_def)

lemma exit_code_for_failed [simp]: "exit_code_for e \<noteq> SUCCESS"
  by (simp add: exit_code_for_def exit_codes Let_def)

lemma one_failed [simp]: "1 \<noteq> SUCCESS"
  by (simp add: SUCCESS_def)

lemma csafe_send_this:
  assumes "text_given s arg h t" and "list_all (\<lambda>a. \<not> (\<exists>m p r. a = Called m p r)) h"
  shows "csafe (sends_given peer s arg) (sent_ok s arg) (send_this peer t) I h"
proof (cases "sendable_text t")
  case True
  have uncalled: "list_all (\<lambda>a. \<not> (\<exists>m p r. a = Called m p r)) (h' @ h)" if "list_all connecting h'" for h'
    using that assms(2) by (auto simp: list_all_iff connecting_def)
  have failed: "n \<noteq> SUCCESS \<Longrightarrow> sent_ok s arg k n" for k n
    using sent_ok_failed [OF _ assms(1) True] .
  have success: "unwrap_response rs = Inr v \<Longrightarrow>
      sent_ok s arg (Did_out m # Called SEND_TEXT p (Some rs) # k) SUCCESS" for rs v m p k
    using sent_ok_success [OF assms(1) True] .
  have "csafe (sends_given peer s arg) (sent_ok s arg)
    (with_daemon (call SEND_TEXT (JObj [(''peer'', JStr peer), (''text'', JStr t)]) (\<lambda>resp.
       case unwrap_response resp of
         Inr _ \<Rightarrow> println (''Sent to '' @ peer @ ''.'') (Exit SUCCESS)
       | Inl e \<Rightarrow> report e (exit_code_for e)))) I h"
  proof (rule csafe_with_daemon)
    fix h' a
    assume "list_all connecting h'" and "connecting a"
    then show "sends_given peer s arg (h' @ h) a"
      using text_given_later [OF assms(1)] True by (blast intro: sends_given_connecting)
  next
    fix h'
    assume h': "list_all connecting h'"
    have "sends_given peer s arg (h' @ h) (Called SEND_TEXT (JObj [(''peer'', JStr peer), (''text'', JStr t)]) r)"
      for r
      using sends_given_call [OF text_given_later [OF assms(1)] True uncalled [OF h']] .
    then show "csafe (sends_given peer s arg) (sent_ok s arg)
      (call SEND_TEXT (JObj [(''peer'', JStr peer), (''text'', JStr t)]) (\<lambda>resp.
         case unwrap_response resp of
           Inr _ \<Rightarrow> println (''Sent to '' @ peer @ ''.'') (Exit SUCCESS)
         | Inl e \<Rightarrow> report e (exit_code_for e))) I (h' @ h)"
      by (simp add: Let_def failed success split: sum.splits)
  next
    fix h' e
    show "csafe (sends_given peer s arg) (sent_ok s arg) (Fail e) I (h' @ h)"
      by (simp add: Let_def failed)
  qed
  with True show ?thesis by (simp add: send_this_def sendable_text_def)
next
  case False
  with assms(1) show ?thesis
    by (auto simp: send_this_def sendable_text_def sent_ok_def text_given_def exit_codes split: if_splits)
qed

lemma text_given_intros:
  "utf8_valid (map unat bs) \<Longrightarrow>
     text_given True arg (Got_stdin n (Inr bs) # h) (map (\<lambda>b. char_of (unat b)) bs)"
  "text_given False (Some t) h t"
  "text_given False None (Clipboard_read (Inr t) # h) t"
  by (auto simp: text_given_def)

lemma refused: "sent_ok True arg h INVALID_ARGS" "sent_ok False None h INVALID_ARGS"
  by (simp_all add: sent_ok_def exit_codes)

lemma csafe_send_run:
  "csafe (sends_given peer use_stdin arg) (sent_ok use_stdin arg) (send_run peer use_stdin arg) (\<lambda>_. False) []"
  by (cases use_stdin; cases arg)
    (simp_all add: send_run_def read_stdin_capped_def csafe_send_this text_given_intros
       refused Let_def split: sum.splits)

text \<open>
  C12.  \<open>lcp send\<close> passes on exactly the text it was told to send -- the bytes of the standard input,
  which have to be UTF-8, the argument, or the clipboard -- to the peer of the command line, in one
  request, and contacts the daemon only when the text is neither empty nor over 5 MiB.  It ends
  with success only when the daemon answered that request positively.
\<close>

theorem send_exact:
  assumes "exits (cli_main x json (Send peer use_stdin arg)) h n"
  shows "(\<forall>xs a ys. h = xs @ a # ys \<longrightarrow> sends_given peer use_stdin arg ys a) \<and> sent_ok use_stdin arg h n"
  using csafe_send_run assms exits_safe does_safe by (fastforce simp: exits_def does_def)

definition send_script :: "act list" where
  "send_script =
     [Got_stdin (MAX_TEXT_BYTES + 1) (Inr [104, 105]), Connected (Inr ()),
      Called SEND_TEXT (JObj [(''peer'', JStr ''ada''), (''text'', JStr ''hi'')]) (Some (ok_answer JNull)),
      Did_out (''Sent to '' @ ''ada'' @ ''.'' @ nl)]"

lemma send_script_exits: "exits (cli_main plain_env False (Send ''ada'' True None)) (rev send_script) 0"
proof -
  have "map char_of [104, 105 :: nat] = ''hi''" by code_simp
  then have "script 30 send_script (cli_main plain_env False (Send ''ada'' True None))
      (cli_main plain_env False (Send ''ada'' True None)) = Some (Exit 0)"
    by (simp add: send_script_def send_run_def read_stdin_capped_def send_this_def cli_defs Let_def
        script_numeral MAX_TEXT_BYTES_def SUCCESS_def)
  from script_exits [OF this] show ?thesis .
qed

lemma send_exact_witness:
  "sends_given ''ada'' True None [Connected (Inr ()), Got_stdin (MAX_TEXT_BYTES + 1) (Inr [104, 105])]
     (Called SEND_TEXT (JObj [(''peer'', JStr ''ada''), (''text'', JStr ''hi'')]) (Some (ok_answer JNull))) \<and>
   sent_ok True None (rev send_script) 0"
  using send_exact [OF send_script_exits] by (simp add: send_script_def)

section \<open>The clipboard\<close>

text \<open>The message of an answer with text \<open>t\<close>.\<close>

definition has_text :: "json \<Rightarrow> string \<Rightarrow> bool" where
  "has_text v t \<longleftrightarrow> t = str_field v ''text'' []"

text \<open>
  \<open>t\<close> comes from the daemon's answer to the last request: the latest message for \<open>copy\<close>, the
  message that was chosen for \<open>pick\<close>, the ticket for \<open>invite\<close>.
\<close>

definition clip_source :: "command \<Rightarrow> act list \<Rightarrow> string \<Rightarrow> bool" where
  "clip_source cmd h t \<longleftrightarrow>
     (\<exists>p rs v h'. unwrap_response rs = Inr v \<and>
        (h = Called GET_LATEST_INCOMING p (Some rs) # h' \<and>
           (\<exists>peer inc. cmd = Copy peer False inc) \<and> has_text v t \<or>
         h = Picked (Inr (Selected t)) # Called LIST_MESSAGES p (Some rs) # h' \<and>
           (\<exists>peer inc. cmd = Pick peer inc \<or> cmd = Copy peer True inc) \<and>
           (\<exists>m \<in> set (unwrap_or (as_array v) []). has_text m t) \<or>
         h = Called CREATE_INVITE p (Some rs) # h' \<and>
           (\<exists>ttl. cmd = Invite ttl False) \<and> t = str_field v ''ticket'' []))"

definition on_clipboard :: "command \<Rightarrow> act list \<Rightarrow> act \<Rightarrow> bool" where
  "on_clipboard cmd h a = (case a of Clipboard_written t r \<Rightarrow> clip_source cmd h t | _ \<Rightarrow> True)"

lemma on_clipboard_simps [simp]: "on_clipboard c h (Clipboard_written s w) = clip_source c h s"
  "on_clipboard c h (Called m p r)"
  "on_clipboard c h (Did_out s)" "on_clipboard c h (Did_err s)" "on_clipboard c h (Printed v)"
  "on_clipboard c h (Wrote_stdout s w)" "on_clipboard c h (Got_line l)" "on_clipboard c h (Got_stdin n b)"
  "on_clipboard c h (Is_terminal q)" "on_clipboard c h (Clipboard_read cr)"
  "on_clipboard c h (Connected w)" "on_clipboard c h (Spawned_daemon w)" "on_clipboard c h (Slept n)"
  "on_clipboard c h (Time n)" "on_clipboard c h (Got_event e)" "on_clipboard c h (Picked o')"
  "on_clipboard c h (Autostart_set q w)"
  by (simp_all add: on_clipboard_def)

interpretation clip: act_rule "on_clipboard cmd" for cmd
  by unfold_locales (auto simp: connecting_def)

abbreviation clips :: "command \<Rightarrow> cli \<Rightarrow> act list \<Rightarrow> bool" where
  "clips cmd c h \<equiv> csafe (on_clipboard cmd) any_exit c (\<lambda>_. False) h"

lemma clip_copy: "clips (Copy who False inc) (copy_run who) h"
  unfolding copy_run_def
  by (rule clip.connect) (auto simp: Let_def clip_source_def has_text_def split: sum.splits)

lemma clip_pick:
  assumes "\<exists>who inc. cmd = Pick who inc \<or> cmd = Copy who True inc"
  shows "clips cmd (pick_run peer inc) h"
proof -
  have "\<exists>m \<in> set ms. has_text m t" if "picker_may_return (map message_row ms) (Inr (Selected t))" for ms t
    using picker_selected [OF that] by (auto simp: has_text_def message_row_def)
  with assms show ?thesis
    unfolding pick_run_def
    by (auto simp: Let_def pick_outcome_run_def clip_source_def split: sum.splits pick_outcome.splits
        intro!: clip.connect)
qed

lemma clip_invite: "clips (Invite ttl nc) (invite_run x ttl nc) h"
proof -
  have "clips c (invite_wait x) h" for c h
    unfolding invite_wait_def
    by (rule clip.loop) (auto simp: Let_def lost_connection_def clip.result split: option.splits)
  then show ?thesis
    unfolding invite_run_def
    by (auto simp: Let_def clip_source_def split: sum.splits intro!: clip.connect)
qed

lemma clip_pair: "clips (Pair ticket) (pair_run x ticket) h"
proof -
  have "clips c (pair_wait i) h" for c i h
    unfolding pair_wait_def
    by (rule clip.loop) (auto simp: lost_connection_def clip.result split: option.splits)
  then show ?thesis
    unfolding pair_run_def by (auto simp: Let_def split: sum.splits intro!: clip.connect)
qed

lemma clip_queries:
  "clips cmd (status_run json) h" "clips cmd (peers_run json) h" "clips cmd (peers_rename peer a) h"
  "clips cmd (fetch_run who json) h" "clips cmd (config_get x key json) h" "clips cmd (config_set key v) h"
  unfolding status_run_def peers_run_def peers_rename_def fetch_run_def config_get_def config_set_def
  by (auto simp: Let_def split: sum.splits
      intro!: clip.connect clip.autostart clip.foldr_prints prints_println prints_id)

lemma clip_list: "clips cmd (config_list x json) h"
  unfolding config_list_def
  by (auto simp: Let_def split: sum.splits intro!: clip.connect clip.foldr_prints prints_skip)

lemma clip_removals: "clips cmd (unpair_run x peer yes) h" "clips cmd (config_reset x yes json) h"
  unfolding unpair_run_def config_reset_def
  by (auto simp: Let_def split: sum.splits intro!: clip.connect)

lemma clip_send: "clips cmd (send_run peer s t) h"
proof -
  have "clips cmd (send_this peer t) h" for t h
    by (auto simp: send_this_def Let_def split: sum.splits intro!: clip.connect)
  then show ?thesis
    by (cases s; cases t) (auto simp: send_run_def read_stdin_capped_def split: sum.splits)
qed

lemma clip_daemon:
  "clips cmd daemon_status h" "clips cmd daemon_start h" "clips cmd daemon_stop h"
  "clips cmd daemon_restart h" "clips cmd daemon_install h" "clips cmd daemon_uninstall h"
  "clips cmd (doctor_run json) h"
  unfolding daemon_status_def daemon_stop_def daemon_restart_def daemon_install_def
    daemon_uninstall_def doctor_run_def
  by (auto simp: Let_def clip.start clip.report_checks split: sum.splits intro!: clip.stop)

lemma command_clips: "clips cmd (cli_main x json cmd) []"
  by (cases "(x, json, cmd)" rule: cli_main.cases)
    (simp_all add: clip_copy clip_pick clip_invite clip_pair clip_queries clip_list clip_removals
       clip_send clip_daemon)

text \<open>
  C22.  What a command of \<open>lcp\<close> puts on the clipboard is, byte for byte, what the daemon has just
  answered: the text of the latest message for \<open>copy\<close>, the whole text of one of the listed messages,
  the one chosen in the picker, for \<open>pick\<close> and \<open>copy --list\<close>, and the ticket for \<open>invite\<close> without
  \<open>--no-copy\<close>.  No other command writes the clipboard.
\<close>

theorem clipboard_exact:
  assumes "does (cli_main x json cmd) (xs @ Clipboard_written t r # ys)"
  shows "clip_source cmd ys t"
  using does_safe [OF assms command_clips refl] by simp

definition copy_script :: "act list" where
  "copy_script =
     [Connected (Inr ()),
      Called GET_LATEST_INCOMING (JObj [])
        (Some (ok_answer (JObj [(''text'', JStr ''hi'')]))),
      Clipboard_written ''hi'' (Inr ())]"

lemma copy_script_does:
  "does (cli_main plain_env False (Copy None False False))
     ([] @ Clipboard_written ''hi'' (Inr ()) # rev (butlast copy_script))"
proof -
  have "script 30 copy_script (cli_main plain_env False (Copy None False False))
      (cli_main plain_env False (Copy None False False)) \<noteq> None"
    by (simp add: copy_script_def copy_run_def cli_defs peer_params_def str_field_def script_numeral)
  from script_does [OF this] show ?thesis by (simp add: copy_script_def)
qed

lemma clipboard_exact_witness:
  "clip_source (Copy None False False) (rev (butlast copy_script)) ''hi''"
  by (rule clipboard_exact [OF copy_script_does])

end
