(* ===== verification/Lcp_Ticket.thy ===== *)
theory Lcp_Ticket
  imports Lcp_Wire
begin

text \<open>
  Pairing tickets (\<open>lcp-protocol/src/ticket.rs\<close>).  Postcard (\<open>ser\<close>, \<open>de\<close>) and the URL-safe
  base64 engine (\<open>b64e\<close>, \<open>b64d\<close>) are third-party code and arguments of the model.  The lemmas
  give the round trip of a ticket through its text, the exact condition under which a text is
  accepted, and the bounds of the clamped time to live.
\<close>

definition TICKET_PREFIX :: string where
  "TICKET_PREFIX = ''lcp1_''"

definition CURRENT_TICKET_VERSION :: u8 where
  "CURRENT_TICKET_VERSION = 1"

definition MIN_INVITE_TTL_SECS :: u64 where
  "MIN_INVITE_TTL_SECS = 60"

definition MAX_INVITE_TTL_SECS :: u64 where
  "MAX_INVITE_TTL_SECS = 900"

definition DEFAULT_INVITE_TTL_SECS :: u64 where
  "DEFAULT_INVITE_TTL_SECS = 300"

definition MAX_TICKET_TEXT_BYTES :: nat where
  "MAX_TICKET_TEXT_BYTES = 8 * 1024"

record pairing_ticket =
  pt_version :: u8
  pt_endpoint_ticket :: string
  pt_invite_secret :: bytes
  pt_expires_at_unix_ms :: int
  pt_inviter_display_name :: string
  pt_inviter_device_name :: string

definition ticket_new :: "string \<Rightarrow> bytes \<Rightarrow> int \<Rightarrow> string \<Rightarrow> string \<Rightarrow> pairing_ticket" where
  "ticket_new endpoint_ticket secret expires display device =
     \<lparr>pt_version = CURRENT_TICKET_VERSION, pt_endpoint_ticket = endpoint_ticket,
      pt_invite_secret = secret, pt_expires_at_unix_ms = expires,
      pt_inviter_display_name = display, pt_inviter_device_name = device\<rparr>"

definition ticket_encode ::
  "(pairing_ticket \<Rightarrow> string + bytes) \<Rightarrow> (bytes \<Rightarrow> string) \<Rightarrow> pairing_ticket \<Rightarrow> protocol_error + string" where
  "ticket_encode ser b64e t =
     (case ser t of
        Inl e \<Rightarrow> Inl (Serialization e)
      | Inr bs \<Rightarrow> Inr (TICKET_PREFIX @ b64e bs))"

definition strip_prefix :: "string \<Rightarrow> string \<Rightarrow> string option" where
  "strip_prefix p s = (if prefix p s then Some (drop (length p) s) else None)"

definition ticket_decode ::
  "(bytes \<Rightarrow> pairing_ticket option) \<Rightarrow> (string \<Rightarrow> bytes option) \<Rightarrow> string \<Rightarrow> protocol_error + pairing_ticket" where
  "ticket_decode de b64d text =
     (if length text > MAX_TICKET_TEXT_BYTES then Inl (InvalidTicket ''ticket text too large'')
      else case strip_prefix TICKET_PREFIX text of
        None \<Rightarrow> Inl (InvalidTicket ''missing lcp1_ prefix'')
      | Some payload \<Rightarrow>
          (case b64d payload of
             None \<Rightarrow> Inl (InvalidTicket ''invalid base64'')
           | Some bs \<Rightarrow>
               (case de bs of
                  None \<Rightarrow> Inl (InvalidTicket ''malformed ticket contents'')
                | Some t \<Rightarrow>
                    if pt_version t \<noteq> CURRENT_TICKET_VERSION
                    then Inl (InvalidTicket (''unsupported ticket version '' @ show_nat (unat (pt_version t))))
                    else Inr t)))"

definition ticket_is_expired :: "pairing_ticket \<Rightarrow> int \<Rightarrow> bool" where
  "ticket_is_expired t now_unix_ms \<longleftrightarrow> now_unix_ms \<ge> pt_expires_at_unix_ms t"

text \<open>\<open>u64::clamp\<close>\<close>

definition clamp_invite_ttl_secs :: "u64 \<Rightarrow> u64" where
  "clamp_invite_ttl_secs requested =
     (if requested < MIN_INVITE_TTL_SECS then MIN_INVITE_TTL_SECS
      else if requested > MAX_INVITE_TTL_SECS then MAX_INVITE_TTL_SECS
      else requested)"

lemma strip_prefix_append [simp]: "strip_prefix p (p @ s) = Some s"
  by (simp add: strip_prefix_def)

lemma strip_prefix_Some: "strip_prefix p s = Some r \<longleftrightarrow> s = p @ r"
  by (auto simp: strip_prefix_def prefix_def)

text \<open>What the ticket relies on from base64: decoding undoes encoding, on these bytes.\<close>

definition base64_ok :: "(bytes \<Rightarrow> string) \<Rightarrow> (string \<Rightarrow> bytes option) \<Rightarrow> bytes \<Rightarrow> bool" where
  "base64_ok b64e b64d bs \<longleftrightarrow> b64d (b64e bs) = Some bs"

text \<open>
  A ticket built by \<open>new\<close> and encoded decodes to itself, unless its text is over the 8 KiB
  bound, in which case the decoder rejects it before it decodes anything.
\<close>

theorem ticket_round_trip:
  assumes "postcard_ok ser de t" and "\<And>bs. ser t = Inr bs \<Longrightarrow> base64_ok b64e b64d bs"
    and "t = ticket_new endpoint_ticket secret expires display device"
    and "ticket_encode ser b64e t = Inr text"
  shows "ticket_decode de b64d text =
    (if length text > MAX_TICKET_TEXT_BYTES then Inl (InvalidTicket ''ticket text too large'')
     else Inr t)"
proof -
  obtain bs where ser: "ser t = Inr bs" and eq: "text = TICKET_PREFIX @ b64e bs"
    using assms(4) by (auto simp: ticket_encode_def split: sum.splits)
  have "de bs = Some t" and "b64d (b64e bs) = Some bs"
    using assms(1,2) ser by (auto simp: postcard_ok_def base64_ok_def)
  moreover have "pt_version t = CURRENT_TICKET_VERSION"
    by (simp add: assms(3) ticket_new_def)
  ultimately show ?thesis by (simp add: ticket_decode_def eq)
qed

definition sample_ticket :: pairing_ticket where
  "sample_ticket = ticket_new ''blob'' (replicate 32 7) 1800000000000 ''First'' ''First-PC''"

theorem ticket_round_trip_witness:
  "ticket_encode (\<lambda>_. Inr [9]) (\<lambda>_. ''CQ'') sample_ticket = Inr ''lcp1_CQ'' \<and>
   ticket_decode (\<lambda>_. Some sample_ticket) (\<lambda>_. Some [9]) ''lcp1_CQ'' = Inr sample_ticket"
proof -
  have enc: "ticket_encode (\<lambda>_. Inr [9]) (\<lambda>_. ''CQ'') sample_ticket = Inr ''lcp1_CQ''"
    by (simp add: ticket_encode_def TICKET_PREFIX_def)
  have pc: "postcard_ok (\<lambda>_. Inr [9]) (\<lambda>_. Some sample_ticket) sample_ticket"
    by (simp add: postcard_ok_def)
  have b64: "base64_ok (\<lambda>_. ''CQ'') (\<lambda>_. Some [9]) bs" if "Inr [9] = (Inr bs :: string + bytes)" for bs
    using that by (simp add: base64_ok_def)
  from ticket_round_trip [OF pc b64 sample_ticket_def enc] enc show ?thesis
    by (simp add: MAX_TICKET_TEXT_BYTES_def)
qed

text \<open>
  The decoder accepts a text exactly when it is at most 8 KiB, starts with \<open>lcp1_\<close>, the rest
  is base64 of a serialized ticket, and that ticket has the current version: unknown versions,
  malformed input and oversized tickets are all rejected.
\<close>

theorem ticket_decode_accepts_iff:
  "ticket_decode de b64d text = Inr t \<longleftrightarrow>
     length text \<le> MAX_TICKET_TEXT_BYTES \<and>
     (\<exists>payload bs. text = TICKET_PREFIX @ payload \<and> b64d payload = Some bs \<and> de bs = Some t) \<and>
     pt_version t = CURRENT_TICKET_VERSION"
proof -
  have "ticket_decode de b64d text = Inr t \<longleftrightarrow>
      length text \<le> MAX_TICKET_TEXT_BYTES \<and>
      (\<exists>payload bs. strip_prefix TICKET_PREFIX text = Some payload \<and> b64d payload = Some bs \<and> de bs = Some t) \<and>
      pt_version t = CURRENT_TICKET_VERSION"
    by (auto simp: ticket_decode_def split: option.splits)
  then show ?thesis by (simp add: strip_prefix_Some)
qed

lemma clamp_invite_ttl_secs_bounds:
  "MIN_INVITE_TTL_SECS \<le> clamp_invite_ttl_secs r" "clamp_invite_ttl_secs r \<le> MAX_INVITE_TTL_SECS"
  by (auto simp: clamp_invite_ttl_secs_def MIN_INVITE_TTL_SECS_def MAX_INVITE_TTL_SECS_def)

lemma clamp_invite_ttl_secs_unat:
  "60 \<le> unat (clamp_invite_ttl_secs r)" "unat (clamp_invite_ttl_secs r) \<le> 900"
  using clamp_invite_ttl_secs_bounds [of r]
  by (simp_all add: MIN_INVITE_TTL_SECS_def MAX_INVITE_TTL_SECS_def word_le_nat_alt)

lemma clamp_invite_ttl_secs_within:
  "MIN_INVITE_TTL_SECS \<le> r \<Longrightarrow> r \<le> MAX_INVITE_TTL_SECS \<Longrightarrow> clamp_invite_ttl_secs r = r"
  by (simp add: clamp_invite_ttl_secs_def not_less [symmetric])

end
