(* ===== verification/Lcp_Conversation.thy ===== *)
theory Lcp_Conversation
  imports Lcp_Prelude "HOL-Library.Multiset"
begin

text \<open>
  The in-memory message store (\<open>lcp-core/src/conversation.rs\<close>): histories bounded per peer, the
  latest incoming message per peer and overall, and the bounded cache of message ids that
  recognizes retries.  The contract of the cache is the locale \<open>bounded_seen\<close>.  A hash map is a
  map; where the sources iterate over one, the unspecified order is an argument.  The clock that
  \<open>record_outgoing\<close> reads is the argument \<open>now\<close>, the index limits are \<open>nat\<close> (\<open>usize\<close>), and
  the receive sequence is a 64-bit word.
\<close>

definition DEDUP_CACHE_CAPACITY :: nat where
  "DEDUP_CACHE_CAPACITY = 10000"

datatype direction = Incoming | Outgoing

datatype message_status = Sending | Sent | Received | Failed

record stored_message =
  sm_id :: uuid
  sm_peer_id :: string
  sm_direction :: direction
  sm_sender_label :: string
  sm_text :: string
  sm_sent_at_unix_ms :: int
  sm_received_at_unix_ms :: int
  sm_receive_sequence :: "u64 option"
  sm_status :: message_status

record conversation =
  messages :: "stored_message list"
  latest_incoming :: "uuid option"

definition conversation_default :: conversation where
  "conversation_default = \<lparr>messages = [], latest_incoming = None\<rparr>"

datatype record_outcome = Accepted | DuplicateMessage

section \<open>The cache of seen message ids\<close>

record 'k bounded_dedup_cache =
  dc_order :: "'k list"
  dc_seen :: "'k set"
  dc_capacity :: nat

definition dedup_new :: "nat \<Rightarrow> 'k bounded_dedup_cache" where
  "dedup_new cap = \<lparr>dc_order = [], dc_seen = {}, dc_capacity = cap\<rparr>"

definition dedup_contains :: "'k bounded_dedup_cache \<Rightarrow> 'k \<Rightarrow> bool" where
  "dedup_contains d k \<longleftrightarrow> k \<in> dc_seen d"

definition dedup_insert :: "'k bounded_dedup_cache \<Rightarrow> 'k \<Rightarrow> 'k bounded_dedup_cache" where
  "dedup_insert d k =
     (if k \<in> dc_seen d then d
      else let d1 = d\<lparr>dc_seen := insert k (dc_seen d), dc_order := dc_order d @ [k]\<rparr>
           in if length (dc_order d1) > dc_capacity d1
              then case dc_order d1 of
                     [] \<Rightarrow> d1
                   | oldest # rest \<Rightarrow> d1\<lparr>dc_order := rest, dc_seen := dc_seen d1 - {oldest}\<rparr>
              else d1)"

text \<open>
  The contract of a cache of recently seen keys: it answers membership in the list of the most
  recent distinct keys, and an insertion of a new key pushes the oldest one out when the list
  would be longer than its capacity.
\<close>

locale bounded_seen =
  fixes mem :: "'s \<Rightarrow> 'k \<Rightarrow> bool"
    and ins :: "'s \<Rightarrow> 'k \<Rightarrow> 's"
    and recent :: "'s \<Rightarrow> 'k list"
    and cap :: "'s \<Rightarrow> nat"
    and ok :: "'s \<Rightarrow> bool"
  assumes mem_iff: "ok s \<Longrightarrow> mem s k \<longleftrightarrow> k \<in> set (recent s)"
    and ok_ins: "ok s \<Longrightarrow> ok (ins s k)"
    and ok_bound: "ok s \<Longrightarrow> distinct (recent s) \<and> length (recent s) \<le> cap s \<and> 0 < cap s"
    and cap_ins: "ok s \<Longrightarrow> cap (ins s k) = cap s"
    and ins_old: "ok s \<Longrightarrow> k \<in> set (recent s) \<Longrightarrow> recent (ins s k) = recent s"
    and ins_new: "ok s \<Longrightarrow> k \<notin> set (recent s) \<Longrightarrow>
      recent (ins s k) = drop (Suc (length (recent s)) - cap s) (recent s @ [k])"
begin

definition age :: "'s \<Rightarrow> 'k \<Rightarrow> nat \<Rightarrow> bool" where
  "age s k n \<longleftrightarrow> (\<exists>xs ys. recent s = xs @ k # ys \<and> length ys \<le> n)"

lemma age_mem: "ok s \<Longrightarrow> age s k n \<Longrightarrow> mem s k"
  by (auto simp: mem_iff age_def)

lemma age_ins_same: "ok s \<Longrightarrow> \<not> mem s k \<Longrightarrow> age (ins s k) k 0"
  using ok_bound [of s] by (auto simp: mem_iff age_def ins_new)

lemma age_ins:
  assumes "ok s" and "age s k n" and "Suc n < cap s"
  shows "age (ins s j) k (Suc n)"
proof -
  obtain xs ys where r: "recent s = xs @ k # ys" and n: "length ys \<le> n"
    using assms(2) by (auto simp: age_def)
  show ?thesis
  proof (cases "j \<in> set (recent s)")
    case True
    then have "recent (ins s j) = xs @ k # ys"
      by (simp only: ins_old [OF assms(1) True] r)
    with n show ?thesis unfolding age_def by (intro exI [of _ xs] exI [of _ ys]) simp
  next
    case False
    let ?d = "Suc (length (recent s)) - cap s"
    have "recent (ins s j) = drop ?d (xs @ k # (ys @ [j]))"
      using ins_new [OF assms(1) False] by (simp add: r)
    also have "\<dots> = drop ?d xs @ k # (ys @ [j])"
      using assms(3) n by (simp add: r)
    finally show ?thesis
      using n unfolding age_def by (intro exI [of _ "drop ?d xs"] exI [of _ "ys @ [j]"]) simp
  qed
qed

text \<open>A key stays known until as many insertions as the capacity came after its own.\<close>

lemma ok_foldl: "ok s \<Longrightarrow> ok (foldl ins s ks)"
  by (induction ks arbitrary: s) (simp_all add: ok_ins)

lemma age_foldl:
  "ok s \<Longrightarrow> age s k n \<Longrightarrow> n + length ks < cap s \<Longrightarrow> age (foldl ins s ks) k (n + length ks)"
proof (induction ks arbitrary: s n)
  case Nil
  then show ?case by simp
next
  case (Cons j ks)
  have "age (ins s j) k (Suc n)"
    using Cons.prems by (intro age_ins) simp_all
  with Cons.IH [of "ins s j" "Suc n"] Cons.prems show ?case by (simp add: ok_ins cap_ins)
qed

end

definition dedup_ok :: "'k bounded_dedup_cache \<Rightarrow> bool" where
  "dedup_ok d \<longleftrightarrow> distinct (dc_order d) \<and> dc_seen d = set (dc_order d) \<and>
     length (dc_order d) \<le> dc_capacity d \<and> 0 < dc_capacity d"

lemma dedup_ok_new: "0 < cap \<Longrightarrow> dedup_ok (dedup_new cap)"
  by (simp add: dedup_ok_def dedup_new_def)

lemma dedup_insert_old: "k \<in> dc_seen d \<Longrightarrow> dedup_insert d k = d"
  by (simp add: dedup_insert_def)

lemma dedup_insert_new:
  assumes "dedup_ok d" and "k \<notin> dc_seen d"
  shows "dc_order (dedup_insert d k) = drop (Suc (length (dc_order d)) - dc_capacity d) (dc_order d @ [k])"
    (is ?order) and "dedup_ok (dedup_insert d k)" and "dc_capacity (dedup_insert d k) = dc_capacity d"
proof -
  have ok: "distinct (dc_order d)" "dc_seen d = set (dc_order d)" "length (dc_order d) \<le> dc_capacity d"
      "0 < dc_capacity d"
    using assms(1) by (simp_all add: dedup_ok_def)
  have "?order \<and> dedup_ok (dedup_insert d k) \<and> dc_capacity (dedup_insert d k) = dc_capacity d"
  proof (cases "length (dc_order d) = dc_capacity d")
    case True
    then obtain oldest rest where r: "dc_order d = oldest # rest"
      using ok(4) by (cases "dc_order d") auto
    have "dedup_insert d k =
        d\<lparr>dc_order := rest @ [k], dc_seen := insert k (dc_seen d) - {oldest}\<rparr>"
      using assms(2) True r by (simp add: dedup_insert_def Let_def)
    then show ?thesis
      using ok assms(2) True r by (auto simp: dedup_ok_def)
  next
    case False
    then have "dedup_insert d k = d\<lparr>dc_seen := insert k (dc_seen d), dc_order := dc_order d @ [k]\<rparr>"
      using assms(2) ok(3) by (simp add: dedup_insert_def Let_def)
    then show ?thesis
      using ok assms(2) False by (simp add: dedup_ok_def)
  qed
  then show ?order and "dedup_ok (dedup_insert d k)"
    and "dc_capacity (dedup_insert d k) = dc_capacity d" by blast+
qed

interpretation dedup: bounded_seen dedup_contains dedup_insert dc_order dc_capacity dedup_ok
proof unfold_locales
  fix d :: "'k bounded_dedup_cache" and k
  assume ok: "dedup_ok d"
  show "dedup_contains d k \<longleftrightarrow> k \<in> set (dc_order d)"
    using ok by (simp add: dedup_contains_def dedup_ok_def)
  show "dedup_ok (dedup_insert d k)"
    using ok by (cases "k \<in> dc_seen d") (simp_all add: dedup_insert_old dedup_insert_new)
  show "distinct (dc_order d) \<and> length (dc_order d) \<le> dc_capacity d \<and> 0 < dc_capacity d"
    using ok by (simp add: dedup_ok_def)
  show "dc_capacity (dedup_insert d k) = dc_capacity d"
    using ok by (cases "k \<in> dc_seen d") (simp_all add: dedup_insert_old dedup_insert_new)
  show "dc_order (dedup_insert d k) = dc_order d" if "k \<in> set (dc_order d)"
    using ok that by (simp add: dedup_insert_old dedup_ok_def)
  show "dc_order (dedup_insert d k) = drop (Suc (length (dc_order d)) - dc_capacity d) (dc_order d @ [k])"
    if "k \<notin> set (dc_order d)"
    using ok that by (intro dedup_insert_new) (simp_all add: dedup_ok_def)
qed

section \<open>The store\<close>

record conversation_store =
  conversations :: "string \<Rightarrow> conversation option"
  latest_global :: "(string \<times> uuid) option"
  dedup_cache :: "(string \<times> uuid) bounded_dedup_cache"
  next_receive_sequence :: u64
  history_limit_per_peer :: nat

definition store_new :: "nat \<Rightarrow> conversation_store" where
  "store_new limit =
     \<lparr>conversations = Map.empty, latest_global = None, dedup_cache = dedup_new DEDUP_CACHE_CAPACITY,
      next_receive_sequence = 0, history_limit_per_peer = limit\<rparr>"

text \<open>The loop of \<open>push_bounded\<close> pops from the front while the queue is too long.\<close>

fun pop_while_over :: "nat \<Rightarrow> 'a list \<Rightarrow> 'a list" where
  "pop_while_over limit [] = []"
| "pop_while_over limit (x # xs) =
     (if length (x # xs) > limit then pop_while_over limit xs else x # xs)"

definition push_bounded :: "'a list \<Rightarrow> 'a \<Rightarrow> nat \<Rightarrow> 'a list" where
  "push_bounded ms m limit = pop_while_over limit (ms @ [m])"

text \<open>\<open>entry(peer).or_default()\<close>\<close>

definition entry_or_default :: "conversation_store \<Rightarrow> string \<Rightarrow> conversation" where
  "entry_or_default s p = (case conversations s p of None \<Rightarrow> conversation_default | Some c \<Rightarrow> c)"

definition record_incoming ::
  "conversation_store \<Rightarrow> string \<Rightarrow> string \<Rightarrow> uuid \<Rightarrow> int \<Rightarrow> int \<Rightarrow> string
     \<Rightarrow> conversation_store \<times> record_outcome" where
  "record_incoming s p label i sent received t =
     (if dedup_contains (dedup_cache s) (p, i) then (s, DuplicateMessage)
      else
        let s1 = s\<lparr>dedup_cache := dedup_insert (dedup_cache s) (p, i)\<rparr>;
            receive_sequence = next_receive_sequence s1;
            s2 = s1\<lparr>next_receive_sequence := receive_sequence + 1\<rparr>;
            m = \<lparr>sm_id = i, sm_peer_id = p, sm_direction = Incoming, sm_sender_label = label,
                 sm_text = t, sm_sent_at_unix_ms = sent, sm_received_at_unix_ms = received,
                 sm_receive_sequence = Some receive_sequence, sm_status = Received\<rparr>;
            c = entry_or_default s2 p;
            c1 = c\<lparr>latest_incoming := Some i,
                   messages := push_bounded (messages c) m (history_limit_per_peer s2)\<rparr>
        in (s2\<lparr>conversations := (conversations s2)(p \<mapsto> c1), latest_global := Some (p, i)\<rparr>, Accepted))"

definition record_outgoing ::
  "conversation_store \<Rightarrow> string \<Rightarrow> uuid \<Rightarrow> string \<Rightarrow> message_status \<Rightarrow> int
     \<Rightarrow> conversation_store \<times> stored_message" where
  "record_outgoing s p i t st now =
     (let m = \<lparr>sm_id = i, sm_peer_id = p, sm_direction = Outgoing, sm_sender_label = ''You'',
               sm_text = t, sm_sent_at_unix_ms = now, sm_received_at_unix_ms = now,
               sm_receive_sequence = None, sm_status = st\<rparr>;
          c = entry_or_default s p;
          c1 = c\<lparr>messages := push_bounded (messages c) m (history_limit_per_peer s)\<rparr>
      in (s\<lparr>conversations := (conversations s)(p \<mapsto> c1)\<rparr>, m))"

definition update_outgoing_status ::
  "conversation_store \<Rightarrow> string \<Rightarrow> uuid \<Rightarrow> message_status \<Rightarrow> conversation_store" where
  "update_outgoing_status s p i st =
     (case conversations s p of
        None \<Rightarrow> s
      | Some c \<Rightarrow>
          s\<lparr>conversations := (conversations s)(p \<mapsto>
              c\<lparr>messages := update_first (\<lambda>m. sm_id m = i) (\<lambda>m. m\<lparr>sm_status := st\<rparr>) (messages c)\<rparr>)\<rparr>)"

definition latest_incoming_for :: "conversation_store \<Rightarrow> string \<Rightarrow> stored_message option" where
  "latest_incoming_for s p =
     (case conversations s p of
        None \<Rightarrow> None
      | Some c \<Rightarrow>
          (case latest_incoming c of None \<Rightarrow> None | Some i \<Rightarrow> find (\<lambda>m. sm_id m = i) (messages c)))"

definition latest_incoming_global :: "conversation_store \<Rightarrow> stored_message option" where
  "latest_incoming_global s =
     (case latest_global s of
        None \<Rightarrow> None
      | Some (p, i) \<Rightarrow>
          (case conversations s p of None \<Rightarrow> None | Some c \<Rightarrow> find (\<lambda>m. sm_id m = i) (messages c)))"

definition messages_for :: "conversation_store \<Rightarrow> string \<Rightarrow> stored_message list" where
  "messages_for s p = (case conversations s p of None \<Rightarrow> [] | Some c \<Rightarrow> messages c)"

definition message_for :: "conversation_store \<Rightarrow> string \<Rightarrow> uuid \<Rightarrow> stored_message option" where
  "message_for s p i = find (\<lambda>m. sm_id m = i) (messages_for s p)"

text \<open>\<open>keys\<close> is the order in which the hash map yields its values.\<close>

definition all_messages_newest_first :: "conversation_store \<Rightarrow> string list \<Rightarrow> stored_message list" where
  "all_messages_newest_first s keys =
     sort_key (\<lambda>m. - sm_received_at_unix_ms m) (concat (map (messages_for s) keys))"

definition set_history_limit :: "conversation_store \<Rightarrow> nat \<Rightarrow> conversation_store" where
  "set_history_limit s limit = s\<lparr>history_limit_per_peer := limit\<rparr>"

section \<open>Lemmas\<close>

lemma pop_while_over_drop: "pop_while_over limit xs = drop (length xs - limit) xs"
  by (induction xs) (auto simp: Suc_diff_le)

lemma push_bounded_drop: "push_bounded ms m limit = drop (Suc (length ms) - limit) (ms @ [m])"
  by (simp add: push_bounded_def pop_while_over_drop)

lemma length_push_bounded: "length (push_bounded ms m limit) = min limit (Suc (length ms))"
  by (simp add: push_bounded_drop)

lemma messages_for_entry: "messages (entry_or_default s p) = messages_for s p"
  by (simp add: entry_or_default_def messages_for_def conversation_default_def split: option.split)

lemma messages_for_record_incoming:
  "\<not> dedup_contains (dedup_cache s) (p, i) \<Longrightarrow>
   messages_for (fst (record_incoming s p label i sent received t)) q =
     (if q = p
      then push_bounded (messages_for s p)
             \<lparr>sm_id = i, sm_peer_id = p, sm_direction = Incoming, sm_sender_label = label, sm_text = t,
              sm_sent_at_unix_ms = sent, sm_received_at_unix_ms = received,
              sm_receive_sequence = Some (next_receive_sequence s), sm_status = Received\<rparr>
             (history_limit_per_peer s)
      else messages_for s q)"
  using messages_for_entry [of s p]
  by (simp add: record_incoming_def messages_for_def Let_def entry_or_default_def)

lemma messages_for_record_outgoing:
  "messages_for (fst (record_outgoing s p i t st now)) q =
     (if q = p
      then push_bounded (messages_for s p) (snd (record_outgoing s p i t st now)) (history_limit_per_peer s)
      else messages_for s q)"
  using messages_for_entry [of s p]
  by (simp add: record_outgoing_def messages_for_def Let_def)

lemma messages_for_update:
  "messages_for (update_outgoing_status s p i st) q =
     (if q = p then update_first (\<lambda>m. sm_id m = i) (\<lambda>m. m\<lparr>sm_status := st\<rparr>) (messages_for s p)
      else messages_for s q)"
  by (auto simp: update_outgoing_status_def messages_for_def split: option.split)

lemma messages_for_set_limit [simp]: "messages_for (set_history_limit s l) q = messages_for s q"
  by (simp add: set_history_limit_def messages_for_def)

section \<open>Runs of the store\<close>

datatype store_op =
    RecordIncoming string string uuid int int string
  | RecordOutgoing string uuid string message_status int
  | UpdateStatus string uuid message_status
  | SetLimit nat

fun store_step :: "conversation_store \<Rightarrow> store_op \<Rightarrow> conversation_store" where
  "store_step s (RecordIncoming p label i sent received t) = fst (record_incoming s p label i sent received t)"
| "store_step s (RecordOutgoing p i t st now) = fst (record_outgoing s p i t st now)"
| "store_step s (UpdateStatus p i st) = update_outgoing_status s p i st"
| "store_step s (SetLimit l) = set_history_limit s l"

abbreviation store_run :: "conversation_store \<Rightarrow> store_op list \<Rightarrow> conversation_store" where
  "store_run \<equiv> foldl store_step"

text \<open>The peer and message id an operation records, and the keys it offers to the cache.\<close>

fun op_key :: "store_op \<Rightarrow> (string \<times> uuid) option" where
  "op_key (RecordIncoming p label i sent received t) = Some (p, i)"
| "op_key (RecordOutgoing p i t st now) = Some (p, i)"
| "op_key _ = None"

fun op_seen :: "store_op \<Rightarrow> (string \<times> uuid) list" where
  "op_seen (RecordIncoming p label i sent received t) = [(p, i)]"
| "op_seen _ = []"

lemma dedup_record_incoming:
  "dedup_cache (fst (record_incoming s p label i sent received t)) = dedup_insert (dedup_cache s) (p, i)"
  by (simp add: record_incoming_def dedup_contains_def dedup_insert_old Let_def)

lemma dedup_step: "dedup_cache (store_step s oper) = foldl dedup_insert (dedup_cache s) (op_seen oper)"
  by (cases oper) (simp_all add: dedup_record_incoming record_outgoing_def update_outgoing_status_def
      set_history_limit_def Let_def split: option.split)

lemma dedup_run:
  "dedup_cache (store_run s ops) = foldl dedup_insert (dedup_cache s) (concat (map op_seen ops))"
  by (induction ops arbitrary: s) (simp_all add: dedup_step)

lemma dedup_capacity_foldl:
  "dedup_ok d \<Longrightarrow> dc_capacity (foldl dedup_insert d ks) = dc_capacity d"
  by (induction ks arbitrary: d) (simp_all add: dedup.ok_ins dedup.cap_ins)

subsection \<open>What a history looks like\<close>

text \<open>
  The part of a stored message that never changes: its id, direction, sequence and peer.  A
  history is well formed when ids are distinct and known (in \<open>K\<close>), receive sequences are
  assigned to incoming messages only and increase, and the id remembered as the latest incoming
  one is that of the last incoming message that is still stored.
\<close>

type_synonym hist_entry = "uuid \<times> direction \<times> u64 option \<times> string"

definition entry_of :: "stored_message \<Rightarrow> hist_entry" where
  "entry_of m = (sm_id m, sm_direction m, sm_receive_sequence m, sm_peer_id m)"

definition is_incoming :: "hist_entry \<Rightarrow> bool" where
  "is_incoming e \<longleftrightarrow> fst (snd e) = Incoming"

definition entry_ok :: "u64 \<Rightarrow> string \<Rightarrow> hist_entry \<Rightarrow> bool" where
  "entry_ok nx p e \<longleftrightarrow> (case e of (i, d, n, q) \<Rightarrow>
     q = p \<and> (case n of None \<Rightarrow> d = Outgoing | Some x \<Rightarrow> d = Incoming \<and> x < nx))"

definition sequences :: "hist_entry list \<Rightarrow> u64 list" where
  "sequences es = List.map_filter (\<lambda>e. fst (snd (snd e))) es"

definition hist_ok :: "(string \<times> uuid) set \<Rightarrow> u64 \<Rightarrow> string \<Rightarrow> hist_entry list \<Rightarrow> uuid option \<Rightarrow> bool" where
  "hist_ok K nx p es li \<longleftrightarrow>
     distinct (map fst es) \<and>
     (\<forall>e \<in> set es. (p, fst e) \<in> K \<and> entry_ok nx p e) \<and>
     sorted_wrt (<) (sequences es) \<and>
     (filter is_incoming es \<noteq> [] \<longrightarrow> li = Some (fst (last (filter is_incoming es)))) \<and>
     (\<forall>i. li = Some i \<longrightarrow> (p, i) \<in> K \<and> (\<forall>e \<in> set es. fst e = i \<longrightarrow> is_incoming e))"

lemma sequences_append: "sequences (xs @ ys) = sequences xs @ sequences ys"
  by (simp add: sequences_def map_filter_def)

lemma sequences_drop: "\<exists>zs. sequences es = zs @ sequences (drop n es)"
  by (metis append_take_drop_id sequences_append)

lemma set_sequences: "x \<in> set (sequences es) \<longleftrightarrow> (\<exists>e \<in> set es. fst (snd (snd e)) = Some x)"
  by (force simp: sequences_def map_filter_def)

lemma last_filter_drop:
  "filter P (drop n xs) \<noteq> [] \<Longrightarrow> last (filter P (drop n xs)) = last (filter P xs)"
  by (metis append_take_drop_id filter_append last_appendR)

lemma filter_drop_nonempty: "filter P (drop n xs) \<noteq> [] \<Longrightarrow> filter P xs \<noteq> []"
  by (auto simp: filter_empty_conv dest: in_set_dropD)

lemma hist_okI:
  "distinct (map fst es) \<Longrightarrow>
   (\<And>e. e \<in> set es \<Longrightarrow> (p, fst e) \<in> K \<and> entry_ok nx p e) \<Longrightarrow>
   sorted_wrt (<) (sequences es) \<Longrightarrow>
   (filter is_incoming es \<noteq> [] \<Longrightarrow> li = Some (fst (last (filter is_incoming es)))) \<Longrightarrow>
   (\<And>i. li = Some i \<Longrightarrow> (p, i) \<in> K) \<Longrightarrow>
   (\<And>i e. li = Some i \<Longrightarrow> e \<in> set es \<Longrightarrow> fst e = i \<Longrightarrow> is_incoming e) \<Longrightarrow> hist_ok K nx p es li"
  unfolding hist_ok_def by blast

lemma hist_okD:
  assumes "hist_ok K nx p es li"
  shows "distinct (map fst es)" and "e \<in> set es \<Longrightarrow> (p, fst e) \<in> K" and "e \<in> set es \<Longrightarrow> entry_ok nx p e"
    and "sorted_wrt (<) (sequences es)"
    and "filter is_incoming es \<noteq> [] \<Longrightarrow> li = Some (fst (last (filter is_incoming es)))"
    and "li = Some i \<Longrightarrow> (p, i) \<in> K"
    and "li = Some i \<Longrightarrow> e \<in> set es \<Longrightarrow> fst e = i \<Longrightarrow> is_incoming e"
  using assms unfolding hist_ok_def by blast+

lemma hist_ok_Nil [simp]: "hist_ok K nx p [] None"
  by (simp add: hist_ok_def sequences_def map_filter_def)

lemma entry_ok_mono: "entry_ok nx p e \<Longrightarrow> nx \<le> nx' \<Longrightarrow> entry_ok nx' p e"
  by (cases e) (auto simp: entry_ok_def split: option.splits)

lemma hist_ok_mono:
  assumes "hist_ok K nx p es li" and "K \<subseteq> K'" and "nx \<le> nx'"
  shows "hist_ok K' nx' p es li"
  using hist_okD [OF assms(1)] assms(2) entry_ok_mono [OF _ assms(3)]
  by (intro hist_okI) blast+

lemma hist_ok_drop:
  assumes "hist_ok K nx p es li"
  shows "hist_ok K nx p (drop n es) li"
proof (rule hist_okI)
  show "distinct (map fst (drop n es))"
    using hist_okD(1) [OF assms] by (simp add: drop_map [symmetric])
  show "sorted_wrt (<) (sequences (drop n es))"
    using hist_okD(4) [OF assms] sequences_drop [of es n] by (metis sorted_wrt_append)
  show "li = Some (fst (last (filter is_incoming (drop n es))))" if "filter is_incoming (drop n es) \<noteq> []"
    using hist_okD(5) [OF assms filter_drop_nonempty [OF that]] by (simp only: last_filter_drop [OF that])
qed (use hist_okD [OF assms] in \<open>blast dest: in_set_dropD\<close>)+

lemma hist_ok_outgoing:
  assumes "hist_ok K nx p es li" and "(p, i) \<notin> K"
  shows "hist_ok (insert (p, i) K) nx p (es @ [(i, Outgoing, None, p)]) li"
proof (rule hist_okI)
  note ok = hist_okD [OF assms(1)]
  show "distinct (map fst (es @ [(i, Outgoing, None, p)]))"
    using ok(1,2) assms(2) by auto
  show "(p, fst e) \<in> insert (p, i) K \<and> entry_ok nx p e" if "e \<in> set (es @ [(i, Outgoing, None, p)])" for e
    using that ok(2,3) [of e] by (cases "e \<in> set es") (simp_all add: entry_ok_def)
  show "sorted_wrt (<) (sequences (es @ [(i, Outgoing, None, p)]))"
    using ok(4) by (simp add: sequences_def map_filter_def)
  show "li = Some (fst (last (filter is_incoming (es @ [(i, Outgoing, None, p)]))))"
    if "filter is_incoming (es @ [(i, Outgoing, None, p)]) \<noteq> []"
    using that ok(5) by (simp add: is_incoming_def)
  show "(p, j) \<in> insert (p, i) K" if "li = Some j" for j
    using ok(6) [OF that] by simp
  show "is_incoming e" if "li = Some j" "e \<in> set (es @ [(i, Outgoing, None, p)])" "fst e = j" for j e
    using that ok(6) [OF that(1)] ok(7) [OF that(1) _ that(3)] assms(2) by auto
qed

lemma hist_ok_incoming:
  assumes "hist_ok K nx p es li" and "(p, i) \<notin> K" and "nx < nx + 1"
  shows "hist_ok (insert (p, i) K) (nx + 1) p (es @ [(i, Incoming, Some nx, p)]) (Some i)"
proof (rule hist_okI)
  note ok = hist_okD [OF assms(1)]
  let ?e = "(i, Incoming, Some nx, p)"
  show "distinct (map fst (es @ [?e]))"
    using ok(1,2) assms(2) by auto
  show "(p, fst e) \<in> insert (p, i) K \<and> entry_ok (nx + 1) p e" if "e \<in> set (es @ [?e])" for e
    using that ok(2) [of e] entry_ok_mono [OF ok(3) [of e], of "nx + 1"] assms(3)
    by (cases "e \<in> set es") (simp_all add: entry_ok_def)
  have "x < nx" if x: "x \<in> set (sequences es)" for x
  proof -
    obtain e where e: "e \<in> set es" "fst (snd (snd e)) = Some x" using x by (auto simp: set_sequences)
    with ok(3) [OF e(1)] show ?thesis by (cases e) (simp add: entry_ok_def)
  qed
  moreover have "sequences (es @ [?e]) = sequences es @ [nx]"
    by (simp add: sequences_append) (simp add: sequences_def map_filter_def)
  ultimately show "sorted_wrt (<) (sequences (es @ [?e]))"
    using ok(4) by (simp add: sorted_wrt_append)
  show "Some i = Some (fst (last (filter is_incoming (es @ [?e]))))"
    by (simp add: is_incoming_def)
  show "is_incoming e" if "Some i = Some j" "e \<in> set (es @ [?e])" "fst e = j" for j e
  proof (cases "e \<in> set es")
    case True
    from ok(2) [OF True] that assms(2) show ?thesis by simp
  next
    case False
    with that(2) have "e = ?e" by simp
    then show ?thesis by (simp add: is_incoming_def)
  qed
qed auto

subsection \<open>The invariant of the store\<close>

definition entries :: "conversation_store \<Rightarrow> string \<Rightarrow> hist_entry list" where
  "entries s p = map entry_of (messages_for s p)"

definition latest_of :: "conversation_store \<Rightarrow> string \<Rightarrow> uuid option" where
  "latest_of s p = Option.bind (conversations s p) latest_incoming"

definition global_ok :: "conversation_store \<Rightarrow> bool" where
  "global_ok s \<longleftrightarrow>
     (case latest_global s of
        None \<Rightarrow> (\<forall>p. latest_of s p = None)
      | Some (p, i) \<Rightarrow>
          latest_of s p = Some i \<and> next_receive_sequence s \<noteq> 0 \<and>
          (\<forall>e \<in> set (entries s p). fst e = i \<longrightarrow> fst (snd (snd e)) = Some (next_receive_sequence s - 1)))"

definition store_inv :: "(string \<times> uuid) set \<Rightarrow> nat \<Rightarrow> conversation_store \<Rightarrow> bool" where
  "store_inv K k s \<longleftrightarrow>
     dedup_ok (dedup_cache s) \<and> unat (next_receive_sequence s) \<le> k \<and>
     (\<forall>p. hist_ok K (next_receive_sequence s) p (entries s p) (latest_of s p)) \<and> global_ok s"

lemma entry_of_status [simp]: "entry_of (m\<lparr>sm_status := st\<rparr>) = entry_of m"
  by (simp add: entry_of_def)

lemma map_push_bounded: "map f (push_bounded ms m l) = drop (Suc (length ms) - l) (map f ms @ [f m])"
  by (simp add: push_bounded_drop drop_map [symmetric] del: drop_append)

lemma entries_step:
  "\<not> dedup_contains (dedup_cache s) (p, i) \<Longrightarrow>
   entries (store_step s (RecordIncoming p label i sent received t)) q =
     (if q = p
      then drop (Suc (length (messages_for s p)) - history_limit_per_peer s)
             (entries s p @ [(i, Incoming, Some (next_receive_sequence s), p)])
      else entries s q)"
  "entries (store_step s (RecordOutgoing p i t st now)) q =
     (if q = p
      then drop (Suc (length (messages_for s p)) - history_limit_per_peer s)
             (entries s p @ [(i, Outgoing, None, p)])
      else entries s q)"
  "entries (store_step s (UpdateStatus p i st)) q = entries s q"
  "entries (store_step s (SetLimit l)) q = entries s q"
     apply (simp add: entries_def messages_for_record_incoming map_push_bounded entry_of_def)
    apply (simp add: entries_def messages_for_record_outgoing map_push_bounded)
    apply (simp add: record_outgoing_def entry_of_def Let_def)
   apply (simp add: entries_def messages_for_update map_update_first)
  apply (simp add: entries_def)
  done

lemma latest_of_step:
  "\<not> dedup_contains (dedup_cache s) (p, i) \<Longrightarrow>
   latest_of (store_step s (RecordIncoming p label i sent received t)) q = (if q = p then Some i else latest_of s q)"
  "latest_of (store_step s (RecordOutgoing p i t st now)) q = latest_of s q"
  "latest_of (store_step s (UpdateStatus p i st)) q = latest_of s q"
  "latest_of (store_step s (SetLimit l)) q = latest_of s q"
  by (simp_all add: latest_of_def record_incoming_def record_outgoing_def update_outgoing_status_def
      set_history_limit_def entry_or_default_def conversation_default_def Let_def split: option.split)

lemma record_incoming_dup:
  "dedup_contains (dedup_cache s) (p, i) \<Longrightarrow>
   record_incoming s p label i sent received t = (s, DuplicateMessage)"
  by (simp add: record_incoming_def)

lemma sequence_step:
  "\<not> dedup_contains (dedup_cache s) (p, i) \<Longrightarrow>
   next_receive_sequence (store_step s (RecordIncoming p label i sent received t)) = next_receive_sequence s + 1"
  "next_receive_sequence (store_step s (RecordOutgoing p i t st now)) = next_receive_sequence s"
  "next_receive_sequence (store_step s (UpdateStatus p i st)) = next_receive_sequence s"
  "next_receive_sequence (store_step s (SetLimit l)) = next_receive_sequence s"
  by (simp_all add: record_incoming_def record_outgoing_def update_outgoing_status_def
      set_history_limit_def Let_def split: option.split)

lemma global_step:
  "\<not> dedup_contains (dedup_cache s) (p, i) \<Longrightarrow>
   latest_global (store_step s (RecordIncoming p label i sent received t)) = Some (p, i)"
  "latest_global (store_step s (RecordOutgoing p i t st now)) = latest_global s"
  "latest_global (store_step s (UpdateStatus p i st)) = latest_global s"
  "latest_global (store_step s (SetLimit l)) = latest_global s"
  by (simp_all add: record_incoming_def record_outgoing_def update_outgoing_status_def
      set_history_limit_def Let_def split: option.split)

lemmas step_simps = entries_step latest_of_step sequence_step global_step

definition op_keys :: "store_op \<Rightarrow> (string \<times> uuid) set" where
  "op_keys oper = set_option (op_key oper)"

lemma word_less_Suc: "Suc (unat (n :: u64)) < 2 ^ 64 \<Longrightarrow> n < n + 1 \<and> unat (n + 1) = Suc (unat n)"
  by (simp add: word_less_nat_alt unat_word_ariths)

lemma global_ok_incoming:
  assumes "store_inv K k s" and "(p, i) \<notin> K" and "next_receive_sequence s + 1 \<noteq> 0"
    and new: "\<not> dedup_contains (dedup_cache s) (p, i)"
  shows "global_ok (store_step s (RecordIncoming p label i sent received t))"
proof -
  let ?s = "store_step s (RecordIncoming p label i sent received t)"
  have h: "hist_ok K (next_receive_sequence s) q (entries s q) (latest_of s q)" for q
    using assms(1) by (simp add: store_inv_def)
  have "fst (snd (snd e)) = Some (next_receive_sequence s)" if "e \<in> set (entries ?s p)" and "fst e = i" for e
  proof -
    from that(1) have "e \<in> set (entries s p) \<or> e = (i, Incoming, Some (next_receive_sequence s), p)"
      by (auto simp: new step_simps simp del: store_step.simps dest!: in_set_dropD)
    then show ?thesis
    proof
      assume "e \<in> set (entries s p)"
      from hist_okD(2) [OF h this] that(2) assms(2) show ?thesis by simp
    next
      assume "e = (i, Incoming, Some (next_receive_sequence s), p)"
      then show ?thesis by simp
    qed
  qed
  with assms(3) show ?thesis
    by (simp add: global_ok_def new step_simps del: store_step.simps)
qed

lemma store_inv_incoming:
  assumes inv: "store_inv K k s" and nk: "(p, i) \<notin> K" and k: "Suc k < 2 ^ 64"
    and new: "\<not> dedup_contains (dedup_cache s) (p, i)"
  shows "store_inv (insert (p, i) K) (Suc k) (store_step s (RecordIncoming p label i sent received t))"
proof -
  let ?nx = "next_receive_sequence s" and ?s = "store_step s (RecordIncoming p label i sent received t)"
  have h: "hist_ok K ?nx q (entries s q) (latest_of s q)" for q
    using inv by (simp add: store_inv_def)
  have n: "unat ?nx \<le> k" and dd: "dedup_ok (dedup_cache ?s)"
    using inv dedup.ok_foldl by (auto simp only: dedup_step store_inv_def)
  have lt: "?nx < ?nx + 1" and nx: "unat (?nx + 1) = Suc (unat ?nx)"
    using word_less_Suc [of ?nx] n k by simp_all
  have "hist_ok (insert (p, i) K) (?nx + 1) q (entries ?s q) (latest_of ?s q)" for q
  proof (cases "q = p")
    case True
    show ?thesis
      using hist_ok_drop [OF hist_ok_incoming [OF h nk lt]]
      by (simp add: True new step_simps del: store_step.simps drop_append)
  next
    case False
    show ?thesis
      using False hist_ok_mono [OF h, of "insert (p, i) K" "?nx + 1" q] lt
      by (simp add: new step_simps subset_insertI del: store_step.simps)
  qed
  moreover have "?nx + 1 \<noteq> 0"
    using nx by (metis unsigned_0 nat.distinct(1))
  ultimately show ?thesis
    using dd n nx global_ok_incoming [OF inv nk _ new]
    by (simp add: store_inv_def new step_simps del: store_step.simps)
qed

lemma store_inv_outgoing:
  assumes inv: "store_inv K k s" and nk: "(p, i) \<notin> K"
  shows "store_inv (insert (p, i) K) (Suc k) (store_step s (RecordOutgoing p i t st now))"
proof -
  let ?nx = "next_receive_sequence s" and ?s = "store_step s (RecordOutgoing p i t st now)"
  have h: "hist_ok K ?nx q (entries s q) (latest_of s q)" and g: "global_ok s" for q
    using inv by (simp_all add: store_inv_def)
  have n: "unat ?nx \<le> k" and dd: "dedup_ok (dedup_cache ?s)"
    using inv dedup.ok_foldl by (auto simp only: dedup_step store_inv_def)
  have "hist_ok (insert (p, i) K) ?nx q (entries ?s q) (latest_of ?s q)" for q
    using hist_ok_drop [OF hist_ok_outgoing [OF h nk]] hist_ok_mono [OF h, of "insert (p, i) K" ?nx q]
    by (simp add: step_simps subset_insertI del: store_step.simps drop_append)
  moreover have "e \<in> set (entries s q)" if "e \<in> set (entries ?s q)" and "(q, fst e) \<in> K" for e q
    using that nk by (auto simp: step_simps simp del: store_step.simps dest!: in_set_dropD split: if_splits)
  then have "global_ok ?s"
    using g hist_okD(6) [OF h] by (auto simp: global_ok_def step_simps simp del: store_step.simps split: option.splits)
  ultimately show ?thesis
    using dd n by (simp add: store_inv_def step_simps del: store_step.simps)
qed

lemma store_inv_step:
  assumes inv: "store_inv K k s" and fresh: "op_keys oper \<inter> K = {}" and k: "Suc k < 2 ^ 64"
  shows "store_inv (op_keys oper \<union> K) (Suc k) (store_step s oper)"
proof (cases oper)
  case (RecordIncoming p label i sent received t)
  have nk: "(p, i) \<notin> K" and ks: "op_keys oper = {(p, i)}"
    using fresh by (auto simp: RecordIncoming op_keys_def)
  show ?thesis
  proof (cases "dedup_contains (dedup_cache s) (p, i)")
    case True
    then have "store_step s oper = s" by (simp add: RecordIncoming record_incoming_dup)
    then show ?thesis
      using inv by (auto simp: store_inv_def intro: hist_ok_mono [of K])
  next
    case False
    from store_inv_incoming [OF inv nk k this] ks show ?thesis
      by (simp add: RecordIncoming del: store_step.simps)
  qed
next
  case (RecordOutgoing p i t st now)
  have nk: "(p, i) \<notin> K" and ks: "op_keys oper = {(p, i)}"
    using fresh by (auto simp: RecordOutgoing op_keys_def)
  from store_inv_outgoing [OF inv nk] ks show ?thesis
    by (simp add: RecordOutgoing del: store_step.simps)
qed (use inv dedup_step in \<open>auto simp: store_inv_def global_ok_def step_simps dedup.ok_foldl op_keys_def
      simp del: store_step.simps split: option.splits prod.splits\<close>)

lemma store_inv_new: "store_inv {} 0 (store_new limit)"
  by (simp add: store_inv_def store_new_def dedup_ok_new DEDUP_CACHE_CAPACITY_def entries_def
      messages_for_def latest_of_def global_ok_def)

definition distinct_keys :: "store_op list \<Rightarrow> bool" where
  "distinct_keys ops \<longleftrightarrow> distinct (List.map_filter op_key ops)"

lemma store_inv_run:
  assumes "distinct_keys ops" and "length ops < 2 ^ 64"
  shows "store_inv (set (List.map_filter op_key ops)) (length ops) (store_run (store_new limit) ops)"
  using assms
proof (induction ops rule: rev_induct)
  case Nil
  then show ?case using store_inv_new [of limit] by (simp add: map_filter_def)
next
  case (snoc oper ops)
  have mf: "List.map_filter op_key (ops @ [oper]) =
      List.map_filter op_key ops @ (case op_key oper of None \<Rightarrow> [] | Some k \<Rightarrow> [k])"
    by (simp add: map_filter_def split: option.split)
  have "store_inv (op_keys oper \<union> set (List.map_filter op_key ops)) (Suc (length ops))
      (store_step (store_run (store_new limit) ops) oper)"
    using snoc.prems snoc.IH
    by (intro store_inv_step) (auto simp: mf distinct_keys_def op_keys_def split: option.splits)
  moreover have "op_keys oper \<union> set (List.map_filter op_key ops) = set (List.map_filter op_key (ops @ [oper]))"
    by (auto simp: mf op_keys_def split: option.splits)
  ultimately show ?case by simp
qed

section \<open>Properties\<close>

text \<open>
  Recording an incoming message: a message id already seen from this peer changes nothing
  and is reported as a duplicate; any other is stored once, as the newest entry of its peer's
  history, which then holds at most the configured limit, with the next receive sequence, and
  becomes the latest incoming message of the peer and overall.  Other peers are untouched.
\<close>

theorem record_incoming_spec:
  "let (s', outcome) = record_incoming s p label i sent received t;
       m = \<lparr>sm_id = i, sm_peer_id = p, sm_direction = Incoming, sm_sender_label = label, sm_text = t,
            sm_sent_at_unix_ms = sent, sm_received_at_unix_ms = received,
            sm_receive_sequence = Some (next_receive_sequence s), sm_status = Received\<rparr>;
       h = messages_for s p @ [m]
   in if (p, i) \<in> dc_seen (dedup_cache s) then outcome = DuplicateMessage \<and> s' = s
      else outcome = Accepted \<and>
           messages_for s' p = drop (length h - history_limit_per_peer s) h \<and>
           length (messages_for s' p) \<le> history_limit_per_peer s \<and>
           (\<forall>q. q \<noteq> p \<longrightarrow> messages_for s' q = messages_for s q) \<and>
           latest_of s' p = Some i \<and> latest_global s' = Some (p, i) \<and>
           next_receive_sequence s' = next_receive_sequence s + 1"
proof (cases "dedup_contains (dedup_cache s) (p, i)")
  case True
  then show ?thesis by (simp add: record_incoming_dup dedup_contains_def)
next
  case False
  obtain s' outcome where r: "record_incoming s p label i sent received t = (s', outcome)" by fastforce
  then have "outcome = Accepted"
    using False by (auto simp: record_incoming_def Let_def)
  moreover from False have "(p, i) \<notin> dc_seen (dedup_cache s)" by (simp add: dedup_contains_def)
  moreover note messages_for_record_incoming [OF False, of label sent received t]
    step_simps(5) [OF False, of label sent received t p] step_simps(9,13) [OF False, of label sent received t]
  ultimately show ?thesis
    using length_push_bounded by (simp add: r Let_def push_bounded_drop)
qed

theorem record_incoming_spec_witness:
  "snd (record_incoming (store_new 20) ''a'' ''Ann'' 7 1 2 ''hi'') = Accepted \<and>
   length (messages_for (fst (record_incoming (store_new 20) ''a'' ''Ann'' 7 1 2 ''hi'')) ''a'') \<le> 20 \<and>
   messages_for (fst (record_incoming (store_new 20) ''a'' ''Ann'' 7 1 2 ''hi'')) ''b'' =
     messages_for (store_new 20) ''b''"
proof -
  have "(''a'', 7) \<notin> dc_seen (dedup_cache (store_new 20))"
    by (simp add: store_new_def dedup_new_def)
  moreover have "history_limit_per_peer (store_new 20) = 20" by (simp add: store_new_def)
  ultimately show ?thesis
    using record_incoming_spec [of "store_new 20" "''a''" "''Ann''" 7 1 2 "''hi''"]
    by (simp add: Let_def split_beta)
qed

text \<open>
  C21.  Retries are recognized: after a message was recorded, and through any operations that
  offer fewer than 10,000 incoming messages from all peers, recording the same id from
  the same peer again is a duplicate and changes nothing.
\<close>

theorem retry_is_duplicate:
  assumes "dedup_ok (dedup_cache s)" and "dc_capacity (dedup_cache s) = DEDUP_CACHE_CAPACITY"
    and "length (concat (map op_seen ops)) < DEDUP_CACHE_CAPACITY"
    and "s1 = fst (record_incoming s p label i sent received t)"
    and "\<not> dedup_contains (dedup_cache s) (p, i)"
  shows "record_incoming (store_run s1 ops) p label' i sent' received' t'
    = (store_run s1 ops, DuplicateMessage)"
proof -
  let ?d = "dedup_cache s"
  have d1: "dedup_cache s1 = dedup_insert ?d (p, i)"
    by (simp add: assms(4) dedup_record_incoming)
  have ok: "dedup_ok (dedup_insert ?d (p, i))"
    using assms(1) by (rule dedup.ok_ins)
  have "dedup.age (dedup_insert ?d (p, i)) (p, i) 0"
    using assms(1,5) by (rule dedup.age_ins_same)
  then have "dedup.age (foldl dedup_insert (dedup_insert ?d (p, i)) (concat (map op_seen ops))) (p, i)
      (0 + length (concat (map op_seen ops)))"
    using assms(2,3) by (intro dedup.age_foldl [OF ok]) (simp_all add: dedup.cap_ins [OF assms(1)])
  then have "dedup_contains (dedup_cache (store_run s1 ops)) (p, i)"
    unfolding dedup_run d1 by (rule dedup.age_mem [OF dedup.ok_foldl [OF ok]])
  then show ?thesis by (rule record_incoming_dup)
qed

theorem retry_is_duplicate_witness:
  "record_incoming (store_run (fst (record_incoming (store_new 100) ''a'' ''Alice'' 7 1 2 ''hi''))
       [RecordIncoming ''b'' ''Bob'' 8 1 3 ''yo'', RecordOutgoing ''a'' 9 ''ok'' Sending 4])
     ''a'' ''Alice'' 7 1 5 ''hi''
   = (store_run (fst (record_incoming (store_new 100) ''a'' ''Alice'' 7 1 2 ''hi''))
       [RecordIncoming ''b'' ''Bob'' 8 1 3 ''yo'', RecordOutgoing ''a'' 9 ''ok'' Sending 4], DuplicateMessage)"
  by (rule retry_is_duplicate [OF _ _ _ refl])
    (simp_all add: store_new_def dedup_ok_new DEDUP_CACHE_CAPACITY_def dedup_contains_def,
      simp_all add: dedup_new_def)

lemma find_last_filter:
  assumes "distinct (map f ms)" and "filter P ms \<noteq> []"
  shows "find (\<lambda>m. f m = f (last (filter P ms))) ms = Some (last (filter P ms))"
proof -
  let ?l = "last (filter P ms)"
  have l: "?l \<in> set ms"
    using last_in_set [OF assms(2)] by simp
  then have "find (\<lambda>m. f m = f ?l) ms \<noteq> None"
    by (auto simp: find_None_iff_all)
  then obtain m where m: "find (\<lambda>m. f m = f ?l) ms = Some m" by blast
  then have "m \<in> set ms \<and> f m = f ?l" by (rule find_SomeD)
  with l assms(1) have "m = ?l" by (simp add: distinct_map inj_on_def)
  with m show ?thesis by simp
qed

lemma filter_entries: "filter is_incoming (entries s p) = map entry_of (filter (\<lambda>m. sm_direction m = Incoming) (messages_for s p))"
  by (simp add: entries_def filter_map o_def is_incoming_def entry_of_def)

lemma latest_incoming_for_of: "latest_incoming_for s p =
  (case latest_of s p of None \<Rightarrow> None | Some i \<Rightarrow> find (\<lambda>m. sm_id m = i) (messages_for s p))"
  by (simp add: latest_incoming_for_def latest_of_def messages_for_def split: option.split)

lemma latest_incoming_for_inv:
  assumes "hist_ok K nx p (entries s p) (latest_of s p)"
  shows "latest_incoming_for s p =
    (let ms = filter (\<lambda>m. sm_direction m = Incoming) (messages_for s p)
     in if ms = [] then None else Some (last ms))"
proof (cases "filter (\<lambda>m. sm_direction m = Incoming) (messages_for s p) = []")
  case True
  have "sm_id m \<noteq> i" if "latest_of s p = Some i" "m \<in> set (messages_for s p)" for i m
  proof
    assume "sm_id m = i"
    moreover have "entry_of m \<in> set (entries s p)" using that(2) by (simp add: entries_def)
    ultimately have "is_incoming (entry_of m)"
      using hist_okD(7) [OF assms that(1)] by (simp add: entry_of_def)
    with True that(2) show False by (auto simp: filter_empty_conv is_incoming_def entry_of_def)
  qed
  then show ?thesis
    using True by (simp add: latest_incoming_for_of find_None_iff_all split: option.split)
next
  case False
  let ?P = "\<lambda>m. sm_direction m = Incoming"
  let ?l = "last (filter ?P (messages_for s p))"
  have "filter is_incoming (entries s p) \<noteq> []" using False by (simp add: filter_entries)
  from hist_okD(5) [OF assms this] have "latest_of s p = Some (sm_id ?l)"
    using False by (simp add: filter_entries last_map entry_of_def)
  moreover have "distinct (map sm_id (messages_for s p))"
    using hist_okD(1) [OF assms] by (simp add: entries_def entry_of_def o_def)
  ultimately show ?thesis
    using False find_last_filter [of sm_id "messages_for s p" ?P] by (simp add: latest_incoming_for_of)
qed

text \<open>
  If no message id is used twice for a peer, the latest incoming message of a peer is,
  after any run of the store, the last incoming message still in its history, and there is
  none exactly when no incoming message is stored: never an outgoing one.
\<close>

theorem latest_incoming_for_spec:
  assumes "distinct_keys ops" and "length ops < 2 ^ 64"
  shows "latest_incoming_for (store_run (store_new limit) ops) p =
    (let ms = filter (\<lambda>m. sm_direction m = Incoming) (messages_for (store_run (store_new limit) ops) p)
     in if ms = [] then None else Some (last ms))"
  using store_inv_run [OF assms, of limit] by (intro latest_incoming_for_inv) (auto simp: store_inv_def)

definition sample_ops :: "store_op list" where
  "sample_ops = [RecordIncoming ''a'' ''Alice'' 1 10 11 ''one'', RecordIncoming ''b'' ''Bob'' 2 99 12 ''two'',
     RecordOutgoing ''a'' 3 ''three'' Sending 13, UpdateStatus ''a'' 3 Sent]"

lemma sample_ops_ok: "distinct_keys sample_ops" "length sample_ops < 2 ^ 64"
  by (simp_all add: sample_ops_def distinct_keys_def map_filter_def)

theorem latest_incoming_for_spec_witness:
  "map_option sm_text (latest_incoming_for (store_run (store_new 20) sample_ops) ''a'') = Some ''one''"
  unfolding latest_incoming_for_spec [OF sample_ops_ok]
  by (simp add: sample_ops_def messages_for_record_incoming messages_for_record_outgoing messages_for_update
      dedup_contains_def store_new_def dedup_new_def push_bounded_drop record_incoming_def
      record_outgoing_def update_outgoing_status_def messages_for_def entry_or_default_def
      conversation_default_def Let_def dedup_insert_def DEDUP_CACHE_CAPACITY_def)

text \<open>
  Under the same condition receive sequences increase along every history, and when the
  latest incoming message overall is still stored it is the latest one of its peer and
  has the greatest receive sequence of all stored messages.
\<close>

theorem latest_incoming_global_spec:
  assumes "distinct_keys ops" and "length ops < 2 ^ 64"
  shows "let s = store_run (store_new limit) ops
    in (\<forall>p. sorted_wrt (<) (List.map_filter sm_receive_sequence (messages_for s p))) \<and>
       (case latest_incoming_global s of
          None \<Rightarrow> True
        | Some m \<Rightarrow>
            sm_direction m = Incoming \<and> latest_incoming_for s (sm_peer_id m) = Some m \<and>
            (\<forall>q m' n'. m' \<in> set (messages_for s q) \<longrightarrow> sm_receive_sequence m' = Some n' \<longrightarrow>
               (\<exists>n. sm_receive_sequence m = Some n \<and> n' \<le> n)))"
proof -
  let ?s = "store_run (store_new limit) ops"
  let ?nx = "next_receive_sequence ?s"
  let ?K = "set (List.map_filter op_key ops)"
  have inv: "store_inv ?K (length ops) ?s"
    by (rule store_inv_run [OF assms])
  then have h: "hist_ok ?K ?nx q (entries ?s q) (latest_of ?s q)" for q
    by (simp add: store_inv_def)
  have seqs: "List.map_filter sm_receive_sequence ms = sequences (map entry_of ms)" for ms
    by (induction ms) (simp_all add: sequences_def map_filter_def entry_of_def)
  have sorted: "sorted_wrt (<) (List.map_filter sm_receive_sequence (messages_for ?s q))" for q
    using hist_okD(4) [OF h] by (simp add: seqs entries_def)
  have entry: "entry_ok ?nx q (entry_of m)" if "m \<in> set (messages_for ?s q)" for m q
    using that by (intro hist_okD(3) [OF h]) (simp add: entries_def)
  have bound: "n' \<le> ?nx - 1"
    if "m' \<in> set (messages_for ?s q)" and "sm_receive_sequence m' = Some n'" for m' q n'
  proof -
    have "n' < ?nx" using entry [OF that(1)] that(2) by (simp add: entry_ok_def entry_of_def)
    then show ?thesis by (simp add: word_less_nat_alt word_le_nat_alt unat_sub_if')
  qed
  have "sm_direction m = Incoming \<and> latest_incoming_for ?s (sm_peer_id m) = Some m \<and>
      sm_receive_sequence m = Some (?nx - 1)" if m: "latest_incoming_global ?s = Some m" for m
  proof -
    obtain p i where g: "latest_global ?s = Some (p, i)"
      and f: "find (\<lambda>m. sm_id m = i) (messages_for ?s p) = Some m"
      using m by (auto simp: latest_incoming_global_def messages_for_def split: option.splits)
    have mem: "m \<in> set (messages_for ?s p)" and i: "sm_id m = i"
      using find_SomeD [OF f] by auto
    have go: "latest_of ?s p = Some i"
      "\<forall>e \<in> set (entries ?s p). fst e = i \<longrightarrow> fst (snd (snd e)) = Some (?nx - 1)"
      using inv by (simp_all add: store_inv_def global_ok_def g)
    have "sm_receive_sequence m = Some (?nx - 1)"
      using go(2) mem i by (auto simp: entries_def entry_of_def)
    then show ?thesis
      using entry [OF mem] f go(1)
      by (simp add: entry_ok_def entry_of_def latest_incoming_for_of)
  qed
  with sorted bound show ?thesis
    by (auto simp: Let_def split: option.split)
qed

theorem latest_incoming_global_spec_witness:
  "\<exists>m. latest_incoming_global (store_run (store_new 20) sample_ops) = Some m \<and> sm_text m = ''two'' \<and>
     sm_direction m = Incoming"
proof -
  have "map_option sm_text (latest_incoming_global (store_run (store_new 20) sample_ops)) = Some ''two''"
    by (simp add: sample_ops_def dedup_contains_def store_new_def dedup_new_def push_bounded_drop
        record_incoming_def record_outgoing_def update_outgoing_status_def entry_or_default_def
        conversation_default_def Let_def dedup_insert_def DEDUP_CACHE_CAPACITY_def latest_incoming_global_def)
  then show ?thesis
    using latest_incoming_global_spec [OF sample_ops_ok, of 20] by (auto simp: Let_def)
qed

definition echoed_ops :: "store_op list" where
  "echoed_ops = [RecordOutgoing ''a'' 3 ''mine'' Sent 13, RecordIncoming ''a'' ''Alice'' 3 10 14 ''theirs'']"

text \<open>
  A peer that sends back the id of a message it was sent makes the latest incoming message
  of that peer an outgoing one, although the code says this never happens: the id is looked
  up in the whole history, and the outgoing message with it comes first.
\<close>

theorem latest_incoming_echo_counterexample:
  "map_option (\<lambda>m. (sm_text m, sm_direction m)) (latest_incoming_for (store_run (store_new 20) echoed_ops) ''a'')
     = Some (''mine'', Outgoing) \<and>
   map_option (\<lambda>m. (sm_text m, sm_direction m)) (latest_incoming_global (store_run (store_new 20) echoed_ops))
     = Some (''mine'', Outgoing)"
  by (simp add: echoed_ops_def dedup_contains_def store_new_def dedup_new_def push_bounded_drop
      record_incoming_def record_outgoing_def entry_or_default_def conversation_default_def Let_def
      dedup_insert_def DEDUP_CACHE_CAPACITY_def latest_incoming_for_def latest_incoming_global_def)

text \<open>
  \<open>all_messages_newest_first\<close> returns every stored message exactly once, ordered by
  decreasing record time, and messages with equal times of one peer stay in history order.
\<close>

theorem all_messages_newest_first_spec:
  assumes "distinct keys" and "set keys = dom (conversations s)"
  shows "let all = all_messages_newest_first s keys
    in sorted_wrt (\<lambda>a b. sm_received_at_unix_ms a \<ge> sm_received_at_unix_ms b) all \<and>
       mset all = (\<Sum>p \<in> dom (conversations s). mset (messages_for s p)) \<and>
       (\<forall>time. filter (\<lambda>m. sm_received_at_unix_ms m = time) all =
          concat (map (\<lambda>p. filter (\<lambda>m. sm_received_at_unix_ms m = time) (messages_for s p)) keys))"
proof -
  let ?key = "\<lambda>m. - sm_received_at_unix_ms m"
  let ?cat = "concat (map (messages_for s) keys)"
  let ?all = "all_messages_newest_first s keys"
  have all: "?all = sort_key ?key ?cat" by (simp add: all_messages_newest_first_def)
  have "sorted (map ?key ?all)" unfolding all by (rule sorted_sort_key)
  then have 1: "sorted_wrt (\<lambda>a b. sm_received_at_unix_ms a \<ge> sm_received_at_unix_ms b) ?all"
    by (simp add: sorted_wrt_map)
  have 2: "mset ?all = (\<Sum>p \<in> dom (conversations s). mset (messages_for s p))"
    unfolding all mset_sort mset_concat
    by (simp add: o_def sum_list_distinct_conv_sum_set assms)
  have "filter (\<lambda>m. sm_received_at_unix_ms m = time) ?all =
      concat (map (\<lambda>p. filter (\<lambda>m. sm_received_at_unix_ms m = time) (messages_for s p)) keys)" for time
    using sort_key_stable [of ?key "- time" ?cat]
    by (simp add: all filter_concat o_def)
  with 1 2 show ?thesis by (simp add: Let_def)
qed

theorem all_messages_newest_first_spec_witness:
  "sorted_wrt (\<lambda>a b. sm_received_at_unix_ms a \<ge> sm_received_at_unix_ms b)
     (all_messages_newest_first (store_run (store_new 20) sample_ops) [''a'', ''b''])"
proof -
  have "set [''a'', ''b''] = dom (conversations (store_run (store_new 20) sample_ops))"
    by (auto simp: sample_ops_def dedup_contains_def store_new_def dedup_new_def record_incoming_def
        record_outgoing_def update_outgoing_status_def Let_def dedup_insert_def
        DEDUP_CACHE_CAPACITY_def split: if_splits)
  from all_messages_newest_first_spec [OF _ this] show ?thesis by (simp add: Let_def)
qed

end
