(* ===== verification/Lcp_Connection.thy ===== *)
theory Lcp_Connection
  imports Lcp_Prelude
begin

text \<open>
  The registry of cached connections and peer status (\<open>lcp-core/src/connection.rs\<close>).  An iroh
  connection is a handle; whether it has a close reason is the predicate \<open>closed\<close>.  The lemmas
  give what the registry reports after each operation, over any run of operations, and the
  tie-break between two connections opened at the same time.
\<close>

datatype peer_status = Online | Connecting | Offline | UnknownStatus

datatype path_type = Direct | Relay | UnknownPath

type_synonym conn = nat

record peer_runtime_state =
  prs_status :: peer_status
  prs_path :: path_type
  prs_connection :: "conn option"

definition runtime_default :: peer_runtime_state where
  "runtime_default = \<lparr>prs_status = UnknownStatus, prs_path = UnknownPath, prs_connection = None\<rparr>"

type_synonym connection_registry = "string \<Rightarrow> peer_runtime_state option"

definition runtime_entry :: "connection_registry \<Rightarrow> string \<Rightarrow> peer_runtime_state" where
  "runtime_entry r e = (case r e of None \<Rightarrow> runtime_default | Some s \<Rightarrow> s)"

definition has_open :: "(conn \<Rightarrow> bool) \<Rightarrow> peer_runtime_state \<Rightarrow> bool" where
  "has_open closed s = (case prs_connection s of None \<Rightarrow> False | Some c \<Rightarrow> \<not> closed c)"

definition status_of ::
  "(conn \<Rightarrow> bool) \<Rightarrow> connection_registry \<Rightarrow> string \<Rightarrow> peer_status \<times> path_type" where
  "status_of closed r e =
     (case r e of
        Some s \<Rightarrow> if has_open closed s then (Online, prs_path s) else (prs_status s, UnknownPath)
      | None \<Rightarrow> (UnknownStatus, UnknownPath))"

definition cached_connection :: "(conn \<Rightarrow> bool) \<Rightarrow> connection_registry \<Rightarrow> string \<Rightarrow> conn option" where
  "cached_connection closed r e =
     (case r e of
        None \<Rightarrow> None
      | Some s \<Rightarrow>
          (case prs_connection s of
             None \<Rightarrow> None
           | Some c \<Rightarrow> if closed c then None else Some c))"

definition mark_online :: "connection_registry \<Rightarrow> string \<Rightarrow> conn \<Rightarrow> connection_registry" where
  "mark_online r e c =
     r(e \<mapsto> (runtime_entry r e)\<lparr>prs_status := Online, prs_connection := Some c\<rparr>)"

text \<open>Returns the connection it closes, with the reason \<open>unpaired\<close>.\<close>

definition close_and_forget :: "connection_registry \<Rightarrow> string \<Rightarrow> connection_registry \<times> conn option" where
  "close_and_forget r e =
     (r(e := None), case r e of None \<Rightarrow> None | Some s \<Rightarrow> prs_connection s)"

definition mark_offline :: "connection_registry \<Rightarrow> string \<Rightarrow> connection_registry" where
  "mark_offline r e =
     r(e \<mapsto> (runtime_entry r e)\<lparr>prs_status := Offline, prs_path := UnknownPath, prs_connection := None\<rparr>)"

definition should_keep_inbound ::
  "(conn \<Rightarrow> bool) \<Rightarrow> connection_registry \<Rightarrow> string \<Rightarrow> string \<Rightarrow> bool" where
  "should_keep_inbound closed r my_id remote_id =
     (case cached_connection closed r remote_id of None \<Rightarrow> True | Some _ \<Rightarrow> remote_id < my_id)"

section \<open>Runs of the registry\<close>

datatype registry_op = MarkOnline string conn | MarkOffline string | CloseAndForget string

fun registry_step :: "connection_registry \<Rightarrow> registry_op \<Rightarrow> connection_registry" where
  "registry_step r (MarkOnline e c) = mark_online r e c"
| "registry_step r (MarkOffline e) = mark_offline r e"
| "registry_step r (CloseAndForget e) = fst (close_and_forget r e)"

text \<open>The last operation on a peer, which alone decides what the registry says of it.\<close>

fun op_endpoint :: "registry_op \<Rightarrow> string" where
  "op_endpoint (MarkOnline e c) = e"
| "op_endpoint (MarkOffline e) = e"
| "op_endpoint (CloseAndForget e) = e"

definition last_op :: "registry_op list \<Rightarrow> string \<Rightarrow> registry_op option" where
  "last_op ops e = find (\<lambda>oper. op_endpoint oper = e) (rev ops)"

definition expected_status :: "(conn \<Rightarrow> bool) \<Rightarrow> registry_op option \<Rightarrow> peer_status" where
  "expected_status closed lo =
     (case lo of
        Some (MarkOnline e c) \<Rightarrow> Online
      | Some (MarkOffline e) \<Rightarrow> Offline
      | _ \<Rightarrow> UnknownStatus)"

definition expected_entry :: "registry_op option \<Rightarrow> peer_runtime_state option" where
  "expected_entry lo =
     (case lo of
        Some (MarkOnline e c) \<Rightarrow>
          Some \<lparr>prs_status = Online, prs_path = UnknownPath, prs_connection = Some c\<rparr>
      | Some (MarkOffline e) \<Rightarrow>
          Some \<lparr>prs_status = Offline, prs_path = UnknownPath, prs_connection = None\<rparr>
      | _ \<Rightarrow> None)"

lemma last_op_snoc: "last_op (ops @ [oper]) e = (if op_endpoint oper = e then Some oper else last_op ops e)"
  by (simp add: last_op_def)

lemma path_unknown: "prs_path (runtime_entry r e) = UnknownPath"
  if "\<And>s. r e = Some s \<Longrightarrow> prs_path s = UnknownPath"
  using that by (auto simp: runtime_entry_def runtime_default_def split: option.split)

lemma runtime_eqI: "prs_status (s :: peer_runtime_state) = a \<Longrightarrow> prs_path s = b \<Longrightarrow> prs_connection s = c \<Longrightarrow>
  s = \<lparr>prs_status = a, prs_path = b, prs_connection = c\<rparr>"
  by simp

lemma registry_run: "foldl registry_step Map.empty ops e = expected_entry (last_op ops e)"
proof (induction ops rule: rev_induct)
  case Nil
  then show ?case by (simp add: last_op_def expected_entry_def)
next
  case (snoc oper ops)
  let ?r = "foldl registry_step Map.empty ops"
  have path: "prs_path (runtime_entry ?r e) = UnknownPath"
    by (rule path_unknown) (auto simp: snoc.IH expected_entry_def split: option.splits registry_op.splits)
  show ?case
    using snoc.IH path
    by (cases oper) (auto simp: last_op_snoc mark_online_def mark_offline_def close_and_forget_def
        expected_entry_def intro!: runtime_eqI)
qed

text \<open>
  What the registry reports about a peer depends only on the last operation on that peer,
  over any run: online after a connection was recorded (also when it has closed since), offline
  after a failure, unknown after an unpairing.  A cached connection is offered exactly when the
  last operation recorded one that is still open, and the path is always unknown: no
  operation ever records a direct or relayed path.
\<close>

theorem registry_reports:
  "status_of closed (foldl registry_step Map.empty ops) e
     = (expected_status closed (last_op ops e), UnknownPath) \<and>
   cached_connection closed (foldl registry_step Map.empty ops) e =
     (case last_op ops e of
        Some (MarkOnline _ c) \<Rightarrow> if closed c then None else Some c
      | _ \<Rightarrow> None)"
  by (auto simp: status_of_def cached_connection_def registry_run expected_entry_def
      expected_status_def has_open_def split: option.split registry_op.split)

text \<open>
  The tie-break is consistent: when two different endpoints each already hold an open
  connection to the other, exactly one of them keeps the new inbound connection, the one with
  the greater id, so the outbound connection of the lower id survives on both sides.
\<close>

theorem tie_break_antisymmetric:
  assumes "a \<noteq> b" and "cached_connection closed_a reg_a b \<noteq> None"
    and "cached_connection closed_b reg_b a \<noteq> None"
  shows "(should_keep_inbound closed_a reg_a a b \<longleftrightarrow> \<not> should_keep_inbound closed_b reg_b b a) \<and>
    (should_keep_inbound closed_a reg_a a b \<longleftrightarrow> b < a)"
  using assms by (auto simp: should_keep_inbound_def split: option.splits)

theorem tie_break_antisymmetric_witness:
  "\<not> should_keep_inbound (\<lambda>_. False) (mark_online Map.empty ''b'' 1) ''a'' ''b'' \<and>
   should_keep_inbound (\<lambda>_. False) (mark_online Map.empty ''a'' 2) ''b'' ''a''"
proof -
  have 1: "cached_connection (\<lambda>_. False) (mark_online Map.empty ''b'' 1) ''b'' \<noteq> None"
    by (simp add: cached_connection_def mark_online_def runtime_entry_def)
  have 2: "cached_connection (\<lambda>_. False) (mark_online Map.empty ''a'' 2) ''a'' \<noteq> None"
    by (simp add: cached_connection_def mark_online_def runtime_entry_def)
  have "\<not> ''b'' < ''a''" by code_simp
  moreover have "''a'' \<noteq> ''b''" by simp
  ultimately show ?thesis using tie_break_antisymmetric [OF _ 1 2] by blast
qed

lemma close_and_forget_forgets:
  "status_of closed (fst (close_and_forget r e)) e = (UnknownStatus, UnknownPath)"
  "cached_connection closed (fst (close_and_forget r e)) e = None"
  by (simp_all add: close_and_forget_def status_of_def cached_connection_def)

lemma close_and_forget_closes:
  "cached_connection closed r e = Some c \<Longrightarrow> snd (close_and_forget r e) = Some c"
  by (auto simp: close_and_forget_def cached_connection_def split: option.splits if_splits)

end
