(* ===== verification/Lcp_Pairing.thy ===== *)
theory Lcp_Pairing
  imports Lcp_Prelude
begin

text \<open>
  The data and the pure functions of \<open>lcp-core/src/pairing.rs\<close>: the human-checkable verification
  string, the comparison of secrets, invites with their expiry and attempt limit, and pending
  pairings.  BLAKE3 is the argument \<open>hash\<close>; an \<open>Instant\<close> is a number of milliseconds.  The
  handlers that run the exchange are in the theory Lcp_Handshake.
\<close>

definition PAIRING_CONTEXT :: bytes where
  "PAIRING_CONTEXT = bytes_of ''lcp-pairing-v1''"

definition WORDLIST :: "string list" where
  "WORDLIST =
     [''mango'', ''river'', ''pencil'', ''orbit'', ''cedar'', ''flame'', ''cobalt'', ''harbor'',
      ''meadow'', ''quartz'', ''silver'', ''timber'', ''violet'', ''amber'', ''canyon'', ''delta'',
      ''ember'', ''frost'', ''granite'', ''hollow'', ''ivory'', ''jungle'', ''kernel'', ''lagoon'',
      ''marble'', ''nectar'', ''opal'', ''prairie'', ''quiver'', ''ridge'', ''summit'', ''tundra'',
      ''umber'', ''valley'', ''willow'', ''xenon'', ''yonder'', ''zephyr'', ''anchor'', ''basalt'',
      ''cinder'', ''dune'', ''echo'', ''fable'', ''glacier'', ''haven'', ''island'', ''jasper'',
      ''knoll'', ''lumen'', ''mesa'', ''nimbus'', ''onyx'', ''pebble'', ''quill'', ''raven'',
      ''shard'', ''thicket'', ''unity'', ''vapor'', ''wisp'', ''yarrow'', ''zenith'', ''arbor'']"

lemma length_WORDLIST: "length WORDLIST = 64"
  by (simp add: WORDLIST_def)

definition word_for :: "u8 \<Rightarrow> string" where
  "word_for b = WORDLIST ! (unat b mod length WORDLIST)"

text \<open>\<open>u16::from_be_bytes\<close> of two bytes.\<close>

definition be16 :: "u8 \<Rightarrow> u8 \<Rightarrow> u16" where
  "be16 hi lo = ucast hi * 256 + ucast lo"

definition hash_input :: "string \<Rightarrow> string \<Rightarrow> bytes \<Rightarrow> bytes \<Rightarrow> bytes \<Rightarrow> bytes" where
  "hash_input a b secret na nb =
     (let ids = (if a \<le> b then (a, b) else (b, a));
          ns = (if na \<le> nb then (na, nb) else (nb, na))
      in PAIRING_CONTEXT @ bytes_of (fst ids) @ bytes_of (snd ids) @ secret @ fst ns @ snd ns)"

definition derive_verification_string ::
  "(bytes \<Rightarrow> bytes) \<Rightarrow> string \<Rightarrow> string \<Rightarrow> bytes \<Rightarrow> bytes \<Rightarrow> bytes \<Rightarrow> string" where
  "derive_verification_string hash a b secret na nb =
     (let h = hash (hash_input a b secret na nb);
          digits = be16 (h ! 3) (h ! 4) mod 10000
      in word_for (h ! 0) @ ''-'' @ word_for (h ! 1) @ ''-'' @ word_for (h ! 2) @ ''-''
           @ show_nat4 (unat digits))"

text \<open>Constant-time comparison: equality, as far as results go.\<close>

definition secrets_match :: "bytes \<Rightarrow> bytes \<Rightarrow> bool" where
  "secrets_match a b \<longleftrightarrow> a = b"

definition MAX_PAIRING_ATTEMPTS_PER_INVITE :: u32 where
  "MAX_PAIRING_ATTEMPTS_PER_INVITE = 20"

text \<open>Timeouts, in milliseconds.\<close>

definition PAIRING_CONFIRM_TIMEOUT :: nat where
  "PAIRING_CONFIRM_TIMEOUT = 120000"

definition PAIRING_FINISH_ACK_TIMEOUT :: nat where
  "PAIRING_FINISH_ACK_TIMEOUT = 5000"

type_synonym instant = nat

record active_invite =
  ai_secret :: bytes
  ai_created_at :: instant
  ai_expires_at :: instant
  ai_ticket_text :: string
  ai_attempts :: u32

definition invite_is_expired :: "active_invite \<Rightarrow> instant \<Rightarrow> bool" where
  "invite_is_expired iv now \<longleftrightarrow> now \<ge> ai_expires_at iv"

definition attempts_exhausted :: "active_invite \<Rightarrow> bool" where
  "attempts_exhausted iv \<longleftrightarrow> ai_attempts iv \<ge> MAX_PAIRING_ATTEMPTS_PER_INVITE"

datatype pairing_role = Inviter | Joiner

text \<open>The sending half of a one-shot channel is the number of the channel.\<close>

record pending_pairing =
  pp_role :: pairing_role
  pp_peer_endpoint_id :: string
  pp_peer_display_name :: string
  pp_peer_device_name :: string
  pp_verification_string :: string
  pp_decision_tx :: "nat option"

text \<open>
  The first lock section of \<open>handle_pair_request\<close>: find the invite by its secret, refuse it when
  it is expired or exhausted, otherwise count the attempt.
\<close>

definition check_invite ::
  "instant \<Rightarrow> bytes \<Rightarrow> active_invite list \<Rightarrow> active_invite list \<times> string option" where
  "check_invite now secret invites =
     (case find (\<lambda>iv. secrets_match (ai_secret iv) secret) invites of
        None \<Rightarrow> (invites, Some ''invalid_or_expired_invite'')
      | Some iv \<Rightarrow>
          if invite_is_expired iv now then (invites, Some ''invalid_or_expired_invite'')
          else if attempts_exhausted iv then (invites, Some ''too_many_attempts'')
          else (update_first (\<lambda>iv. secrets_match (ai_secret iv) secret)
                  (\<lambda>iv. iv\<lparr>ai_attempts := ai_attempts iv + 1\<rparr>) invites, None))"

text \<open>The invites that are left when the one with this secret was used.\<close>

definition consume_invite :: "bytes \<Rightarrow> active_invite list \<Rightarrow> active_invite list" where
  "consume_invite secret invites = filter (\<lambda>iv. \<not> secrets_match (ai_secret iv) secret) invites"

section \<open>Lemmas\<close>

lemma hash_input_swap: "hash_input a b s n m = hash_input b a s m n"
  by (auto simp: hash_input_def Let_def)

lemma word_for_mem: "word_for b \<in> set WORDLIST"
  unfolding word_for_def by (rule nth_mem) (simp add: length_WORDLIST)

lemma length_show_nat: "n < 10 ^ Suc k \<Longrightarrow> length (show_nat n) \<le> Suc k"
proof (induction k arbitrary: n)
  case 0
  then show ?case by (simp add: show_nat.simps [of n])
next
  case (Suc k)
  then have "n div 10 < 10 ^ Suc k" by (simp add: less_mult_imp_div_less)
  with Suc.IH [of "n div 10"] show ?case by (subst show_nat.simps) simp
qed

lemma length_show_nat4: "n < 10000 \<Longrightarrow> length (show_nat4 n) = 4"
  using length_show_nat [of n 3] by (simp add: show_nat4_def Let_def)

definition attempts_ok :: "active_invite \<Rightarrow> bool" where
  "attempts_ok iv \<longleftrightarrow> ai_attempts iv \<le> MAX_PAIRING_ATTEMPTS_PER_INVITE"

lemma attempts_step:
  "\<not> attempts_exhausted iv \<Longrightarrow> attempts_ok (iv\<lparr>ai_attempts := ai_attempts iv + 1\<rparr>)"
  "\<not> attempts_exhausted iv \<Longrightarrow> unat (ai_attempts iv + 1) = Suc (unat (ai_attempts iv))"
proof -
  assume "\<not> attempts_exhausted iv"
  then have lt: "unat (ai_attempts iv) < 20"
    by (simp add: attempts_exhausted_def MAX_PAIRING_ATTEMPTS_PER_INVITE_def word_le_nat_alt)
  then show "unat (ai_attempts iv + 1) = Suc (unat (ai_attempts iv))"
    by (simp add: unat_word_ariths)
  with lt show "attempts_ok (iv\<lparr>ai_attempts := ai_attempts iv + 1\<rparr>)"
    by (simp add: attempts_ok_def MAX_PAIRING_ATTEMPTS_PER_INVITE_def word_le_nat_alt)
qed

lemma set_update_first_found:
  "find P xs = Some x \<Longrightarrow> y \<in> set (update_first P f xs) \<Longrightarrow> y \<in> set xs \<or> y = f x"
  by (induction xs) (auto split: if_splits)

lemma check_invite_attempts [keeps]:
  assumes "\<forall>iv \<in> set invites. attempts_ok iv"
  shows "\<forall>iv \<in> set (fst (check_invite now secret invites)). attempts_ok iv"
  using assms attempts_step(1)
  by (auto simp: check_invite_def split: option.split dest!: set_update_first_found)

lemma check_invite_secrets: "map ai_secret (fst (check_invite now secret invites)) = map ai_secret invites"
  by (simp add: check_invite_def map_update_first split: option.split)

section \<open>Properties\<close>

text \<open>
  C37.  Both sides of a pairing derive the same verification string: swapping the two endpoints
  together with their nonces changes nothing.  The string is three words of the list and four
  decimal digits, joined by dashes.
\<close>

theorem verification_string_symmetric:
  "derive_verification_string hash a b secret na nb = derive_verification_string hash b a secret nb na \<and>
   (\<exists>w1 w2 w3 ds. derive_verification_string hash a b secret na nb
        = w1 @ ''-'' @ w2 @ ''-'' @ w3 @ ''-'' @ ds \<and>
      {w1, w2, w3} \<subseteq> set WORDLIST \<and> length ds = 4 \<and> digits_value 0 ds \<noteq> None)"
proof (rule conjI)
  show "derive_verification_string hash a b secret na nb = derive_verification_string hash b a secret nb na"
    by (simp only: derive_verification_string_def hash_input_swap)
  let ?h = "hash (hash_input a b secret na nb)"
  let ?d = "unat (be16 (?h ! 3) (?h ! 4) mod 10000)"
  have d: "?d < 10000" by (simp add: unat_mod_distrib)
  have zeros: "digits_value 0 (replicate k (CHR ''0'') @ s) = digits_value 0 s" for k s
    by (induction k) (simp_all add: digit_value_def)
  have "digits_value 0 (show_nat4 ?d) \<noteq> None"
    by (simp add: show_nat4_def Let_def zeros)
  with length_show_nat4 [OF d] show "\<exists>w1 w2 w3 ds. derive_verification_string hash a b secret na nb
      = w1 @ ''-'' @ w2 @ ''-'' @ w3 @ ''-'' @ ds \<and>
      {w1, w2, w3} \<subseteq> set WORDLIST \<and> length ds = 4 \<and> digits_value 0 ds \<noteq> None"
    unfolding derive_verification_string_def Let_def by (blast intro: word_for_mem)
qed



end
