(* ===== verification/Lcp_State.thy ===== *)
theory Lcp_State
  imports Lcp_Ipc Lcp_Ticket Lcp_Config Lcp_Conversation Lcp_Connection Lcp_Pairing
begin

text \<open>
  The state behind the daemon's lock (\<open>lcp-core/src/state.rs\<close>) and the world around it.
  \<open>externs\<close> collects the third-party functions the sources call, \<open>lock_env\<close> what one lock section
  reads from outside (clock, file system faults, which channels and connections are still
  open), and \<open>world\<close> what tasks share: the application state, the disk, the queues of the
  event channels, the one-shot channels and the connections that were closed.
\<close>

section \<open>Third-party functions\<close>

record externs =
  x_ser :: "network_envelope \<Rightarrow> string + bytes"
  x_de :: "bytes \<Rightarrow> network_envelope option"
  x_ticket_ser :: "pairing_ticket \<Rightarrow> string + bytes"
  x_ticket_de :: "bytes \<Rightarrow> pairing_ticket option"
  x_b64e :: "bytes \<Rightarrow> string"
  x_b64d :: "string \<Rightarrow> bytes option"
  x_hash :: "bytes \<Rightarrow> bytes"
  x_public :: "bytes \<Rightarrow> string" \<comment> \<open>\<open>secret_key.public().to_string()\<close>\<close>
  x_uuid_text :: "uuid \<Rightarrow> string"
  x_uuid_parse :: "string \<Rightarrow> uuid option"
  x_dbg :: "string \<Rightarrow> string" \<comment> \<open>\<open>{:?}\<close> of a string\<close>
  x_dbg_body :: "network_body \<Rightarrow> string"
  x_io_text :: "io_error \<Rightarrow> string"
  x_key_addr :: "string \<Rightarrow> string option" \<comment> \<open>\<open>parse::<PublicKey>\<close>, then an address\<close>
  x_ticket_addr :: "string \<Rightarrow> string option" \<comment> \<open>\<open>parse::<EndpointTicket>\<close>, then an address\<close>
  x_lowercase :: "string \<Rightarrow> string" \<comment> \<open>\<open>str::to_lowercase\<close>\<close>
  x_pkg_version :: string

section \<open>Application state\<close>

record local_identity =
  secret_key :: bytes

definition identity_endpoint_id :: "externs \<Rightarrow> local_identity \<Rightarrow> string" where
  "identity_endpoint_id x i = x_public x (secret_key i)"

record app_state =
  identity :: local_identity
  st_config :: config
  st_conversations :: conversation_store
  peer_connections :: connection_registry
  active_invites :: "active_invite list"
  pending_pairings :: "uuid \<Rightarrow> pending_pairing option"
  subscribers :: "nat list"
  started_at :: instant

definition app_state_new :: "local_identity \<Rightarrow> config \<Rightarrow> instant \<Rightarrow> app_state" where
  "app_state_new i c now =
     \<lparr>identity = i, st_config = c,
      st_conversations = store_new (unat (limit_per_peer (history_cfg c))),
      peer_connections = Map.empty, active_invites = [], pending_pairings = Map.empty,
      subscribers = [], started_at = now\<rparr>"

text \<open>\<open>Instant::elapsed\<close> saturates at zero.\<close>

definition uptime :: "app_state \<Rightarrow> instant \<Rightarrow> nat" where
  "uptime s now = now - started_at s"

definition add_subscriber :: "app_state \<Rightarrow> nat \<Rightarrow> app_state" where
  "add_subscriber s ch = s\<lparr>subscribers := subscribers s @ [ch]\<rparr>"

section \<open>The world\<close>

datatype oneshot = Waiting | SentValue bool

record world =
  app :: app_state
  disk :: fs
  outbox :: "(nat \<times> ipc_event) list"
  closings :: "(conn \<times> string) list"
  oneshots :: "nat \<Rightarrow> oneshot"
  next_oneshot :: nat
  shutdown_requested :: bool

text \<open>
  What a critical section finds outside the program: its readings of the clocks (the second
  reading of the monotonic clock in one section comes \<open>le_elapsed\<close> milliseconds after the
  first), new identifiers, which channels and connections are alive.
\<close>

record lock_env =
  le_os :: os_env
  le_unix_ms :: int
  le_instant :: instant
  le_elapsed :: nat
  le_rfc3339 :: string
  le_uuid :: uuid
  le_alive :: "nat \<Rightarrow> bool"
  le_closed :: "conn \<Rightarrow> bool"
  le_keys :: "string list"

text \<open>\<open>close_reason().is_some()\<close>: closed by the peer or the network, or by this program.\<close>

definition is_closed :: "lock_env \<Rightarrow> world \<Rightarrow> conn \<Rightarrow> bool" where
  "is_closed env w c \<longleftrightarrow> le_closed env c \<or> c \<in> fst ` set (closings w)"

definition map_app :: "(app_state \<Rightarrow> app_state) \<Rightarrow> world \<Rightarrow> world" where
  "map_app f w = w\<lparr>app := f (app w)\<rparr>"

definition map_config :: "(config \<Rightarrow> config) \<Rightarrow> world \<Rightarrow> world" where
  "map_config f = map_app (\<lambda>s. s\<lparr>st_config := f (st_config s)\<rparr>)"

definition map_conversations :: "(conversation_store \<Rightarrow> conversation_store) \<Rightarrow> world \<Rightarrow> world" where
  "map_conversations f = map_app (\<lambda>s. s\<lparr>st_conversations := f (st_conversations s)\<rparr>)"

definition map_connections :: "(connection_registry \<Rightarrow> connection_registry) \<Rightarrow> world \<Rightarrow> world" where
  "map_connections f = map_app (\<lambda>s. s\<lparr>peer_connections := f (peer_connections s)\<rparr>)"

definition map_invites :: "(active_invite list \<Rightarrow> active_invite list) \<Rightarrow> world \<Rightarrow> world" where
  "map_invites f = map_app (\<lambda>s. s\<lparr>active_invites := f (active_invites s)\<rparr>)"

definition map_pending ::
  "((uuid \<Rightarrow> pending_pairing option) \<Rightarrow> uuid \<Rightarrow> pending_pairing option) \<Rightarrow> world \<Rightarrow> world" where
  "map_pending f = map_app (\<lambda>s. s\<lparr>pending_pairings := f (pending_pairings s)\<rparr>)"

abbreviation trusted_of :: "world \<Rightarrow> trusted_peer list" where
  "trusted_of w \<equiv> trusted_peers (st_config (app w))"

lemmas map_world_defs =
  map_app_def map_config_def map_conversations_def map_connections_def map_invites_def map_pending_def

definition broadcast_event :: "lock_env \<Rightarrow> string \<Rightarrow> json \<Rightarrow> world \<Rightarrow> world" where
  "broadcast_event env name payload w =
     (let ev = \<lparr>ev_ipc_version = IPC_PROTOCOL_VERSION, ev_event = name, ev_payload = payload\<rparr>;
          live = filter (le_alive env) (subscribers (app w))
      in w\<lparr>outbox := outbox w @ map (\<lambda>ch. (ch, ev)) live,
           app := (app w)\<lparr>subscribers := live\<rparr>\<rparr>)"

text \<open>\<open>state.config.save()\<close>\<close>

definition save_config :: "lock_env \<Rightarrow> world \<Rightarrow> world \<times> (config_error + unit)" where
  "save_config env w =
     (case config_save (le_os env) (st_config (app w)) (disk w) of (d, r) \<Rightarrow> (w\<lparr>disk := d\<rparr>, r))"

section \<open>Lemmas\<close>

lemma broadcast_sel [simp]:
  "disk (broadcast_event env n p w) = disk w" "closings (broadcast_event env n p w) = closings w"
  "oneshots (broadcast_event env n p w) = oneshots w"
  "next_oneshot (broadcast_event env n p w) = next_oneshot w"
  "shutdown_requested (broadcast_event env n p w) = shutdown_requested w"
  "identity (app (broadcast_event env n p w)) = identity (app w)"
  "st_config (app (broadcast_event env n p w)) = st_config (app w)"
  "st_conversations (app (broadcast_event env n p w)) = st_conversations (app w)"
  "peer_connections (app (broadcast_event env n p w)) = peer_connections (app w)"
  "active_invites (app (broadcast_event env n p w)) = active_invites (app w)"
  "pending_pairings (app (broadcast_event env n p w)) = pending_pairings (app w)"
  "started_at (app (broadcast_event env n p w)) = started_at (app w)"
  by (simp_all add: broadcast_event_def Let_def)

lemma map_world_sel [simp]:
  "disk (map_app f w) = disk w" "outbox (map_app f w) = outbox w" "closings (map_app f w) = closings w"
  "oneshots (map_app f w) = oneshots w" "next_oneshot (map_app f w) = next_oneshot w"
  "shutdown_requested (map_app f w) = shutdown_requested w" "app (map_app f w) = f (app w)"
  by (simp_all add: map_app_def)

lemma map_world_fields [simp]:
  "app (map_config g w) = (app w)\<lparr>st_config := g (st_config (app w))\<rparr>"
  "app (map_conversations h w) = (app w)\<lparr>st_conversations := h (st_conversations (app w))\<rparr>"
  "app (map_connections k w) = (app w)\<lparr>peer_connections := k (peer_connections (app w))\<rparr>"
  "app (map_invites l w) = (app w)\<lparr>active_invites := l (active_invites (app w))\<rparr>"
  "app (map_pending m w) = (app w)\<lparr>pending_pairings := m (pending_pairings (app w))\<rparr>"
  by (simp_all add: map_world_defs)

lemma map_world_rest [simp]:
  "disk (map_config g w) = disk w" "outbox (map_config g w) = outbox w"
  "closings (map_config g w) = closings w" "oneshots (map_config g w) = oneshots w"
  "next_oneshot (map_config g w) = next_oneshot w"
  "disk (map_conversations h w) = disk w" "outbox (map_conversations h w) = outbox w"
  "closings (map_conversations h w) = closings w" "oneshots (map_conversations h w) = oneshots w"
  "next_oneshot (map_conversations h w) = next_oneshot w"
  "disk (map_connections k w) = disk w" "outbox (map_connections k w) = outbox w"
  "closings (map_connections k w) = closings w" "oneshots (map_connections k w) = oneshots w"
  "next_oneshot (map_connections k w) = next_oneshot w"
  "disk (map_invites l w) = disk w" "outbox (map_invites l w) = outbox w"
  "closings (map_invites l w) = closings w" "oneshots (map_invites l w) = oneshots w"
  "next_oneshot (map_invites l w) = next_oneshot w"
  "disk (map_pending m w) = disk w" "outbox (map_pending m w) = outbox w"
  "closings (map_pending m w) = closings w" "oneshots (map_pending m w) = oneshots w"
  "next_oneshot (map_pending m w) = next_oneshot w"
  by (simp_all add: map_world_defs)

lemma save_config_sel [simp]:
  "app (fst (save_config env w)) = app w" "outbox (fst (save_config env w)) = outbox w"
  "closings (fst (save_config env w)) = closings w" "oneshots (fst (save_config env w)) = oneshots w"
  "next_oneshot (fst (save_config env w)) = next_oneshot w"
  by (simp_all add: save_config_def split: prod.split)

lemma save_config_eq: "save_config env w = (w\<lparr>disk := fst (config_save (le_os env) (st_config (app w)) (disk w))\<rparr>,
  snd (config_save (le_os env) (st_config (app w)) (disk w)))"
  by (simp add: save_config_def split: prod.split)

text \<open>
  A broadcast reaches every subscriber whose connection is still open exactly once, in
  subscription order, behind what was already queued, forgets the subscribers whose
  connection has closed, and changes nothing else.
\<close>

theorem broadcast_event_spec:
  "let w' = broadcast_event env name payload w;
       ev = \<lparr>ev_ipc_version = IPC_PROTOCOL_VERSION, ev_event = name, ev_payload = payload\<rparr>
   in (\<forall>ch. filter (\<lambda>m. fst m = ch) (outbox w') = filter (\<lambda>m. fst m = ch) (outbox w) @
        (if le_alive env ch then replicate (count_list (subscribers (app w)) ch) (ch, ev) else [])) \<and>
      subscribers (app w') = filter (le_alive env) (subscribers (app w)) \<and>
      w' = w\<lparr>outbox := outbox w', app := (app w)\<lparr>subscribers := subscribers (app w')\<rparr>\<rparr>"
proof -
  have live: "filter (\<lambda>m. fst m = ch) (map (\<lambda>c. (c, ev)) (filter P xs)) =
      (if P ch then replicate (count_list xs ch) (ch, ev) else [])"
    for ch :: nat and ev :: ipc_event and P xs
    by (induction xs) auto
  then show ?thesis by (simp add: broadcast_event_def Let_def)
qed

end
