(* ===== verification/Lcp_Task.thy ===== *)
theory Lcp_Task
  imports Lcp_State
begin

text \<open>
  The asynchronous tasks of the daemon.  A task is a tree of the operations it performs, each
  with the continuation that receives its result: one constructor per kind of operation that
  the sources await or that touches shared state.  A lock section (the code between acquiring
  the state's lock and releasing it) is a function of the environment and the world.  Everything
  that a result can be is left to the environment: clocks, random bytes, connections, what a
  peer sends, failures and timeouts at every point where the code can meet one.
  \<open>estep\<close> is one step of a task, \<open>pool_step\<close> any interleaving of the steps of all tasks, and
  \<open>always\<close> the statement that every step of a task and every response it gives satisfy a
  condition over what the task did before.
\<close>

section \<open>Tasks and steps\<close>

type_synonym stream = nat

datatype task =
    Done "ipc_response option"
  | Lock "lock_env \<Rightarrow> world \<Rightarrow> world \<times> task"
  | Unix_ms "int \<Rightarrow> task"
  | Instant_now "instant \<Rightarrow> task"
  | New_uuid "uuid \<Rightarrow> task"
  | Random_secret "bytes \<Rightarrow> task"
  | New_channel "nat \<Rightarrow> task"
  | Dial string "nat option" "(string + (conn \<times> string)) option \<Rightarrow> task"
  | Open_bi conn "string + stream \<Rightarrow> task"
  | Write_all stream bytes "nat option" "(string + unit) option \<Rightarrow> task"
  | Read_exact stream nat "nat option" "(string + bytes) option \<Rightarrow> task"
  | Finish stream task
  | Wait_online nat "bool \<Rightarrow> task"
  | Endpoint_ticket "string \<Rightarrow> task"
  | Wait_decision nat nat "bool option \<Rightarrow> task"
  | Wait_stopped stream nat task
  | Send_decision nat bool task
  | Notify_shutdown task
  | Close_conn conn string task
  | Probe_autostart "bool \<Rightarrow> task"
  | Spawn task task
  | Accept_loop conn "stream \<Rightarrow> task"

datatype event =
    Locked lock_env
  | Clock int
  | At instant
  | Fresh_uuid uuid
  | Fresh_secret bytes
  | Opened_channel nat
  | Dialled string "(string + (conn \<times> string)) option"
  | Opened conn "string + stream"
  | Wrote stream bytes "(string + unit) option"
  | Got stream nat "(string + bytes) option"
  | Finished stream
  | Waited_online bool
  | Ticket_of_endpoint string
  | Decided nat "bool option"
  | Stopped stream
  | Sent_decision nat bool
  | Notified
  | Closed_conn conn string
  | Probed bool
  | Spawned
  | Accepted_stream conn "stream option"

text \<open>
  A step of a task on an event: the new world, the rest of the task and the tasks it
  spawned.  An event that does not answer the task's operation is no step; a timeout (\<open>None\<close>) needs a
  deadline, a read returns as many bytes as were asked for, and a decision arrives only
  when it was sent.
\<close>

definition opened_channel :: "world \<Rightarrow> world" where
  "opened_channel w =
     w\<lparr>oneshots := (oneshots w)(next_oneshot w := Waiting), next_oneshot := Suc (next_oneshot w)\<rparr>"

definition sent_decision :: "nat \<Rightarrow> bool \<Rightarrow> world \<Rightarrow> world" where
  "sent_decision ch b w = w\<lparr>oneshots := (oneshots w)(ch := SentValue b)\<rparr>"

primrec estep :: "task \<Rightarrow> event \<Rightarrow> world \<Rightarrow> (world \<times> task \<times> task list) option" where
  "estep (Done r) e w = None"
| "estep (Lock f) e w =
     (case e of Locked env \<Rightarrow> (case f env w of (w', t) \<Rightarrow> Some (w', t, [])) | _ \<Rightarrow> None)"
| "estep (Unix_ms k) e w = (case e of Clock n \<Rightarrow> Some (w, k n, []) | _ \<Rightarrow> None)"
| "estep (Instant_now k) e w = (case e of At n \<Rightarrow> Some (w, k n, []) | _ \<Rightarrow> None)"
| "estep (New_uuid k) e w = (case e of Fresh_uuid u \<Rightarrow> Some (w, k u, []) | _ \<Rightarrow> None)"
| "estep (Random_secret k) e w =
     (case e of Fresh_secret bs \<Rightarrow> if length bs = 32 then Some (w, k bs, []) else None | _ \<Rightarrow> None)"
| "estep (New_channel k) e w =
     (case e of Opened_channel ch \<Rightarrow>
        if ch = next_oneshot w then Some (opened_channel w, k ch, []) else None
      | _ \<Rightarrow> None)"
| "estep (Dial addr d k) e w =
     (case e of Dialled addr' r \<Rightarrow>
        if addr' = addr \<and> (r = None \<longrightarrow> d \<noteq> None) then Some (w, k r, []) else None
      | _ \<Rightarrow> None)"
| "estep (Open_bi c k) e w = (case e of Opened c' r \<Rightarrow> if c' = c then Some (w, k r, []) else None | _ \<Rightarrow> None)"
| "estep (Write_all s bs d k) e w =
     (case e of Wrote s' bs' r \<Rightarrow>
        if s' = s \<and> bs' = bs \<and> (r = None \<longrightarrow> d \<noteq> None) then Some (w, k r, []) else None
      | _ \<Rightarrow> None)"
| "estep (Read_exact s n d k) e w =
     (case e of Got s' n' r \<Rightarrow>
        if s' = s \<and> n' = n \<and> (r = None \<longrightarrow> d \<noteq> None) \<and> (\<forall>bs. r = Some (Inr bs) \<longrightarrow> length bs = n)
        then Some (w, k r, []) else None
      | _ \<Rightarrow> None)"
| "estep (Finish s t) e w = (case e of Finished s' \<Rightarrow> if s' = s then Some (w, t, []) else None | _ \<Rightarrow> None)"
| "estep (Wait_online d k) e w = (case e of Waited_online b \<Rightarrow> Some (w, k b, []) | _ \<Rightarrow> None)"
| "estep (Endpoint_ticket k) e w = (case e of Ticket_of_endpoint a \<Rightarrow> Some (w, k a, []) | _ \<Rightarrow> None)"
| "estep (Wait_decision ch d k) e w =
     (case e of Decided ch' r \<Rightarrow>
        if ch' = ch \<and> (\<forall>b. r = Some b \<longrightarrow> oneshots w ch = SentValue b) then Some (w, k r, []) else None
      | _ \<Rightarrow> None)"
| "estep (Wait_stopped s d t) e w = (case e of Stopped s' \<Rightarrow> if s' = s then Some (w, t, []) else None | _ \<Rightarrow> None)"
| "estep (Send_decision ch b t) e w =
     (case e of Sent_decision ch' b' \<Rightarrow>
        if ch' = ch \<and> b' = b then Some (sent_decision ch b w, t, []) else None
      | _ \<Rightarrow> None)"
| "estep (Notify_shutdown t) e w =
     (case e of Notified \<Rightarrow> Some (w\<lparr>shutdown_requested := True\<rparr>, t, []) | _ \<Rightarrow> None)"
| "estep (Close_conn c r t) e w =
     (case e of Closed_conn c' r' \<Rightarrow>
        if c' = c \<and> r' = r then Some (w\<lparr>closings := closings w @ [(c, r)]\<rparr>, t, []) else None
      | _ \<Rightarrow> None)"
| "estep (Probe_autostart k) e w = (case e of Probed b \<Rightarrow> Some (w, k b, []) | _ \<Rightarrow> None)"
| "estep (Spawn u t) e w = (case e of Spawned \<Rightarrow> Some (w, t, [u]) | _ \<Rightarrow> None)"
| "estep (Accept_loop c k) e w =
     (case e of Accepted_stream c' r \<Rightarrow>
        if c' = c
        then (case r of None \<Rightarrow> Some (w, Done None, []) | Some s \<Rightarrow> Some (w, Accept_loop c k, [k s]))
        else None
      | _ \<Rightarrow> None)"

text \<open>The log of a task: its steps, newest first, with the world before and after each.\<close>

type_synonym entry = "event \<times> world \<times> world"
type_synonym log = "entry list"

coinductive always ::
  "(log \<Rightarrow> entry \<Rightarrow> bool) \<Rightarrow> (log \<Rightarrow> ipc_response option \<Rightarrow> bool) \<Rightarrow> log \<Rightarrow> task \<Rightarrow> bool"
  for P Q where
  always_intro: "(\<And>r. t = Done r \<Longrightarrow> Q h r) \<Longrightarrow>
   (\<And>e w w' t' ts. estep t e w = Some (w', t', ts) \<Longrightarrow>
      P h (e, w, w') \<and> always P Q ((e, w, w') # h) t' \<and>
      (\<forall>u \<in> set ts. always P Q ((e, w, w') # h) u)) \<Longrightarrow> always P Q h t"

section \<open>One rule per operation\<close>

lemma always_iff:
  "always P Q h t \<longleftrightarrow>
     (\<forall>r. t = Done r \<longrightarrow> Q h r) \<and>
     (\<forall>e w w' t' ts. estep t e w = Some (w', t', ts) \<longrightarrow>
        P h (e, w, w') \<and> always P Q ((e, w, w') # h) t' \<and>
        (\<forall>u \<in> set ts. always P Q ((e, w, w') # h) u))"
proof
  assume "always P Q h t"
  then show "(\<forall>r. t = Done r \<longrightarrow> Q h r) \<and>
     (\<forall>e w w' t' ts. estep t e w = Some (w', t', ts) \<longrightarrow>
        P h (e, w, w') \<and> always P Q ((e, w, w') # h) t' \<and>
        (\<forall>u \<in> set ts. always P Q ((e, w, w') # h) u))"
    by (cases rule: always.cases) blast
qed (blast intro: always_intro)

lemma always_Done [simp]: "always P Q h (Done r) \<longleftrightarrow> Q h r"
  by (subst always_iff) simp

lemma always_Lock: "always P Q h (Lock f) \<longleftrightarrow>
    (\<forall>env w. P h (Locked env, w, fst (f env w)) \<and>
       always P Q ((Locked env, w, fst (f env w)) # h) (snd (f env w)))"
  by (subst always_iff) (simp split: event.split prod.split, metis fst_conv snd_conv prod.collapse)

lemma always_Unix_ms: "always P Q h (Unix_ms k) \<longleftrightarrow>
    (\<forall>w n. P h (Clock n, w, w) \<and> always P Q ((Clock n, w, w) # h) (k n))"
  by (subst always_iff) (simp split: event.split; blast?)

lemma always_Instant_now: "always P Q h (Instant_now k) \<longleftrightarrow>
    (\<forall>w n. P h (At n, w, w) \<and> always P Q ((At n, w, w) # h) (k n))"
  by (subst always_iff) (simp split: event.split; blast?)

lemma always_New_uuid: "always P Q h (New_uuid k) \<longleftrightarrow>
    (\<forall>w u. P h (Fresh_uuid u, w, w) \<and> always P Q ((Fresh_uuid u, w, w) # h) (k u))"
  by (subst always_iff) (simp split: event.split; blast?)

lemma always_Random_secret: "always P Q h (Random_secret k) \<longleftrightarrow>
    (\<forall>w bs. length bs = 32 \<longrightarrow> P h (Fresh_secret bs, w, w) \<and> always P Q ((Fresh_secret bs, w, w) # h) (k bs))"
  by (subst always_iff) (simp split: event.split; blast?)

lemma always_Dial: "always P Q h (Dial addr d k) \<longleftrightarrow>
    (\<forall>w r. (r = None \<longrightarrow> d \<noteq> None) \<longrightarrow>
       P h (Dialled addr r, w, w) \<and> always P Q ((Dialled addr r, w, w) # h) (k r))"
  by (subst always_iff) (simp split: event.split; blast?)

lemma always_New_channel: "always P Q h (New_channel k) \<longleftrightarrow>
    (\<forall>w. P h (Opened_channel (next_oneshot w), w, opened_channel w) \<and> always P Q ((Opened_channel (next_oneshot w), w, opened_channel w) # h) (k (next_oneshot w)))"
  by (subst always_iff) (simp split: event.split; blast?)

lemma always_Open_bi: "always P Q h (Open_bi c k) \<longleftrightarrow>
    (\<forall>w r. P h (Opened c r, w, w) \<and> always P Q ((Opened c r, w, w) # h) (k r))"
  by (subst always_iff) (simp split: event.split; blast?)

lemma always_Write_all: "always P Q h (Write_all s bs d k) \<longleftrightarrow>
    (\<forall>w r. (r = None \<longrightarrow> d \<noteq> None) \<longrightarrow> P h (Wrote s bs r, w, w) \<and> always P Q ((Wrote s bs r, w, w) # h) (k r))"
  by (subst always_iff) (simp split: event.split; blast?)

lemma always_Read_exact: "always P Q h (Read_exact s n d k) \<longleftrightarrow>
    (\<forall>w r. (r = None \<longrightarrow> d \<noteq> None) \<and> (\<forall>bs. r = Some (Inr bs) \<longrightarrow> length bs = n) \<longrightarrow> P h (Got s n r, w, w) \<and> always P Q ((Got s n r, w, w) # h) (k r))"
  by (subst always_iff) (simp split: event.split; blast?)

lemma always_Finish: "always P Q h (Finish s t) \<longleftrightarrow>
    (\<forall>w. P h (Finished s, w, w) \<and> always P Q ((Finished s, w, w) # h) t)"
  by (subst always_iff) (simp split: event.split; blast?)

lemma always_Wait_online: "always P Q h (Wait_online d k) \<longleftrightarrow>
    (\<forall>w b. P h (Waited_online b, w, w) \<and> always P Q ((Waited_online b, w, w) # h) (k b))"
  by (subst always_iff) (simp split: event.split; blast?)

lemma always_Endpoint_ticket: "always P Q h (Endpoint_ticket k) \<longleftrightarrow>
    (\<forall>w a. P h (Ticket_of_endpoint a, w, w) \<and> always P Q ((Ticket_of_endpoint a, w, w) # h) (k a))"
  by (subst always_iff) (simp split: event.split; blast?)

lemma always_Wait_decision: "always P Q h (Wait_decision ch d k) \<longleftrightarrow>
    (\<forall>w r. (\<forall>b. r = Some b \<longrightarrow> oneshots w ch = SentValue b) \<longrightarrow> P h (Decided ch r, w, w) \<and> always P Q ((Decided ch r, w, w) # h) (k r))"
  by (subst always_iff) (simp split: event.split; blast?)

lemma always_Wait_stopped: "always P Q h (Wait_stopped s d t) \<longleftrightarrow>
    (\<forall>w. P h (Stopped s, w, w) \<and> always P Q ((Stopped s, w, w) # h) t)"
  by (subst always_iff) (simp split: event.split; blast?)

lemma always_Send_decision: "always P Q h (Send_decision ch b t) \<longleftrightarrow>
    (\<forall>w. P h (Sent_decision ch b, w, sent_decision ch b w) \<and> always P Q ((Sent_decision ch b, w, sent_decision ch b w) # h) t)"
  by (subst always_iff) (simp split: event.split; blast?)

lemma always_Notify_shutdown: "always P Q h (Notify_shutdown t) \<longleftrightarrow>
    (\<forall>w. P h (Notified, w, w\<lparr>shutdown_requested := True\<rparr>) \<and> always P Q ((Notified, w, w\<lparr>shutdown_requested := True\<rparr>) # h) t)"
  by (subst always_iff) (simp split: event.split; blast?)

lemma always_Close_conn: "always P Q h (Close_conn c r t) \<longleftrightarrow>
    (\<forall>w. P h (Closed_conn c r, w, w\<lparr>closings := closings w @ [(c, r)]\<rparr>) \<and> always P Q ((Closed_conn c r, w, w\<lparr>closings := closings w @ [(c, r)]\<rparr>) # h) t)"
  by (subst always_iff) (simp split: event.split; blast?)

lemma always_Probe_autostart: "always P Q h (Probe_autostart k) \<longleftrightarrow>
    (\<forall>w b. P h (Probed b, w, w) \<and> always P Q ((Probed b, w, w) # h) (k b))"
  by (subst always_iff) (simp split: event.split; blast?)

lemma always_Spawn: "always P Q h (Spawn u t) \<longleftrightarrow>
    (\<forall>w. P h (Spawned, w, w) \<and> always P Q ((Spawned, w, w) # h) t \<and>
       always P Q ((Spawned, w, w) # h) u)"
  by (subst always_iff) (simp split: event.split; blast?)

lemmas always_simps = always_Lock always_Unix_ms always_Instant_now always_New_uuid always_Random_secret
  always_New_channel always_Dial always_Open_bi always_Write_all always_Read_exact always_Finish
  always_Wait_online always_Endpoint_ticket always_Wait_decision always_Wait_stopped
  always_Send_decision always_Notify_shutdown always_Close_conn always_Probe_autostart always_Spawn

lemma always_coind:
  assumes "R h t"
    and "\<And>h r. R h (Done r) \<Longrightarrow> Q h r"
    and "\<And>h t e w w' t' ts. R h t \<Longrightarrow> estep t e w = Some (w', t', ts) \<Longrightarrow>
      P h (e, w, w') \<and> R ((e, w, w') # h) t' \<and> (\<forall>u \<in> set ts. R ((e, w, w') # h) u)"
  shows "always P Q h t"
proof (rule always.coinduct [of R])
  show "R h t" by (rule assms(1))
  fix h t
  assume R: "R h t"
  then have "Q h r" if "t = Done r" for r
    using assms(2) that by blast
  moreover have "P h (e, w, w') \<and> R ((e, w, w') # h) t' \<and> (\<forall>u \<in> set ts. R ((e, w, w') # h) u)"
    if "estep t e w = Some (w', t', ts)" for e w w' t' ts
    using R that by (rule assms(3))
  ultimately show "\<exists>t' h'. h = h' \<and> t = t' \<and> (\<forall>r. t' = Done r \<longrightarrow> Q h' r) \<and>
      (\<forall>e w w' ta ts. estep t' e w = Some (w', ta, ts) \<longrightarrow>
         P h' (e, w, w') \<and>
         (R ((e, w, w') # h') ta \<or> always P Q ((e, w, w') # h') ta) \<and>
         (\<forall>u \<in> set ts. R ((e, w, w') # h') u \<or> always P Q ((e, w, w') # h') u))"
    by blast
qed

lemma alwaysD:
  assumes "always P Q h t"
  shows "t = Done r \<Longrightarrow> Q h r"
    and "estep t e w = Some (w', t', ts) \<Longrightarrow>
      P h (e, w, w') \<and> always P Q ((e, w, w') # h) t' \<and> (\<forall>u \<in> set ts. always P Q ((e, w, w') # h) u)"
  using assms unfolding always_iff [of P Q h t] by blast+

text \<open>An accept loop is safe when the task of every stream is, from any log.\<close>

lemma estep_Accept_loop:
  "estep (Accept_loop c k) e w = Some (w', t', ts) \<Longrightarrow>
     w' = w \<and> (\<exists>r. e = Accepted_stream c r) \<and>
     (t' = Done None \<and> ts = [] \<or> (\<exists>s. t' = Accept_loop c k \<and> ts = [k s]))"
  by (auto split: event.splits if_splits option.splits)

lemma always_Accept_loop:
  assumes "\<And>r w h'. P h' (Accepted_stream c r, w, w)" and "\<And>h'. Q h' None"
    and "\<And>s h'. always P Q h' (k s)"
  shows "always P Q h (Accept_loop c k)"
proof (rule always_coind [where R = "\<lambda>h t. t = Accept_loop c k \<or> always P Q h t"])
  show "Accept_loop c k = Accept_loop c k \<or> always P Q h (Accept_loop c k)" by simp
  show "Q h r" if "Done r = Accept_loop c k \<or> always P Q h (Done r)" for h r
    using that by simp
  fix h t e w w' t' ts
  assume R: "t = Accept_loop c k \<or> always P Q h t" and e: "estep t e w = Some (w', t', ts)"
  show "P h (e, w, w') \<and> (t' = Accept_loop c k \<or> always P Q ((e, w, w') # h) t') \<and>
      (\<forall>u \<in> set ts. u = Accept_loop c k \<or> always P Q ((e, w, w') # h) u)"
  proof (cases "t = Accept_loop c k")
    case True
    from estep_Accept_loop [OF e [unfolded True]] show ?thesis using assms by auto
  next
    case False
    with R alwaysD(2) [OF _ e] show ?thesis by blast
  qed
qed

text \<open>Weakening, and conjunction.\<close>

lemma always_mono:
  assumes "always P Q h t" and "\<And>h e. P h e \<Longrightarrow> P' h e" and "\<And>h r. Q h r \<Longrightarrow> Q' h r"
  shows "always P' Q' h t"
  by (rule always_coind [where R = "always P Q"]) (use assms alwaysD in blast)+

lemma always_conj:
  assumes "always P Q h t" and "always P' Q' h t"
  shows "always (\<lambda>h e. P h e \<and> P' h e) (\<lambda>h r. Q h r \<and> Q' h r) h t"
proof (rule always_coind [where R = "\<lambda>h t. always P Q h t \<and> always P' Q' h t"])
  show "always P Q h t \<and> always P' Q' h t" using assms by blast
  show "Q h r \<and> Q' h r" if "always P Q h (Done r) \<and> always P' Q' h (Done r)" for h r
    using that by simp
  fix h t e w w' t' ts
  assume "always P Q h t \<and> always P' Q' h t" and e: "estep t e w = Some (w', t', ts)"
  then have "always P Q h t" "always P' Q' h t" by blast+
  from alwaysD(2) [OF this(1) e] alwaysD(2) [OF this(2) e]
  show "(P h (e, w, w') \<and> P' h (e, w, w')) \<and>
      (always P Q ((e, w, w') # h) t' \<and> always P' Q' ((e, w, w') # h) t') \<and>
      (\<forall>u \<in> set ts. always P Q ((e, w, w') # h) u \<and> always P' Q' ((e, w, w') # h) u)"
    by blast
qed

section \<open>Interleaving\<close>

text \<open>
  The pool of running tasks, each with its log, over one world.  Any task may step, in any order,
  and at any time a new task may be started: \<open>starts\<close> is the set of tasks that the outside can
  start (a request on an IPC connection, an incoming network connection).  A task that is dropped
  by the runtime just takes no more steps.
\<close>

type_synonym pool = "world \<times> (log \<times> task) list"

inductive pool_step :: "task set \<Rightarrow> pool \<Rightarrow> pool \<Rightarrow> bool" for starts where
  start: "t \<in> starts \<Longrightarrow> pool_step starts (w, ts) (w, ts @ [([], t)])"
| step: "i < length ts \<Longrightarrow> ts ! i = (h, t) \<Longrightarrow> estep t e w = Some (w', t', us) \<Longrightarrow>
    pool_step starts (w, ts)
      (w', ts[i := ((e, w, w') # h, t')] @ map (\<lambda>u. ((e, w, w') # h, u)) us)"

inductive reachable :: "task set \<Rightarrow> world \<Rightarrow> pool \<Rightarrow> bool" for starts w0 where
  reach_init: "reachable starts w0 (w0, [])"
| reach_step: "reachable starts w0 p \<Longrightarrow> pool_step starts p p' \<Longrightarrow> reachable starts w0 p'"

inductive_cases pool_stepE: "pool_step starts p p'"

definition pool_safe ::
  "(log \<Rightarrow> entry \<Rightarrow> bool) \<Rightarrow> (log \<Rightarrow> ipc_response option \<Rightarrow> bool) \<Rightarrow> pool \<Rightarrow> bool" where
  "pool_safe P Q p \<longleftrightarrow> (\<forall>(h, t) \<in> set (snd p). always P Q h t)"

lemma pool_step_safe:
  assumes "pool_step starts p p'" and "pool_safe P Q p" and "\<And>t. t \<in> starts \<Longrightarrow> always P Q [] t"
  shows "pool_safe P Q p'"
  using assms(1)
proof (cases rule: pool_step.cases)
  case (start t w ts)
  then show ?thesis using assms(2,3) by (auto simp: pool_safe_def)
next
  case (step i ts h t e w w' t' us)
  have "(h, t) \<in> set ts" using step(3,4) by (metis nth_mem)
  then have "always P Q h t" using assms(2) step(1) by (auto simp: pool_safe_def)
  from alwaysD(2) [OF this step(5)]
  have n: "always P Q ((e, w, w') # h) t'" "\<forall>u \<in> set us. always P Q ((e, w, w') # h) u" by blast+
  have "\<forall>z \<in> set (ts[i := ((e, w, w') # h, t')]). z \<in> set ts \<or> z = ((e, w, w') # h, t')"
    using set_update_subset_insert by fastforce
  then show ?thesis
    using n assms(2) step(1,2) unfolding pool_safe_def by fastforce
qed

lemma reachable_safe:
  assumes "reachable starts w0 p" and "\<And>t. t \<in> starts \<Longrightarrow> always P Q [] t"
  shows "pool_safe P Q p"
  using assms(1)
proof induction
  case reach_init
  then show ?case by (simp add: pool_safe_def)
next
  case (reach_step p p')
  then show ?case using pool_step_safe assms(2) by blast
qed

text \<open>
  A condition on the world that every step of every task preserves holds in every reachable
  world, whatever the interleaving.
\<close>

lemma reachable_inv:
  assumes "reachable starts w0 p" and "good w0"
    and "\<And>t. t \<in> starts \<Longrightarrow> always (\<lambda>h (e, w, w'). good w \<longrightarrow> good w') Q [] t"
  shows "good (fst p)"
  using assms(1)
proof induction
  case reach_init
  then show ?case using assms(2) by simp
next
  case (reach_step p p')
  let ?P = "\<lambda>h (e, w, w'). good w \<longrightarrow> good w'"
  have safe: "pool_safe ?P Q p"
    using reach_step.hyps(1) assms(3) by (rule reachable_safe)
  from reach_step.hyps(2) show ?case
  proof (cases rule: pool_step.cases)
    case (start t w ts)
    then show ?thesis using reach_step.IH by simp
  next
    case (step i ts h t e w w' t' us)
    have "(h, t) \<in> set ts" using step(3,4) by (metis nth_mem)
    then have "always ?P Q h t" using safe step(1) by (auto simp: pool_safe_def)
    from alwaysD(2) [OF this step(5)] reach_step.IH step(1,2) show ?thesis by simp
  qed
qed

end
