(* ===== verification/Lcp_Envelope.thy ===== *)
theory Lcp_Envelope
  imports Lcp_Task
begin

text \<open>
  Envelopes on a network stream (the first part of \<open>lcp-core/src/transport.rs\<close>): the error type of
  the transport, and writing and reading one envelope.  A result is handed to a continuation;
  \<open>None\<close> is the elapsed timeout of a caller that set one.  \<open>locked\<close> and \<open>reading\<close> are the
  lock sections that hand a value on.
\<close>

definition CONNECT_TIMEOUT :: nat where
  "CONNECT_TIMEOUT = 8000"

definition SEND_TIMEOUT :: nat where
  "SEND_TIMEOUT = 5000"

definition ACK_TIMEOUT :: nat where
  "ACK_TIMEOUT = 5000"

datatype transport_error =
    TIo io_error
  | TProtocol protocol_error
  | TWrite string
  | TRead string
  | TConnect string
  | TBind string
  | TTimeout
  | TMessage string

fun transport_error_text :: "externs \<Rightarrow> transport_error \<Rightarrow> string" where
  "transport_error_text x (TIo e) = ''io error: '' @ x_io_text x e"
| "transport_error_text x (TProtocol e) = protocol_error_text e"
| "transport_error_text x (TWrite e) = ''stream write error: '' @ e"
| "transport_error_text x (TRead e) = ''stream read error: '' @ e"
| "transport_error_text x (TConnect e) = ''connect error: '' @ e"
| "transport_error_text x (TBind e) = ''bind error: '' @ e"
| "transport_error_text x TTimeout = ''operation timed out''"
| "transport_error_text x (TMessage m) = m"

text \<open>The \<open>?\<close> on a timeout turns an elapsed deadline into an error.\<close>

definition or_timeout :: "(transport_error + 'a) option \<Rightarrow> transport_error + 'a" where
  "or_timeout r = (case r of None \<Rightarrow> Inl TTimeout | Some v \<Rightarrow> v)"

definition locked :: "(lock_env \<Rightarrow> world \<Rightarrow> world \<times> 'a) \<Rightarrow> ('a \<Rightarrow> task) \<Rightarrow> task" where
  "locked f k = Lock (\<lambda>env w. case f env w of (w', a) \<Rightarrow> (w', k a))"

definition reading :: "(lock_env \<Rightarrow> world \<Rightarrow> 'a) \<Rightarrow> ('a \<Rightarrow> task) \<Rightarrow> task" where
  "reading f k = Lock (\<lambda>env w. (w, k (f env w)))"

definition write_envelope ::
  "externs \<Rightarrow> stream \<Rightarrow> network_envelope \<Rightarrow> nat option
     \<Rightarrow> ((transport_error + unit) option \<Rightarrow> task) \<Rightarrow> task" where
  "write_envelope x s e d k =
     (case encode_framed (x_ser x) e of
        Inl err \<Rightarrow> k (Some (Inl (TProtocol err)))
      | Inr framed \<Rightarrow>
          Write_all s framed d (\<lambda>r. k (map_option (\<lambda>v. case v of Inl m \<Rightarrow> Inl (TWrite m) | Inr u \<Rightarrow> Inr u) r)))"

definition read_envelope ::
  "externs \<Rightarrow> stream \<Rightarrow> nat option
     \<Rightarrow> ((transport_error + network_envelope) option \<Rightarrow> task) \<Rightarrow> task" where
  "read_envelope x s d k =
     Read_exact s FRAME_LENGTH_PREFIX_BYTES d (\<lambda>r.
       case r of
         None \<Rightarrow> k None
       | Some (Inl m) \<Rightarrow> k (Some (Inl (TRead m)))
       | Some (Inr header) \<Rightarrow>
           (case decode_length_prefix header of
              Inl err \<Rightarrow> k (Some (Inl (TProtocol err)))
            | Inr len \<Rightarrow>
                Read_exact s len d (\<lambda>r.
                  case r of
                    None \<Rightarrow> k None
                  | Some (Inl m) \<Rightarrow> k (Some (Inl (TRead m)))
                  | Some (Inr buf) \<Rightarrow>
                      (case decode_body (x_de x) buf of
                         Inl err \<Rightarrow> k (Some (Inl (TProtocol err)))
                       | Inr e \<Rightarrow> k (Some (Inr e))))))"

section \<open>Rules\<close>

lemma always_locked:
  "always P Q h (locked f k) \<longleftrightarrow>
     (\<forall>env w. P h (Locked env, w, fst (f env w)) \<and>
        always P Q ((Locked env, w, fst (f env w)) # h) (k (snd (f env w))))"
  by (simp add: locked_def always_Lock split_beta)

lemma always_reading:
  "always P Q h (reading f k) \<longleftrightarrow>
     (\<forall>env w. P h (Locked env, w, w) \<and> always P Q ((Locked env, w, w) # h) (k (f env w)))"
  by (simp add: reading_def always_Lock)

text \<open>What a log says was sent and received on a stream.\<close>

definition received :: "externs \<Rightarrow> stream \<Rightarrow> network_envelope \<Rightarrow> log \<Rightarrow> bool" where
  "received x s e h \<longleftrightarrow>
     (\<exists>n bs w w'. (Got s n (Some (Inr bs)), w, w') \<in> set h \<and> decode_body (x_de x) bs = Inr e)"

definition sent :: "externs \<Rightarrow> stream \<Rightarrow> network_envelope \<Rightarrow> log \<Rightarrow> bool" where
  "sent x s e h \<longleftrightarrow>
     (\<exists>bs w w'. (Wrote s bs (Some (Inr ())), w, w') \<in> set h \<and> encode_framed (x_ser x) e = Inr bs)"

definition decided :: "nat \<Rightarrow> bool \<Rightarrow> log \<Rightarrow> bool" where
  "decided ch b h \<longleftrightarrow> (\<exists>w w'. (Decided ch (Some b), w, w') \<in> set h)"

lemma received_Cons [simp]:
  "received x s e ((ev, w, w') # h) \<longleftrightarrow>
     (\<exists>n bs. ev = Got s n (Some (Inr bs)) \<and> decode_body (x_de x) bs = Inr e) \<or> received x s e h"
  by (simp add: received_def) blast

lemma sent_Cons [simp]:
  "sent x s e ((ev, w, w') # h) \<longleftrightarrow>
     (\<exists>bs. ev = Wrote s bs (Some (Inr ())) \<and> encode_framed (x_ser x) e = Inr bs) \<or> sent x s e h"
  by (simp add: sent_def) blast

lemma decided_Cons [simp]:
  "decided ch b ((ev, w, w') # h) \<longleftrightarrow> ev = Decided ch (Some b) \<or> decided ch b h"
  by (auto simp: decided_def)

lemma received_Nil [simp]: "\<not> received x s e []"
  by (simp add: received_def)

lemma sent_Nil [simp]: "\<not> sent x s e []"
  by (simp add: sent_def)

lemma decided_Nil [simp]: "\<not> decided ch b []"
  by (simp add: decided_def)

text \<open>A later log of the same task, or of a task it spawned, holds everything an earlier one does.\<close>

definition later :: "log \<Rightarrow> log \<Rightarrow> bool" where
  "later h h' \<longleftrightarrow> set h \<subseteq> set h'"

lemma later_refl [simp, intro]: "later h h"
  by (simp add: later_def)

lemma later_Cons [intro]: "later h h' \<Longrightarrow> later h (e # h')"
  by (auto simp: later_def)

lemma later_ConsD: "later (e # h) h' \<Longrightarrow> later h h'"
  by (simp add: later_def)

lemma later_trans: "later h h' \<Longrightarrow> later h' h'' \<Longrightarrow> later h h''"
  by (auto simp: later_def)

lemma later_mem: "later h h' \<Longrightarrow> e \<in> set h \<Longrightarrow> e \<in> set h'"
  by (auto simp: later_def)

text \<open>
  Conditions on lock sections only.  Writing and reading never take the lock, so a task that
  starts with them is safe when its continuation is, from the log that they extended.
\<close>

definition on_lock ::
  "(log \<Rightarrow> lock_env \<Rightarrow> world \<Rightarrow> world \<Rightarrow> bool) \<Rightarrow> log \<Rightarrow> entry \<Rightarrow> bool" where
  "on_lock R h e = (case e of (Locked env, w, w') \<Rightarrow> R h env w w' | _ \<Rightarrow> True)"

lemma on_lock_simps [simp]:
  "on_lock R h (Locked env, w, w') = R h env w w'"
  "on_lock R h (Clock n, w, w')" "on_lock R h (At n', w, w')" "on_lock R h (Fresh_uuid u, w, w')"
  "on_lock R h (Fresh_secret bs, w, w')" "on_lock R h (Opened_channel ch, w, w')"
  "on_lock R h (Dialled a r1, w, w')" "on_lock R h (Opened c r2, w, w')"
  "on_lock R h (Wrote s bs r3, w, w')" "on_lock R h (Got s n'' r4, w, w')" "on_lock R h (Finished s, w, w')"
  "on_lock R h (Waited_online b, w, w')" "on_lock R h (Ticket_of_endpoint a, w, w')"
  "on_lock R h (Decided ch r5, w, w')" "on_lock R h (Stopped s, w, w')"
  "on_lock R h (Sent_decision ch b, w, w')" "on_lock R h (Notified, w, w')"
  "on_lock R h (Closed_conn c a, w, w')" "on_lock R h (Probed b, w, w')" "on_lock R h (Spawned, w, w')"
  "on_lock R h (Accepted_stream c r6, w, w')"
  by (simp_all add: on_lock_def)

lemma always_write_envelope:
  assumes "\<And>bs r w. encode_framed (x_ser x) e = Inr bs \<Longrightarrow> P h (Wrote s bs r, w, w)"
    and "\<And>err. always P Q h (k (Some (Inl (TProtocol err))))"
    and "\<And>bs r w. encode_framed (x_ser x) e = Inr bs \<Longrightarrow> (r = None \<Longrightarrow> d \<noteq> None) \<Longrightarrow>
      always P Q ((Wrote s bs r, w, w) # h)
        (k (map_option (\<lambda>v. case v of Inl m \<Rightarrow> Inl (TWrite m) | Inr u \<Rightarrow> Inr u) r))"
  shows "always P Q h (write_envelope x s e d k)"
  using assms by (simp add: write_envelope_def always_Write_all split: sum.split)

lemma always_read_envelope:
  assumes "\<And>h' n r w. P h' (Got s n r, w, w)"
    and "\<And>h' r. (r = None \<Longrightarrow> d \<noteq> None) \<Longrightarrow>
      (\<And>e. r = Some (Inr e) \<Longrightarrow> received x s e h') \<Longrightarrow> later h h' \<Longrightarrow> always P Q h' (k r)"
  shows "always P Q h (read_envelope x s d k)"
  unfolding read_envelope_def
  by (auto simp: always_Read_exact assms(1) split: option.split sum.split intro!: assms(2))

section \<open>Rules for every step\<close>

text \<open>
  A relation between the worlds before and after a step that ignores what no lock section
  touches: one-shot channels, the shutdown flag and the list of closed connections.
  \<open>D\<close> says which decisions may be sent.  \<open>ok\<close> says that every step of a task, from any log,
  respects both.  Locales that extend
  this one add the lock sections of a component and show that its tasks are \<open>ok\<close>.
\<close>

locale step_rule =
  fixes R :: "world \<Rightarrow> world \<Rightarrow> bool"
    and x :: externs
    and D :: "nat \<Rightarrow> bool \<Rightarrow> bool"
  assumes R_refl: "R w w"
    and R_channel: "R w (opened_channel w)"
    and R_decision: "D ch b \<Longrightarrow> R w (sent_decision ch b w)"
    and R_shutdown: "R w (w\<lparr>shutdown_requested := True\<rparr>)"
    and R_closing: "R w (w\<lparr>closings := cl\<rparr>)"
begin

definition step_ok :: "log \<Rightarrow> entry \<Rightarrow> bool" where
  "step_ok h e = (case e of (ev, w, w') \<Rightarrow> R w w' \<and> (\<forall>ch b. ev = Sent_decision ch b \<longrightarrow> D ch b))"

definition ok :: "task \<Rightarrow> bool" where
  "ok t \<longleftrightarrow> (\<forall>h. always step_ok (\<lambda>h r. True) h t)"

lemma ok_Done [simp]: "ok (Done r)"
  by (simp add: ok_def)

lemma ok_pure [simp]:
  "(\<And>v. ok (k1 v)) \<Longrightarrow> ok (Unix_ms k1)" "(\<And>v. ok (k2 v)) \<Longrightarrow> ok (Instant_now k2)"
  "(\<And>v. ok (k3 v)) \<Longrightarrow> ok (New_uuid k3)" "(\<And>v. ok (k4 v)) \<Longrightarrow> ok (Random_secret k4)"
  "(\<And>v. ok (k5 v)) \<Longrightarrow> ok (New_channel k5)" "(\<And>v. ok (k6 v)) \<Longrightarrow> ok (Dial a d k6)"
  "(\<And>v. ok (k7 v)) \<Longrightarrow> ok (Open_bi c k7)" "(\<And>v. ok (k8 v)) \<Longrightarrow> ok (Write_all s bs d k8)"
  "(\<And>v. ok (k9 v)) \<Longrightarrow> ok (Read_exact s n d k9)" "ok t \<Longrightarrow> ok (Finish s t)"
  "(\<And>v. ok (k10 v)) \<Longrightarrow> ok (Wait_online m k10)" "(\<And>v. ok (k11 v)) \<Longrightarrow> ok (Endpoint_ticket k11)"
  "(\<And>v. ok (k12 v)) \<Longrightarrow> ok (Wait_decision ch m k12)" "ok t \<Longrightarrow> ok (Wait_stopped s m t)"
  "ok t \<Longrightarrow> D ch b \<Longrightarrow> ok (Send_decision ch b t)" "ok t \<Longrightarrow> ok (Notify_shutdown t)" "ok t \<Longrightarrow> ok (Close_conn c a t)"
  "(\<And>v. ok (k13 v)) \<Longrightarrow> ok (Probe_autostart k13)" "ok t \<Longrightarrow> ok u \<Longrightarrow> ok (Spawn u t)"
  by (simp_all add: ok_def always_simps step_ok_def R_refl R_channel R_decision R_shutdown R_closing)

lemma ok_locked: "(\<And>env w. R w (fst (f env w))) \<Longrightarrow> (\<And>v. ok (k v)) \<Longrightarrow> ok (locked f k)"
  by (simp add: ok_def always_locked step_ok_def)

lemma ok_reading: "(\<And>v. ok (k v)) \<Longrightarrow> ok (reading f k)"
  by (simp add: ok_def always_reading step_ok_def R_refl)

lemma ok_write_envelope: "(\<And>r. ok (k r)) \<Longrightarrow> ok (write_envelope x s e d k)"
  by (simp add: write_envelope_def split: sum.split)

lemma ok_read_envelope: "(\<And>r. ok (k r)) \<Longrightarrow> ok (read_envelope x s d k)"
  by (auto simp: read_envelope_def split: option.split sum.split intro!: ok_pure(9))

lemma ok_accept_loop: "(\<And>s. ok (k s)) \<Longrightarrow> ok (Accept_loop c k)"
  unfolding ok_def by (intro allI always_Accept_loop) (simp_all add: step_ok_def R_refl)

lemma ok_always:
  assumes "ok t"
  shows "always (\<lambda>h (e, w, w'). R w w') (\<lambda>h r. True) h t"
    and "always (\<lambda>h (e, w, w'). \<forall>ch b. e = Sent_decision ch b \<longrightarrow> D ch b) (\<lambda>h r. True) h t"
proof -
  have a: "always step_ok (\<lambda>h r. True) h t" using assms by (simp add: ok_def)
  show "always (\<lambda>h (e, w, w'). R w w') (\<lambda>h r. True) h t"
    by (rule always_mono [OF a]) (auto simp: step_ok_def)
  show "always (\<lambda>h (e, w, w'). \<forall>ch b. e = Sent_decision ch b \<longrightarrow> D ch b) (\<lambda>h r. True) h t"
    by (rule always_mono [OF a]) (auto simp: step_ok_def)
qed

end

end
