(* ===== verification/Lcp_Handshake.thy ===== *)
theory Lcp_Handshake
  imports Lcp_Envelope
begin

text \<open>
  The two roles of a pairing (\<open>lcp-core/src/pairing.rs\<close>, from \<open>handle_pair_request\<close> on): the
  inviter's handler, the joiner's call, the confirmation exchange they share, and the lock
  section that settles a session.  The lemmas show that trust is only ever added by a task that
  saw the local decision and the peer's confirmation.
\<close>

section \<open>Settling a session\<close>

definition pairing_updated_json :: "externs \<Rightarrow> uuid \<Rightarrow> string \<Rightarrow> (string \<times> json) list \<Rightarrow> json" where
  "pairing_updated_json x pid status extra =
     JObj ([(''pairing_id'', JStr (x_uuid_text x pid)), (''status'', JStr status)] @ extra)"

definition finish_pairing ::
  "externs \<Rightarrow> uuid \<Rightarrow> string \<Rightarrow> string \<Rightarrow> string \<Rightarrow> bytes option \<Rightarrow> transport_error + bool
     \<Rightarrow> lock_env \<Rightarrow> world \<Rightarrow> world \<times> unit" where
  "finish_pairing x pid peer display device consumed_invite_secret outcome env w =
     (let w1 = map_pending (\<lambda>p. p(pid := None)) w;
          w2 = (case consumed_invite_secret of
                  None \<Rightarrow> w1
                | Some secret \<Rightarrow> map_invites (consume_invite secret) w1)
      in case outcome of
           Inr True \<Rightarrow>
             (case add_trusted_peer (trusted_of w2) peer display device (le_rfc3339 env)
                     (x_uuid_text x (le_uuid env)) of
                (peers, a) \<Rightarrow>
                  (let w3 = map_config (\<lambda>c. c\<lparr>trusted_peers := peers\<rparr>) w2;
                       w4 = fst (save_config env w3)
                   in (broadcast_event env PAIRING_UPDATED
                         (pairing_updated_json x pid ''paired'' [(''alias'', JStr a)]) w4, ())))
         | Inr False \<Rightarrow>
             (broadcast_event env PAIRING_UPDATED (pairing_updated_json x pid ''rejected'' []) w2, ())
         | Inl e \<Rightarrow>
             (broadcast_event env PAIRING_UPDATED
                (pairing_updated_json x pid ''failed'' [(''reason'', JStr (transport_error_text x e))]) w2, ()))"

section \<open>The confirmation exchange\<close>

definition wait_for_confirm_delivery :: "stream \<Rightarrow> task \<Rightarrow> task" where
  "wait_for_confirm_delivery s k = Wait_stopped s PAIRING_FINISH_ACK_TIMEOUT k"

text \<open>From the write of our own \<open>PairConfirm\<close> on.\<close>

definition confirm_written ::
  "externs \<Rightarrow> stream \<Rightarrow> instant \<Rightarrow> bool \<Rightarrow> (transport_error + bool \<Rightarrow> task)
     \<Rightarrow> (transport_error + unit) option \<Rightarrow> task" where
  "confirm_written x s start local_confirmed k r =
     (case or_timeout r of
        Inl e \<Rightarrow> k (Inl e)
      | Inr _ \<Rightarrow>
          Finish s
            (if \<not> local_confirmed then wait_for_confirm_delivery s (k (Inr False))
             else Instant_now (\<lambda>now.
                    read_envelope x s (Some (PAIRING_CONFIRM_TIMEOUT - (now - start))) (\<lambda>r.
                      case or_timeout r of
                        Inl e \<Rightarrow> k (Inl e)
                      | Inr remote \<Rightarrow>
                          (let remote_confirmed =
                                 (case body remote of PairConfirm c \<Rightarrow> pc_confirmed c | _ \<Rightarrow> False)
                           in wait_for_confirm_delivery s (k (Inr remote_confirmed)))))))"

definition run_confirmation_exchange ::
  "externs \<Rightarrow> stream \<Rightarrow> nat \<Rightarrow> (transport_error + bool \<Rightarrow> task) \<Rightarrow> task" where
  "run_confirmation_exchange x s local_rx k =
     Instant_now (\<lambda>start.
       Wait_decision local_rx PAIRING_CONFIRM_TIMEOUT (\<lambda>d.
         let local_confirmed = (d = Some True)
         in New_uuid (\<lambda>rid.
              write_envelope x s (envelope_new rid (PairConfirm \<lparr>pc_confirmed = local_confirmed\<rparr>)) None
                (confirm_written x s start local_confirmed k))))"

section \<open>The inviter\<close>

definition lock_check_invite ::
  "instant \<Rightarrow> bytes \<Rightarrow> lock_env \<Rightarrow> world \<Rightarrow> world \<times> string option" where
  "lock_check_invite now secret env w =
     (case check_invite now secret (active_invites (app w)) of
        (invites, rejection) \<Rightarrow> (map_invites (\<lambda>_. invites) w, rejection))"

definition my_names :: "externs \<Rightarrow> lock_env \<Rightarrow> world \<Rightarrow> string \<times> string \<times> string" where
  "my_names x env w =
     (identity_endpoint_id x (identity (app w)), user_name (user_cfg (st_config (app w))),
      user_device_name (user_cfg (st_config (app w))))"

definition lock_pending_inviter ::
  "externs \<Rightarrow> uuid \<Rightarrow> string \<Rightarrow> pair_request \<Rightarrow> string \<Rightarrow> nat \<Rightarrow> lock_env \<Rightarrow> world \<Rightarrow> world \<times> unit" where
  "lock_pending_inviter x pid joiner req vs local_tx env w =
     (broadcast_event env PAIRING_REQUESTED
        (JObj [(''pairing_id'', JStr (x_uuid_text x pid)),
               (''peer_display_name'', JStr (pr_joiner_display_name req)),
               (''peer_device_name'', JStr (pr_joiner_device_name req)),
               (''verification_string'', JStr vs)])
        (map_pending (\<lambda>p. p(pid \<mapsto>
           \<lparr>pp_role = Inviter, pp_peer_endpoint_id = joiner,
            pp_peer_display_name = pr_joiner_display_name req,
            pp_peer_device_name = pr_joiner_device_name req,
            pp_verification_string = vs, pp_decision_tx = Some local_tx\<rparr>)) w), ())"

definition handle_pair_request ::
  "externs \<Rightarrow> string \<Rightarrow> pair_request \<Rightarrow> stream \<Rightarrow> (transport_error + unit \<Rightarrow> task) \<Rightarrow> task" where
  "handle_pair_request x joiner req s k =
     Instant_now (\<lambda>now.
       locked (lock_check_invite now (pr_invite_secret req)) (\<lambda>rejection.
         case rejection of
           Some code \<Rightarrow>
             New_uuid (\<lambda>rid.
               write_envelope x s
                 (envelope_new rid (PairDecision
                    \<lparr>pd_accepted = False, pd_inviter_nonce = replicate 32 0, pd_inviter_display_name = [],
                     pd_inviter_device_name = [], pd_error_code = Some code\<rparr>)) None (\<lambda>_.
               Finish s (k (Inl (TMessage
                 (''pairing request rejected ('' @ code @ '') from '' @ joiner))))))
         | None \<Rightarrow>
             reading (my_names x) (\<lambda>(my_id, my_name, my_device).
               Random_secret (\<lambda>nonce.
                 let vs = derive_verification_string (x_hash x) my_id joiner (pr_invite_secret req)
                            nonce (pr_joiner_nonce req)
                 in New_uuid (\<lambda>pid.
                      New_channel (\<lambda>ch.
                        locked (lock_pending_inviter x pid joiner req vs ch) (\<lambda>_.
                          New_uuid (\<lambda>rid.
                            write_envelope x s
                              (envelope_new rid (PairDecision
                                 \<lparr>pd_accepted = True, pd_inviter_nonce = nonce,
                                  pd_inviter_display_name = my_name, pd_inviter_device_name = my_device,
                                  pd_error_code = None\<rparr>)) None (\<lambda>r.
                              case or_timeout r of
                                Inl e \<Rightarrow> k (Inl e)
                              | Inr _ \<Rightarrow>
                                  run_confirmation_exchange x s ch (\<lambda>outcome.
                                    locked (finish_pairing x pid joiner (pr_joiner_display_name req)
                                              (pr_joiner_device_name req) (Some (pr_invite_secret req)) outcome)
                                      (\<lambda>_. k (Inr ()))))))))))))"

section \<open>The joiner\<close>

definition lock_pending_joiner ::
  "uuid \<Rightarrow> string \<Rightarrow> pair_decision \<Rightarrow> string \<Rightarrow> nat \<Rightarrow> lock_env \<Rightarrow> world \<Rightarrow> world \<times> unit" where
  "lock_pending_joiner pid inviter decision vs local_tx env w =
     (map_pending (\<lambda>p. p(pid \<mapsto>
        \<lparr>pp_role = Joiner, pp_peer_endpoint_id = inviter,
         pp_peer_display_name = pd_inviter_display_name decision,
         pp_peer_device_name = pd_inviter_device_name decision,
         pp_verification_string = vs, pp_decision_tx = Some local_tx\<rparr>)) w, ())"

text \<open>From the accepted \<open>PairDecision\<close> on, with the exchange in a task of its own.\<close>

definition join_accepted ::
  "externs \<Rightarrow> pairing_ticket \<Rightarrow> string \<Rightarrow> string \<Rightarrow> bytes \<Rightarrow> pair_decision \<Rightarrow> stream
     \<Rightarrow> (transport_error + (uuid \<times> string) \<Rightarrow> task) \<Rightarrow> task" where
  "join_accepted x ticket my_id inviter nonce decision s k =
     (let vs = derive_verification_string (x_hash x) my_id inviter (pt_invite_secret ticket) nonce
                 (pd_inviter_nonce decision)
      in New_uuid (\<lambda>pid.
           New_channel (\<lambda>ch.
             locked (lock_pending_joiner pid inviter decision vs ch) (\<lambda>_.
               Spawn
                 (run_confirmation_exchange x s ch (\<lambda>outcome.
                    locked (finish_pairing x pid inviter (pd_inviter_display_name decision)
                              (pd_inviter_device_name decision) None outcome) (\<lambda>_. Done None)))
                 (k (Inr (pid, vs)))))))"

definition join_pairing ::
  "externs \<Rightarrow> string \<Rightarrow> (transport_error + (uuid \<times> string) \<Rightarrow> task) \<Rightarrow> task" where
  "join_pairing x ticket_text k =
     (case ticket_decode (x_ticket_de x) (x_b64d x) ticket_text of
        Inl e \<Rightarrow> k (Inl (TProtocol e))
      | Inr ticket \<Rightarrow>
          Unix_ms (\<lambda>now.
            if ticket_is_expired ticket now then k (Inl (TMessage ''ticket has expired''))
            else case x_ticket_addr x (pt_endpoint_ticket ticket) of
              None \<Rightarrow> k (Inl (TMessage ''malformed endpoint dialing info in ticket''))
            | Some addr \<Rightarrow>
                Dial addr (Some CONNECT_TIMEOUT) (\<lambda>r.
                  case r of
                    None \<Rightarrow> k (Inl TTimeout)
                  | Some (Inl e) \<Rightarrow> k (Inl (TConnect e))
                  | Some (Inr (c, inviter)) \<Rightarrow>
                      Open_bi c (\<lambda>r.
                        case r of
                          Inl e \<Rightarrow> k (Inl (TMessage e))
                        | Inr s \<Rightarrow>
                            Random_secret (\<lambda>nonce.
                              reading (my_names x) (\<lambda>(my_id, my_name, my_device).
                                New_uuid (\<lambda>rid.
                                  write_envelope x s
                                    (envelope_new rid (PairRequest
                                       \<lparr>pr_invite_secret = pt_invite_secret ticket,
                                        pr_joiner_endpoint_id = my_id, pr_joiner_display_name = my_name,
                                        pr_joiner_device_name = my_device, pr_joiner_nonce = nonce\<rparr>)) None (\<lambda>r.
                                    case or_timeout r of
                                      Inl e \<Rightarrow> k (Inl e)
                                    | Inr _ \<Rightarrow>
                                        read_envelope x s (Some SEND_TIMEOUT) (\<lambda>r.
                                          case or_timeout r of
                                            Inl e \<Rightarrow> k (Inl e)
                                          | Inr response \<Rightarrow>
                                              (case body response of
                                                 PairDecision decision \<Rightarrow>
                                                   if \<not> pd_accepted decision
                                                   then k (Inl (TMessage (unwrap_or (pd_error_code decision)
                                                          ''pairing request rejected'')))
                                                   else join_accepted x ticket my_id inviter nonce decision s k
                                               | _ \<Rightarrow> k (Inl (TMessage
                                                      ''unexpected response to pairing request''))))))))))))"

section \<open>What a log must hold before trust is added\<close>

text \<open>The endpoints that a step makes trusted.\<close>

definition newly_trusted :: "world \<Rightarrow> world \<Rightarrow> string set" where
  "newly_trusted w w' = endpoint_id ` set (trusted_of w') - endpoint_id ` set (trusted_of w)"

text \<open>
  The local human said yes, the task sent that on a stream, and the peer's own confirmation was
  read from the same stream.
\<close>

definition both_confirmed :: "externs \<Rightarrow> log \<Rightarrow> bool" where
  "both_confirmed x h \<longleftrightarrow>
     (\<exists>ch s e e'.
        decided ch True h \<and>
        sent x s e h \<and> body e = PairConfirm \<lparr>pc_confirmed = True\<rparr> \<and>
        received x s e' h \<and> body e' = PairConfirm \<lparr>pc_confirmed = True\<rparr>)"

text \<open>An invite with this secret took the request.\<close>

definition accepts_invite :: "bytes \<Rightarrow> entry \<Rightarrow> bool" where
  "accepts_invite secret e =
     (case e of
        (Locked env, w, w') \<Rightarrow> \<exists>now. snd (check_invite now secret (active_invites (app w))) = None
      | _ \<Rightarrow> False)"

definition invite_accepted :: "bytes \<Rightarrow> log \<Rightarrow> bool" where
  "invite_accepted secret h \<longleftrightarrow> (\<exists>e \<in> set h. accepts_invite secret e)"

text \<open>The task dialled out and the connection it got is to this endpoint.\<close>

definition dialled_to :: "string \<Rightarrow> log \<Rightarrow> bool" where
  "dialled_to e h \<longleftrightarrow> (\<exists>addr c w w'. (Dialled addr (Some (Inr (c, e))), w, w') \<in> set h)"

lemma invite_accepted_Cons [simp]:
  "invite_accepted sec (e # h) \<longleftrightarrow> accepts_invite sec e \<or> invite_accepted sec h"
  by (auto simp: invite_accepted_def)

lemma dialled_to_Cons [simp]:
  "dialled_to a ((ev, w, w') # h) \<longleftrightarrow> (\<exists>addr c. ev = Dialled addr (Some (Inr (c, a)))) \<or> dialled_to a h"
  by (simp add: dialled_to_def) blast

definition trust_rule :: "externs \<Rightarrow> (log \<Rightarrow> string \<Rightarrow> bool) \<Rightarrow> log \<Rightarrow> lock_env \<Rightarrow> world \<Rightarrow> world \<Rightarrow> bool" where
  "trust_rule x E h env w w' \<longleftrightarrow> (\<forall>e \<in> newly_trusted w w'. E h e \<and> both_confirmed x h)"

lemma newly_trusted_same [simp]: "trusted_of w' = trusted_of w \<Longrightarrow> newly_trusted w w' = {}"
  by (simp add: newly_trusted_def)

lemma trust_rule_same [simp]: "trusted_of w' = trusted_of w \<Longrightarrow> trust_rule x E h env w w'"
  by (simp add: trust_rule_def)

lemma finish_pairing_trusted:
  "trusted_of (fst (finish_pairing x pid peer display device sec outcome env w)) =
     (if outcome = Inr True
      then fst (add_trusted_peer (trusted_of w) peer display device (le_rfc3339 env) (x_uuid_text x (le_uuid env)))
      else trusted_of w)"
  by (auto simp: finish_pairing_def Let_def split: sum.split bool.split option.split prod.split)

lemma finish_pairing_rule:
  assumes "outcome = Inr True \<Longrightarrow> E h peer \<and> both_confirmed x h"
  shows "trust_rule x E h env w (fst (finish_pairing x pid peer display device sec outcome env w))"
  using assms by (auto simp: trust_rule_def newly_trusted_def finish_pairing_trusted add_trusted_peer_def
      Let_def split: if_splits)

text \<open>The task has waited for the local decision, whatever came of it.\<close>

definition waited :: "log \<Rightarrow> bool" where
  "waited h \<longleftrightarrow> (\<exists>ch d w w'. (Decided ch d, w, w') \<in> set h)"

lemma waited_later: "later h h' \<Longrightarrow> waited h \<Longrightarrow> waited h'"
  unfolding later_def waited_def by blast

lemma waited_Cons [simp]: "waited ((ev, w, w') # h) \<longleftrightarrow> (\<exists>ch d. ev = Decided ch d) \<or> waited h"
  by (simp add: waited_def) blast

text \<open>What a log has recorded stays recorded.\<close>

lemma log_mono:
  assumes "later h h'"
  shows "decided ch b h \<Longrightarrow> decided ch b h'" and "sent x s e h \<Longrightarrow> sent x s e h'"
    and "received x s e h \<Longrightarrow> received x s e h'" and "invite_accepted secret h \<Longrightarrow> invite_accepted secret h'"
    and "dialled_to a h \<Longrightarrow> dialled_to a h'"
  using assms
  unfolding later_def decided_def sent_def received_def invite_accepted_def dialled_to_def by blast+

lemma confirm_body: "(case b of PairConfirm c \<Rightarrow> pc_confirmed c | _ \<Rightarrow> False) \<longleftrightarrow> b = PairConfirm \<lparr>pc_confirmed = True\<rparr>"
  by (auto split: network_body.splits)

lemma or_timeout_Inr: "or_timeout r = Inr v \<longleftrightarrow> r = Some (Inr v)"
  by (auto simp: or_timeout_def split: option.split)

text \<open>Waiting for the confirmation of the other side, after two more entries of the log.\<close>

lemma always_confirm_read:
  assumes k: "\<And>h' r. later h h' \<Longrightarrow> (r = Inr True \<Longrightarrow> both_confirmed x h') \<Longrightarrow> always (on_lock R) Q h' (k r)"
    and yes: "\<And>h' e. later h h' \<Longrightarrow> received x s e h' \<Longrightarrow> body e = PairConfirm \<lparr>pc_confirmed = True\<rparr> \<Longrightarrow>
      both_confirmed x h'"
  shows "always (on_lock R) Q (e1 # e2 # h)
      (read_envelope x s d (\<lambda>r. case or_timeout r of
           Inl e \<Rightarrow> k (Inl e)
         | Inr remote \<Rightarrow>
             (let remote_confirmed = (case body remote of PairConfirm c \<Rightarrow> pc_confirmed c | _ \<Rightarrow> False)
              in wait_for_confirm_delivery s (k (Inr remote_confirmed)))))"
proof (rule always_read_envelope)
  have k': "always (on_lock R) Q (e # h') (k (Inr v))"
    if "later (e1 # e2 # h) h'" "v \<Longrightarrow> both_confirmed x h'" for e h' v
  proof (rule k)
    show "later h (e # h')" using that(1) by (blast dest: later_ConsD)
    show "both_confirmed x (e # h')" if "Inr v = Inr True"
      using \<open>v \<Longrightarrow> both_confirmed x h'\<close> that log_mono [of h' "e # h'"]
      unfolding both_confirmed_def by blast
  qed
  fix h' and r :: "(transport_error + network_envelope) option"
  assume rc: "\<And>e. r = Some (Inr e) \<Longrightarrow> received x s e h'" and l: "later (e1 # e2 # h) h'"
  have l': "later h h'" using l by (blast dest: later_ConsD)
  show "always (on_lock R) Q h' (case or_timeout r of
         Inl e \<Rightarrow> k (Inl e)
       | Inr remote \<Rightarrow>
           (let remote_confirmed = (case body remote of PairConfirm c \<Rightarrow> pc_confirmed c | _ \<Rightarrow> False)
            in wait_for_confirm_delivery s (k (Inr remote_confirmed))))"
  proof (cases "or_timeout r")
    case (Inl e)
    then show ?thesis using k [OF l', of "Inl e"] by simp
  next
    case (Inr remote)
    then have "both_confirmed x h'" if "body remote = PairConfirm \<lparr>pc_confirmed = True\<rparr>"
      using yes [OF l' rc that] by (simp add: or_timeout_Inr)
    then show ?thesis
      using Inr by (auto simp: confirm_body Let_def wait_for_confirm_delivery_def always_simps intro!: k' [OF l])
  qed
qed simp

lemma always_confirm_written:
  assumes k: "\<And>h' r. later h h' \<Longrightarrow> (r = Inr True \<Longrightarrow> both_confirmed x h') \<Longrightarrow> always (on_lock R) Q h' (k r)"
    and yes: "\<And>h' e. r = Some (Inr ()) \<Longrightarrow> loc \<Longrightarrow> later h h' \<Longrightarrow> received x s e h' \<Longrightarrow>
      body e = PairConfirm \<lparr>pc_confirmed = True\<rparr> \<Longrightarrow> both_confirmed x h'"
  shows "always (on_lock R) Q h (confirm_written x s start loc k r)"
proof (cases "r = Some (Inr ())")
  case False
  then show ?thesis
    by (auto simp: confirm_written_def or_timeout_def split: option.split sum.split intro!: k)
next
  case True
  note rd = always_confirm_read [of h x R Q k s, OF k yes [OF True]]
  show ?thesis
    using True rd
    by (auto simp: confirm_written_def or_timeout_def always_simps wait_for_confirm_delivery_def intro!: k)
qed

text \<open>
  The exchange hands on \<open>True\<close> only when both sides confirmed; on the way it takes no lock.
\<close>

lemma always_confirmation:
  assumes k: "\<And>h' r. later h h' \<Longrightarrow> waited h' \<Longrightarrow> (r = Inr True \<Longrightarrow> both_confirmed x h') \<Longrightarrow> always (on_lock R) Q h' (k r)"
  shows "always (on_lock R) Q h (run_confirmation_exchange x s ch k)"
proof -
  have go: "always (on_lock R) Q h'
      (write_envelope x s (envelope_new rid (PairConfirm \<lparr>pc_confirmed = loc\<rparr>)) None
        (confirm_written x s start loc k))"
    if l: "later h h'" and wt: "waited h'" and dec: "loc \<Longrightarrow> decided ch True h'" for h' rid loc start
  proof (rule always_write_envelope)
    show "always (on_lock R) Q h' (confirm_written x s start loc k (Some (Inl (TProtocol err))))" for err
    proof (rule always_confirm_written)
      show "always (on_lock R) Q h'' (k v)" if "later h' h''" "v = Inr True \<Longrightarrow> both_confirmed x h''" for h'' v
        using k [OF later_trans [OF l that(1)] waited_later [OF that(1) wt] that(2)] .
    qed simp
  next
    fix bs w and r :: "(string + unit) option"
    let ?c = "PairConfirm \<lparr>pc_confirmed = loc\<rparr>"
    let ?r = "map_option (\<lambda>v. case v of Inl m \<Rightarrow> Inl (TWrite m) | Inr u \<Rightarrow> Inr u) r"
    assume enc: "encode_framed (x_ser x) (envelope_new rid ?c) = Inr bs"
    show "always (on_lock R) Q ((Wrote s bs r, w, w) # h') (confirm_written x s start loc k ?r)"
    proof (rule always_confirm_written)
      show "always (on_lock R) Q h'' (k v)"
        if "later ((Wrote s bs r, w, w) # h') h''" "v = Inr True \<Longrightarrow> both_confirmed x h''" for h'' v
        using k [OF later_trans [OF l later_ConsD [OF that(1)]] waited_later [OF later_ConsD [OF that(1)] wt] that(2)] .
      show "both_confirmed x h''"
        if r: "?r = Some (Inr ())" and loc: loc and h'': "later ((Wrote s bs r, w, w) # h') h''"
          and rc: "received x s e h''" and c: "body e = PairConfirm \<lparr>pc_confirmed = True\<rparr>" for h'' e
      proof -
        have "r = Some (Inr ())"
          using r by (cases r; cases "the r") simp_all
        then have "sent x s (envelope_new rid ?c) h''"
          using log_mono(2) [OF h''] enc by simp
        moreover have "decided ch True h''"
          using log_mono(1) [OF h''] dec [OF loc] by simp
        moreover have "body (envelope_new rid ?c) = PairConfirm \<lparr>pc_confirmed = True\<rparr>"
          using loc by simp
        ultimately show ?thesis
          using rc c unfolding both_confirmed_def by blast
      qed
    qed
  qed simp
  show ?thesis
    unfolding run_confirmation_exchange_def Let_def always_simps
    by (intro allI impI conjI go later_Cons later_refl) simp_all
qed

text \<open>The inviter trusts no one but the endpoint it is connected to, and only with a valid invite.\<close>

lemma accepts_inviteI: "snd (lock_check_invite now sec env w) = None \<Longrightarrow> accepts_invite sec (Locked env, w, w')"
  by (auto simp: accepts_invite_def lock_check_invite_def split: prod.splits intro!: exI [of _ now])

lemma lock_check_invite_trusted [simp]: "trusted_of (fst (lock_check_invite now sec env w)) = trusted_of w"
  by (simp add: lock_check_invite_def split: prod.split)

lemma lock_pending_trusted [simp]:
  "trusted_of (fst (lock_pending_inviter x pid joiner req vs ch env w)) = trusted_of w"
  "trusted_of (fst (lock_pending_joiner pid inviter dec vs ch env w)) = trusted_of w"
  by (simp_all add: lock_pending_inviter_def lock_pending_joiner_def)

lemma always_handle_pair_request:
  fixes x joiner req
  defines "R \<equiv> trust_rule x (\<lambda>h e. e = joiner \<and> invite_accepted (pr_invite_secret req) h)"
  assumes k: "\<And>h' r. always (on_lock R) Q h' (k r)"
  shows "always (on_lock R) Q h (handle_pair_request x joiner req s k)"
proof -
  let ?sec = "pr_invite_secret req"
  have same: "R h' env w w'" if "trusted_of w' = trusted_of w" for h' env w w'
    using that by (simp add: R_def)
  have fin: "always (on_lock R) Q h' (locked (finish_pairing x pid joiner dn dv sec r) (\<lambda>_. k (Inr ())))"
    if "invite_accepted ?sec h'" "r = Inr True \<Longrightarrow> both_confirmed x h'" for h' pid dn dv sec r
    using that k unfolding R_def by (auto simp: always_locked intro!: finish_pairing_rule)
  have conf: "always (on_lock R) Q h' (run_confirmation_exchange x s ch (\<lambda>outcome.
      locked (finish_pairing x pid joiner dn dv sec outcome) (\<lambda>_. k (Inr ()))))"
    if "invite_accepted ?sec h'" for h' ch pid dn dv sec
    using that by (intro always_confirmation fin) (auto dest: log_mono(4))
  have decision: "always (on_lock R) Q h' (write_envelope x s e None (\<lambda>r. case or_timeout r of
        Inl e \<Rightarrow> k (Inl e)
      | Inr _ \<Rightarrow> run_confirmation_exchange x s ch (\<lambda>outcome.
          locked (finish_pairing x pid joiner dn dv sec outcome) (\<lambda>_. k (Inr ())))))"
    if "invite_accepted ?sec h'" for h' e ch pid dn dv sec
  proof (rule always_write_envelope)
    fix bs w and r :: "(string + unit) option"
    have "invite_accepted ?sec ((Wrote s bs r, w, w) # h')"
      using that by simp
    from conf [OF this] k show "always (on_lock R) Q ((Wrote s bs r, w, w) # h') (case or_timeout
        (map_option (\<lambda>v. case v of Inl m \<Rightarrow> Inl (TWrite m) | Inr u \<Rightarrow> Inr u) r) of
        Inl e \<Rightarrow> k (Inl e)
      | Inr _ \<Rightarrow> run_confirmation_exchange x s ch (\<lambda>outcome.
          locked (finish_pairing x pid joiner dn dv sec outcome) (\<lambda>_. k (Inr ()))))"
      by (simp split: sum.split)
  qed (simp_all add: or_timeout_def k)
  show ?thesis
    unfolding handle_pair_request_def
    by (auto simp: always_simps always_locked always_reading Let_def same k accepts_inviteI
        split: option.split prod.split intro!: always_write_envelope decision)
qed

text \<open>The joiner trusts no one but the endpoint it dialled.\<close>

lemma always_join_accepted:
  assumes k: "\<And>h' r. always (on_lock (trust_rule x (\<lambda>h e. dialled_to e h))) Q h' (k r)"
    and h: "dialled_to inviter h" and none: "\<And>h'. waited h' \<Longrightarrow> Q h' None"
  shows "always (on_lock (trust_rule x (\<lambda>h e. dialled_to e h))) Q h
    (join_accepted x ticket my_id inviter nonce decision s k)"
proof -
  let ?R = "trust_rule x (\<lambda>h e. dialled_to e h)"
  have conf: "always (on_lock ?R) Q h' (run_confirmation_exchange x s ch (\<lambda>outcome.
      locked (finish_pairing x pid inviter dn dv None outcome) (\<lambda>_. Done None)))"
    if "dialled_to inviter h'" for h' ch pid dn dv
    using that none
    by (intro always_confirmation) (auto simp: always_locked intro!: finish_pairing_rule dest: log_mono(5))
  show ?thesis
    using h unfolding join_accepted_def Let_def
    by (auto simp: always_simps always_locked k intro!: conf)
qed

lemma dialled_later: "later h h' \<Longrightarrow> (\<forall>a. dialled_to a h \<longrightarrow> dialled_to a h')"
  using log_mono(5) by blast

lemma always_join_pairing:
  assumes k: "\<And>h' r. always (on_lock (trust_rule x (\<lambda>h e. dialled_to e h))) Q h' (k r)"
    and none: "\<And>h'. waited h' \<Longrightarrow> Q h' None"
  shows "always (on_lock (trust_rule x (\<lambda>h e. dialled_to e h))) Q h (join_pairing x ticket_text k)"
proof -
  let ?R = "trust_rule x (\<lambda>h e. dialled_to e h)"
  have response: "always (on_lock ?R) Q h' (case or_timeout r of
      Inl e \<Rightarrow> k (Inl e)
    | Inr response \<Rightarrow>
        (case body response of
           PairDecision decision \<Rightarrow>
             if \<not> pd_accepted decision
             then k (Inl (TMessage (unwrap_or (pd_error_code decision) ''pairing request rejected'')))
             else join_accepted x ticket my_id inviter nonce decision s k
         | _ \<Rightarrow> k (Inl (TMessage ''unexpected response to pairing request''))))"
    if "dialled_to inviter h'" for h' r ticket my_id inviter nonce s
    using that none k
    by (auto split: sum.split network_body.split intro!: always_join_accepted)
  show ?thesis
    unfolding join_pairing_def
    by (auto simp: always_simps always_reading k or_timeout_def [of "map_option f r" for f r] or_timeout_def [of "Some v" for v]
        split: option.split sum.split prod.split
        intro!: always_write_envelope always_read_envelope response)
      (drule dialled_later, fastforce)+
qed

section \<open>Rules for every step of a handshake\<close>

locale handshake_rule = step_rule +
  assumes R_check_invite: "R w (fst (lock_check_invite now sec env w))"
    and R_pending_inviter: "R w (fst (lock_pending_inviter x pid joiner req vs ch env w))"
    and R_pending_joiner: "R w (fst (lock_pending_joiner pid inviter dec vs ch env w))"
    and R_finish_pairing: "R w (fst (finish_pairing x pid peer dn dv consumed outcome env w))"
begin

lemma ok_confirmation: "(\<And>r. ok (k r)) \<Longrightarrow> ok (run_confirmation_exchange x s ch k)"
  by (auto simp: run_confirmation_exchange_def confirm_written_def wait_for_confirm_delivery_def Let_def
      split: sum.split intro!: ok_pure ok_write_envelope ok_read_envelope)

lemma ok_handle_pair_request: "(\<And>r. ok (k r)) \<Longrightarrow> ok (handle_pair_request x joiner req s k)"
  by (auto simp: handle_pair_request_def Let_def R_check_invite R_pending_inviter R_finish_pairing
      split: option.split sum.split prod.split
      intro!: ok_pure ok_write_envelope ok_confirmation ok_locked ok_reading)

lemma ok_join_accepted: "(\<And>r. ok (k r)) \<Longrightarrow> ok (join_accepted x ticket my_id inviter nonce dec s k)"
  by (auto simp: join_accepted_def Let_def R_pending_joiner R_finish_pairing
      intro!: ok_pure ok_confirmation ok_locked)

lemma ok_join_pairing: "(\<And>r. ok (k r)) \<Longrightarrow> ok (join_pairing x ticket_text k)"
  by (auto simp: join_pairing_def split: option.split sum.split prod.split network_body.split
      intro!: ok_pure ok_write_envelope ok_read_envelope ok_reading ok_join_accepted)

end

section \<open>Properties\<close>

text \<open>
  The inviter.  Whatever the environment does at each step of \<open>handle_pair_request\<close>, an
  endpoint becomes trusted only if it is the one that opened the connection, an unexpired invite
  with the secret it sent took the request, the local decision was yes, our own confirmation was
  written to the stream and a confirmation that says yes was read from the stream.
\<close>

theorem handle_pair_request_trust:
  "always (on_lock (trust_rule x (\<lambda>h e. e = joiner \<and> invite_accepted (pr_invite_secret req) h)))
     (\<lambda>_ _. True) [] (handle_pair_request x joiner req s (\<lambda>_. Done None))"
  by (rule always_handle_pair_request) simp

text \<open>
  The joiner.  In \<open>join_pairing\<close> and in the background task it spawns, an endpoint becomes
  trusted only if it is the one the task dialled, the local decision was yes, our own confirmation
  was written and the inviter's confirmation that says yes was read.
\<close>

theorem join_pairing_trust:
  "always (on_lock (trust_rule x (\<lambda>h e. dialled_to e h)))
     (\<lambda>_ _. True) [] (join_pairing x ticket_text (\<lambda>_. Done None))"
  by (rule always_join_pairing) simp_all

lemma finish_pairing_app:
  "pending_pairings (app (fst (finish_pairing x pid peer dn dv sec outcome env w))) =
     (pending_pairings (app w))(pid := None)"
  "active_invites (app (fst (finish_pairing x pid peer dn dv sec outcome env w))) =
     (case sec of None \<Rightarrow> active_invites (app w) | Some s \<Rightarrow> consume_invite s (active_invites (app w)))"
  by (auto simp: finish_pairing_def Let_def split: sum.split bool.split option.split prod.split)

lemma finish_pairing_not_true:
  "outcome \<noteq> Inr True \<Longrightarrow>
   st_config (app (fst (finish_pairing x pid peer dn dv sec outcome env w))) = st_config (app w) \<and>
   disk (fst (finish_pairing x pid peer dn dv sec outcome env w)) = disk w"
  by (auto simp: finish_pairing_def Let_def split: sum.split bool.split option.split prod.split)

lemma consumed_is_rejected: "check_invite now s (consume_invite s invites) =
  (consume_invite s invites, Some ''invalid_or_expired_invite'')"
proof -
  have "find (\<lambda>iv. secrets_match (ai_secret iv) s) (consume_invite s invites) = None"
    by (auto simp: find_None_iff_all consume_invite_def)
  then show ?thesis by (simp add: check_invite_def)
qed

text \<open>
  Settling a session ends it whatever its outcome: the pending pairing is gone and no other
  is touched, and the invite that was used is never accepted again.  Only a positive outcome
  changes the config, by adding one record for the peer; any other outcome leaves the config
  and the disk as they were.
\<close>

theorem finish_pairing_spec:
  "let w' = fst (finish_pairing x pid peer dn dv sec outcome env w)
   in pending_pairings (app w') = (pending_pairings (app w))(pid := None) \<and>
      (\<forall>s now. sec = Some s \<longrightarrow>
         snd (check_invite now s (active_invites (app w'))) = Some ''invalid_or_expired_invite'') \<and>
      (outcome = Inr True \<longrightarrow>
         (\<exists>p. trusted_of w' = trusted_of w @ [p] \<and> endpoint_id p = peer)) \<and>
      (outcome \<noteq> Inr True \<longrightarrow> st_config (app w') = st_config (app w) \<and> disk w' = disk w)"
  using finish_pairing_not_true
  by (auto simp: Let_def finish_pairing_app consumed_is_rejected finish_pairing_trusted add_trusted_peer_def)

definition sample_config :: config where
  "sample_config = config_default Map.empty"

definition sample_world :: world where
  "sample_world =
     \<lparr>app = app_state_new \<lparr>secret_key = replicate 32 7\<rparr> sample_config 0, disk = Map.empty, outbox = [],
      closings = [], oneshots = (\<lambda>_. Waiting), next_oneshot = 0, shutdown_requested = False\<rparr>"

theorem finish_pairing_spec_witness:
  "\<forall>x env. \<exists>p. trusted_of (fst (finish_pairing x 1 ''bbbb'' ''Bob'' ''PC'' (Some [1]) (Inr True) env sample_world)) = [p] \<and>
     endpoint_id p = ''bbbb''"
proof (intro allI)
  fix x env
  show "\<exists>p. trusted_of (fst (finish_pairing x 1 ''bbbb'' ''Bob'' ''PC'' (Some [1]) (Inr True) env sample_world)) = [p] \<and>
     endpoint_id p = ''bbbb''"
    using finish_pairing_spec [where pid = 1 and peer = "''bbbb''" and dn = "''Bob''" and dv = "''PC''"
        and sec = "Some [1]" and outcome = "Inr True" and w = sample_world and env = env and x = x]
    by (simp add: Let_def sample_world_def app_state_new_def sample_config_def config_default_def)
qed

end
