(* ===== verification/Lcp_Transport.thy ===== *)
theory Lcp_Transport
  imports Lcp_Handshake
begin

text \<open>
  The rest of \<open>lcp-core/src/transport.rs\<close>: the protocol handler that accepts connections, the
  handler of one incoming stream, incoming text messages, and sending a text message.  The
  lemmas show what an incoming stream can change, when a message is acknowledged, and when a
  send counts as delivered.
\<close>

section \<open>Status broadcasts\<close>

fun peer_status_json :: "peer_status \<Rightarrow> json" where
  "peer_status_json Online = JStr ''online''"
| "peer_status_json Connecting = JStr ''connecting''"
| "peer_status_json Offline = JStr ''offline''"
| "peer_status_json UnknownStatus = JStr ''unknown''"

fun path_type_json :: "path_type \<Rightarrow> json" where
  "path_type_json Direct = JStr ''direct''"
| "path_type_json Relay = JStr ''relay''"
| "path_type_json UnknownPath = JStr ''unknown''"

definition broadcast_peer_status :: "lock_env \<Rightarrow> string \<Rightarrow> world \<Rightarrow> world" where
  "broadcast_peer_status env eid w =
     (case status_of (is_closed env w) (peer_connections (app w)) eid of
        (status, path) \<Rightarrow>
          broadcast_event env PEER_UPDATED
            (JObj [(''endpoint_id'', JStr eid), (''status'', peer_status_json status),
                   (''path'', path_type_json path)]) w)"

definition lock_mark_online :: "string \<Rightarrow> conn \<Rightarrow> lock_env \<Rightarrow> world \<Rightarrow> world \<times> unit" where
  "lock_mark_online eid c env w =
     (broadcast_peer_status env eid (map_connections (\<lambda>r. mark_online r eid c) w), ())"

definition lock_mark_offline :: "string \<Rightarrow> lock_env \<Rightarrow> world \<Rightarrow> world \<times> unit" where
  "lock_mark_offline eid env w =
     (broadcast_peer_status env eid (map_connections (\<lambda>r. mark_offline r eid) w), ())"

section \<open>Incoming text\<close>

definition trusted_alias :: "string \<Rightarrow> lock_env \<Rightarrow> world \<Rightarrow> string option" where
  "trusted_alias remote_id env w =
     map_option peer_alias (find (\<lambda>p. endpoint_id p = remote_id) (trusted_of w))"

definition lock_record_incoming ::
  "externs \<Rightarrow> string \<Rightarrow> string \<Rightarrow> text_payload \<Rightarrow> lock_env \<Rightarrow> world \<Rightarrow> world \<times> record_outcome" where
  "lock_record_incoming x remote_id label p env w =
     (case record_incoming (st_conversations (app w)) remote_id label (tp_message_id p)
             (tp_sent_at_unix_ms p) (le_unix_ms env) (tp_text p) of
        (cs, outcome) \<Rightarrow>
          (let w1 = map_conversations (\<lambda>_. cs) w
           in case outcome of
                Accepted \<Rightarrow>
                  (broadcast_event env MESSAGE_RECEIVED
                     (JObj [(''peer_id'', JStr remote_id), (''sender_label'', JStr label),
                            (''message_id'', JStr (x_uuid_text x (tp_message_id p)))]) w1, outcome)
              | DuplicateMessage \<Rightarrow> (w1, outcome)))"

definition error_envelope :: "uuid \<Rightarrow> string \<Rightarrow> string \<Rightarrow> network_envelope" where
  "error_envelope rid code m = envelope_new rid (NetworkError \<lparr>ne_code = code, ne_message = m\<rparr>)"

definition ack_envelope :: "uuid \<Rightarrow> uuid \<Rightarrow> network_envelope" where
  "ack_envelope rid mid =
     envelope_new rid (Ack \<lparr>ap_message_id = mid, ap_accepted = True, ap_error_code = None\<rparr>)"

text \<open>Write one envelope, finish the stream, and hand the result on.\<close>

definition answer_with ::
  "externs \<Rightarrow> stream \<Rightarrow> network_envelope \<Rightarrow> transport_error + unit
     \<Rightarrow> (transport_error + unit \<Rightarrow> task) \<Rightarrow> task" where
  "answer_with x s e result k =
     write_envelope x s e None (\<lambda>r.
       case or_timeout r of
         Inl err \<Rightarrow> k (Inl err)
       | Inr _ \<Rightarrow> Finish s (k result))"

definition handle_text ::
  "externs \<Rightarrow> string \<Rightarrow> uuid \<Rightarrow> text_payload \<Rightarrow> stream \<Rightarrow> (transport_error + unit \<Rightarrow> task) \<Rightarrow> task" where
  "handle_text x remote_id rid p s k =
     reading (trusted_alias remote_id) (\<lambda>found.
       case found of
         None \<Rightarrow>
           answer_with x s (error_envelope rid ''unauthorized'' ''endpoint is not a trusted peer'')
             (Inl (TMessage (''rejected text from untrusted endpoint '' @ remote_id))) k
       | Some sender_label \<Rightarrow>
           (case validate_text_len (tp_text p) of
              Inl e \<Rightarrow>
                answer_with x s (error_envelope rid ''limit_exceeded'' (protocol_error_text e)) (Inr ()) k
            | Inr _ \<Rightarrow>
                locked (lock_record_incoming x remote_id sender_label p) (\<lambda>_.
                  answer_with x s (ack_envelope rid (tp_message_id p)) (Inr ()) k)))"

section \<open>Incoming streams and connections\<close>

definition handle_incoming_stream ::
  "externs \<Rightarrow> string \<Rightarrow> stream \<Rightarrow> (transport_error + unit \<Rightarrow> task) \<Rightarrow> task" where
  "handle_incoming_stream x remote_id s k =
     read_envelope x s None (\<lambda>r.
       case or_timeout r of
         Inl e \<Rightarrow> k (Inl e)
       | Inr e \<Rightarrow>
           (case body e of
              Text p \<Rightarrow> handle_text x remote_id (request_id e) p s k
            | Ping \<Rightarrow> answer_with x s (envelope_new (request_id e) Pong) (Inr ()) k
            | PairRequest req \<Rightarrow> handle_pair_request x remote_id req s k
            | other \<Rightarrow>
                write_envelope x s
                  (error_envelope (request_id e) ''unexpected_message''
                     (''unexpected opening message: '' @ x_dbg_body x other)) None
                  (\<lambda>_. Finish s (k (Inr ())))))"

definition accept_info :: "externs \<Rightarrow> string \<Rightarrow> lock_env \<Rightarrow> world \<Rightarrow> string \<times> bool" where
  "accept_info x remote_id env w =
     (identity_endpoint_id x (identity (app w)), is_trusted (trusted_of w) remote_id)"

definition lock_accept :: "string \<Rightarrow> string \<Rightarrow> conn \<Rightarrow> lock_env \<Rightarrow> world \<Rightarrow> world \<times> bool" where
  "lock_accept my_id remote_id c env w =
     (if should_keep_inbound (is_closed env w) (peer_connections (app w)) my_id remote_id
      then (fst (lock_mark_online remote_id c env w), True)
      else (w, False))"

definition accept_streams :: "externs \<Rightarrow> string \<Rightarrow> conn \<Rightarrow> task" where
  "accept_streams x remote_id c =
     Accept_loop c (\<lambda>s. handle_incoming_stream x remote_id s (\<lambda>_. Done None))"

definition accept :: "externs \<Rightarrow> string \<Rightarrow> conn \<Rightarrow> task" where
  "accept x remote_id c =
     reading (accept_info x remote_id) (\<lambda>(my_id, trusted).
       if trusted then
         locked (lock_accept my_id remote_id c) (\<lambda>keep.
           if keep then accept_streams x remote_id c
           else Close_conn c ''duplicate connection'' (Done None))
       else accept_streams x remote_id c)"

section \<open>Sending text\<close>

datatype send_text_error = SendConnect string | SendSend string | SendRejected string

fun send_text_error_text :: "send_text_error \<Rightarrow> string" where
  "send_text_error_text (SendConnect m) = ''connect timed out or failed: '' @ m"
| "send_text_error_text (SendSend m) = ''send timed out or failed: '' @ m"
| "send_text_error_text (SendRejected m) = ''peer rejected the message: '' @ m"

fun ack_result :: "network_body \<Rightarrow> send_text_error + unit" where
  "ack_result (Ack a) =
     (if ap_accepted a then Inr ()
      else Inl (SendRejected (unwrap_or (ap_error_code a) ''rejected'')))"
| "ack_result (NetworkError e) = Inl (SendRejected (ne_message e))"
| "ack_result _ = Inl (SendRejected ''unexpected response'')"

text \<open>From the open connection on.\<close>

definition text_envelope :: "uuid \<Rightarrow> uuid \<Rightarrow> string \<Rightarrow> int \<Rightarrow> string \<Rightarrow> network_envelope" where
  "text_envelope rid mid my_id now t =
     envelope_new rid (Text \<lparr>tp_message_id = mid, tp_sender_endpoint_id = my_id,
       tp_sent_at_unix_ms = now, tp_text = t\<rparr>)"

definition send_on ::
  "externs \<Rightarrow> conn \<Rightarrow> string \<Rightarrow> uuid \<Rightarrow> string \<Rightarrow> (send_text_error + unit \<Rightarrow> task) \<Rightarrow> task" where
  "send_on x c my_id mid t k =
     Open_bi c (\<lambda>r.
       case r of
         Inl e \<Rightarrow> k (Inl (SendConnect e))
       | Inr s \<Rightarrow>
           New_uuid (\<lambda>rid.
             Unix_ms (\<lambda>now.
               write_envelope x s (text_envelope rid mid my_id now t) (Some SEND_TIMEOUT) (\<lambda>r.
                 case r of
                   None \<Rightarrow> k (Inl (SendSend ''timed out writing message''))
                 | Some (Inl e) \<Rightarrow> k (Inl (SendSend (transport_error_text x e)))
                 | Some (Inr _) \<Rightarrow>
                     Finish s
                       (read_envelope x s (Some ACK_TIMEOUT) (\<lambda>r.
                          case r of
                            None \<Rightarrow> k (Inl (SendSend ''timed out waiting for ack''))
                          | Some (Inl e) \<Rightarrow> k (Inl (SendSend (transport_error_text x e)))
                          | Some (Inr response) \<Rightarrow> k (ack_result (body response))))))))"

definition cached_for :: "string \<Rightarrow> lock_env \<Rightarrow> world \<Rightarrow> conn option" where
  "cached_for remote env w = cached_connection (is_closed env w) (peer_connections (app w)) remote"

definition send_text_inner ::
  "externs \<Rightarrow> string \<Rightarrow> string \<Rightarrow> string \<Rightarrow> uuid \<Rightarrow> string \<Rightarrow> (send_text_error + unit \<Rightarrow> task) \<Rightarrow> task" where
  "send_text_inner x addr remote my_id mid t k =
     reading (cached_for remote) (\<lambda>cached.
       case cached of
         Some c \<Rightarrow> send_on x c my_id mid t k
       | None \<Rightarrow>
           Dial addr (Some CONNECT_TIMEOUT) (\<lambda>r.
             case r of
               None \<Rightarrow> k (Inl (SendConnect ''timed out''))
             | Some (Inl e) \<Rightarrow> k (Inl (SendConnect e))
             | Some (Inr (c, _)) \<Rightarrow> locked (lock_mark_online remote c) (\<lambda>_. send_on x c my_id mid t k)))"

definition send_text ::
  "externs \<Rightarrow> string \<Rightarrow> string \<Rightarrow> string \<Rightarrow> uuid \<Rightarrow> string \<Rightarrow> (send_text_error + unit \<Rightarrow> task) \<Rightarrow> task" where
  "send_text x addr remote my_id mid t k =
     send_text_inner x addr remote my_id mid t (\<lambda>result.
       case result of
         Inl e \<Rightarrow> locked (lock_mark_offline remote) (\<lambda>_. k (Inl e))
       | Inr _ \<Rightarrow> k (Inr ()))"

section \<open>Lemmas\<close>

lemma broadcast_peer_status_sel [simp]:
  "disk (broadcast_peer_status env e w) = disk w" "closings (broadcast_peer_status env e w) = closings w"
  "st_config (app (broadcast_peer_status env e w)) = st_config (app w)"
  "st_conversations (app (broadcast_peer_status env e w)) = st_conversations (app w)"
  "active_invites (app (broadcast_peer_status env e w)) = active_invites (app w)"
  "pending_pairings (app (broadcast_peer_status env e w)) = pending_pairings (app w)"
  "peer_connections (app (broadcast_peer_status env e w)) = peer_connections (app w)"
  "identity (app (broadcast_peer_status env e w)) = identity (app w)"
  by (simp_all add: broadcast_peer_status_def split: prod.split)

lemma mark_sections [simp]:
  "st_config (app (fst (lock_mark_online e c env w))) = st_config (app w)"
  "st_conversations (app (fst (lock_mark_online e c env w))) = st_conversations (app w)"
  "active_invites (app (fst (lock_mark_online e c env w))) = active_invites (app w)"
  "peer_connections (app (fst (lock_mark_online e c env w))) = mark_online (peer_connections (app w)) e c"
  "disk (fst (lock_mark_online e c env w)) = disk w"
  "st_config (app (fst (lock_mark_offline e env w))) = st_config (app w)"
  "st_conversations (app (fst (lock_mark_offline e env w))) = st_conversations (app w)"
  "active_invites (app (fst (lock_mark_offline e env w))) = active_invites (app w)"
  "peer_connections (app (fst (lock_mark_offline e env w))) = mark_offline (peer_connections (app w)) e"
  "disk (fst (lock_mark_offline e env w)) = disk w"
  by (simp_all add: lock_mark_online_def lock_mark_offline_def)

lemma lock_accept_sel [simp]:
  "st_config (app (fst (lock_accept my r c env w))) = st_config (app w)"
  "st_conversations (app (fst (lock_accept my r c env w))) = st_conversations (app w)"
  "active_invites (app (fst (lock_accept my r c env w))) = active_invites (app w)"
  "disk (fst (lock_accept my r c env w)) = disk w"
  by (simp_all add: lock_accept_def)

lemma lock_record_incoming_sel [simp]:
  "st_config (app (fst (lock_record_incoming x r l p env w))) = st_config (app w)"
  "active_invites (app (fst (lock_record_incoming x r l p env w))) = active_invites (app w)"
  "disk (fst (lock_record_incoming x r l p env w)) = disk w"
  "st_conversations (app (fst (lock_record_incoming x r l p env w))) =
     fst (record_incoming (st_conversations (app w)) r l (tp_message_id p) (tp_sent_at_unix_ms p)
       (le_unix_ms env) (tp_text p))"
  by (simp_all add: lock_record_incoming_def Let_def split: prod.split record_outcome.split)

section \<open>Rules for every step of the network side\<close>

locale send_rule = step_rule +
  assumes R_mark_online: "R w (fst (lock_mark_online eid c env w))"
    and R_mark_offline: "R w (fst (lock_mark_offline eid env w))"
begin

lemma ok_send_text: "(\<And>r. ok (k r)) \<Longrightarrow> ok (send_text x addr remote my_id mid t k)"
  by (auto simp: send_text_def send_text_inner_def send_on_def R_mark_online R_mark_offline
      split: option.split sum.split prod.split
      intro!: ok_reading ok_locked ok_pure ok_write_envelope ok_read_envelope)

end

locale transport_rule = handshake_rule + send_rule +
  assumes R_record_incoming: "length (tp_text p) \<le> MAX_TEXT_BYTES \<Longrightarrow>
      R w (fst (lock_record_incoming x eid label p env w))"
begin

lemma R_accept: "R w (fst (lock_accept my eid c env w))"
  by (simp add: lock_accept_def R_mark_online R_refl)

lemma ok_answer_with: "(\<And>r. ok (k r)) \<Longrightarrow> ok (answer_with x s e r k)"
  by (auto simp: answer_with_def split: sum.split intro!: ok_write_envelope ok_pure)

lemma ok_handle_text: "(\<And>r. ok (k r)) \<Longrightarrow> ok (handle_text x remote rid p s k)"
  by (auto simp: handle_text_def R_record_incoming split: option.split sum.split
      intro!: ok_reading ok_locked ok_answer_with)

lemma ok_handle_incoming_stream: "(\<And>r. ok (k r)) \<Longrightarrow> ok (handle_incoming_stream x remote s k)"
  by (auto simp: handle_incoming_stream_def split: sum.split network_body.split
      intro!: ok_read_envelope ok_handle_text ok_handle_pair_request ok_answer_with ok_write_envelope ok_pure)

lemma ok_accept: "ok (accept x remote c)"
  by (auto simp: accept_def accept_streams_def R_accept split: prod.split
      intro!: ok_reading ok_locked ok_accept_loop ok_handle_incoming_stream ok_pure)

end

section \<open>What an incoming connection can record\<close>

definition same_conversations :: "world \<Rightarrow> world \<Rightarrow> bool" where
  "same_conversations w w' \<longleftrightarrow> st_conversations (app w') = st_conversations (app w)"

interpretation talk: handshake_rule same_conversations x "\<lambda>ch b. True"
  by unfold_locales (auto simp: same_conversations_def opened_channel_def sent_decision_def
      lock_check_invite_def lock_pending_inviter_def lock_pending_joiner_def finish_pairing_def Let_def
      split: prod.split sum.split bool.split option.split)

text \<open>The alias under which a lock section of the log saw the endpoint as a trusted peer.\<close>

definition seen_trusted :: "string \<Rightarrow> string \<Rightarrow> log \<Rightarrow> bool" where
  "seen_trusted remote label h \<longleftrightarrow>
     (\<exists>env w w'. (Locked env, w, w') \<in> set h \<and> trusted_alias remote env w = Some label)"

text \<open>
  A change of the stored messages is the recording of a text that was read from the stream, within
  the size limit, under the authenticated endpoint id and the alias that endpoint has as a
  trusted peer.
\<close>

definition text_rule :: "externs \<Rightarrow> string \<Rightarrow> log \<Rightarrow> lock_env \<Rightarrow> world \<Rightarrow> world \<Rightarrow> bool" where
  "text_rule x remote h env w w' \<longleftrightarrow>
     same_conversations w w' \<or>
     (\<exists>s e p label. received x s e h \<and> body e = Text p \<and> length (tp_text p) \<le> MAX_TEXT_BYTES \<and>
        seen_trusted remote label h \<and>
        st_conversations (app w') =
          fst (record_incoming (st_conversations (app w)) remote label (tp_message_id p)
                 (tp_sent_at_unix_ms p) (le_unix_ms env) (tp_text p)))"

lemma text_rule_same [simp]: "same_conversations w w' \<Longrightarrow> text_rule x remote h env w w'"
  by (simp add: text_rule_def)

lemma same_conversations_refl [simp]: "same_conversations w w"
  by (simp add: same_conversations_def)

lemma always_answer_with:
  assumes "\<And>h' r. always (on_lock R) Q h' (k r)"
  shows "always (on_lock R) Q h (answer_with x s e r k)"
  unfolding answer_with_def using assms
  by (auto intro!: always_write_envelope simp: always_simps or_timeout_def split: option.split sum.split)

lemma seen_trusted_Cons [simp]:
  "seen_trusted remote label ((ev, w, w') # h) \<longleftrightarrow>
     (\<exists>env. ev = Locked env \<and> trusted_alias remote env w = Some label) \<or> seen_trusted remote label h"
  by (simp add: seen_trusted_def) blast

lemma always_handle_text:
  assumes k: "\<And>h' r. always (on_lock (text_rule x remote)) Q h' (k r)"
    and h: "received x s e h" "body e = Text p"
  shows "always (on_lock (text_rule x remote)) Q h (handle_text x remote rid p s k)"
proof -
  have rule: "text_rule x remote ((Locked env0, w0, w0) # h) env w (fst (lock_record_incoming x remote label p env w))"
    if "trusted_alias remote env0 w0 = Some label" "validate_text_len (tp_text p) = Inr ()" for env0 w0 env w label
  proof -
    have "received x s e ((Locked env0, w0, w0) # h)" using h(1) by simp
    moreover have "seen_trusted remote label ((Locked env0, w0, w0) # h)" using that(1) by simp
    ultimately show ?thesis
      using h(2) that(2) unfolding text_rule_def by auto
  qed
  show ?thesis
    unfolding handle_text_def
    by (auto simp: always_reading always_locked rule split: option.split sum.split
        intro!: always_answer_with k)
qed

lemma talk_on_lock:
  assumes "talk.ok t"
  shows "always (on_lock (text_rule x remote)) (\<lambda>h r. True) h t"
  using talk.ok_always(1) [OF assms]
  by (rule always_mono) (auto simp: on_lock_def split: event.split)

lemma always_handle_incoming_stream:
  "always (on_lock (text_rule x remote)) (\<lambda>h r. True) h (handle_incoming_stream x remote s (\<lambda>_. Done None))"
proof -
  have "always (on_lock (text_rule x remote)) (\<lambda>h r. True) h'
      (case or_timeout r of
         Inl e \<Rightarrow> Done None
       | Inr e \<Rightarrow>
           (case body e of
              Text p \<Rightarrow> handle_text x remote (request_id e) p s (\<lambda>_. Done None)
            | Ping \<Rightarrow> answer_with x s (envelope_new (request_id e) Pong) (Inr ()) (\<lambda>_. Done None)
            | PairRequest req \<Rightarrow> handle_pair_request x remote req s (\<lambda>_. Done None)
            | other \<Rightarrow>
                write_envelope x s
                  (error_envelope (request_id e) ''unexpected_message''
                     (''unexpected opening message: '' @ x_dbg_body x other)) None
                  (\<lambda>_. Finish s (Done None))))"
    if "\<And>e. r = Some (Inr e) \<Longrightarrow> received x s e h'" for h' and r :: "(transport_error + network_envelope) option"
  proof (cases "or_timeout r")
    case (Inl e)
    then show ?thesis by simp
  next
    case (Inr e)
    then have "r = Some (Inr e)" by (auto simp: or_timeout_def split: option.splits)
    with that have rc: "received x s e h'" by blast
    show ?thesis
      unfolding Inr
      by (auto split: network_body.split simp: always_simps
          intro!: always_handle_text [OF _ rc] always_answer_with always_write_envelope
            talk_on_lock [OF talk.ok_handle_pair_request])
  qed
  then show ?thesis
    unfolding handle_incoming_stream_def by (intro always_read_envelope) simp_all
qed

lemma same_conversations_accept [simp]: "same_conversations w (fst (lock_accept my e c env w))"
  by (simp add: same_conversations_def)

section \<open>Sending\<close>

text \<open>The text was written to a stream and the peer's positive acknowledgement read from it.\<close>

definition delivered :: "externs \<Rightarrow> uuid \<Rightarrow> string \<Rightarrow> log \<Rightarrow> bool" where
  "delivered x mid t h \<longleftrightarrow>
     (\<exists>s rid my_id now e a.
        sent x s (text_envelope rid mid my_id now t) h \<and>
        received x s e h \<and> body e = Ack a \<and> ap_accepted a)"

text \<open>The last step of the log marked the peer offline.\<close>

definition just_marked_offline :: "string \<Rightarrow> log \<Rightarrow> bool" where
  "just_marked_offline remote h \<longleftrightarrow>
     (\<exists>env w h'. h = (Locked env, w, fst (lock_mark_offline remote env w)) # h')"

lemma ack_result_ok: "ack_result b = Inr u \<longleftrightarrow> (\<exists>a. b = Ack a \<and> ap_accepted a)"
  by (cases b) simp_all

lemma always_send_on:
  assumes k: "\<And>h' r. later h h' \<Longrightarrow> (r = Inr () \<Longrightarrow> delivered x mid t h') \<Longrightarrow> always (on_lock R) Q h' (k r)"
  shows "always (on_lock R) Q h (send_on x c my_id mid t k)"
proof -
  have ack: "always (on_lock R) Q h1 (read_envelope x s (Some ACK_TIMEOUT) (\<lambda>r.
      case r of
        None \<Rightarrow> k (Inl (SendSend ''timed out waiting for ack''))
      | Some (Inl e) \<Rightarrow> k (Inl (SendSend (transport_error_text x e)))
      | Some (Inr response) \<Rightarrow> k (ack_result (body response))))"
    if l: "later h h1" and st: "sent x s (text_envelope rid mid my_id now t) h1" for h1 s rid now
  proof (rule always_read_envelope)
    fix h' and r :: "(transport_error + network_envelope) option"
    assume rc: "\<And>e. r = Some (Inr e) \<Longrightarrow> received x s e h'" and l1: "later h1 h'"
    have l': "later h h'" using l l1 by (rule later_trans)
    have "delivered x mid t h'" if "r = Some (Inr e)" "ack_result (body e) = Inr ()" for e
      using rc [OF that(1)] that(2) log_mono(2) [OF l1 st] unfolding delivered_def ack_result_ok by blast
    then show "always (on_lock R) Q h' (case r of
        None \<Rightarrow> k (Inl (SendSend ''timed out waiting for ack''))
      | Some (Inl e) \<Rightarrow> k (Inl (SendSend (transport_error_text x e)))
      | Some (Inr response) \<Rightarrow> k (ack_result (body response)))"
      by (auto split: option.split sum.split intro!: k [OF l'])
  qed simp
  show ?thesis
    unfolding send_on_def
    by (auto simp: always_simps split: option.split sum.split
        intro!: k always_write_envelope ack later_Cons later_refl)
qed

lemma always_send_text:
  assumes k: "\<And>h' r. later h h' \<Longrightarrow> (r = Inr () \<Longrightarrow> delivered x mid t h') \<Longrightarrow>
      (r \<noteq> Inr () \<Longrightarrow> just_marked_offline remote h') \<Longrightarrow> always (on_lock R) Q h' (k r)"
    and R: "\<And>h env w. R h env w w" "\<And>h env w c. R h env w (fst (lock_mark_online remote c env w))"
      "\<And>h env w. R h env w (fst (lock_mark_offline remote env w))"
  shows "always (on_lock R) Q h (send_text x addr remote my_id mid t k)"
proof -
  let ?k = "\<lambda>result. case result of
      Inl e \<Rightarrow> locked (lock_mark_offline remote) (\<lambda>_. k (Inl e))
    | Inr _ \<Rightarrow> k (Inr ())"
  have k': "always (on_lock R) Q h' (?k r)"
    if "later h h'" "r = Inr () \<Longrightarrow> delivered x mid t h'" for h' r
  proof (cases r)
    case (Inl e)
    then show ?thesis
      using that(1) R(3) by (auto simp: always_locked just_marked_offline_def intro!: k)
  next
    case (Inr u)
    then show ?thesis using that by (auto intro!: k)
  qed
  have on: "always (on_lock R) Q h' (send_on x c my_id mid t ?k)" if "later h h'" for h' c
    using later_trans [OF that] by (intro always_send_on k') blast+
  show ?thesis
    unfolding send_text_def send_text_inner_def
    by (auto simp: always_reading always_locked always_simps R just_marked_offline_def
        split: option.split sum.split prod.split intro!: on k later_Cons later_refl)
qed

section \<open>What receiving a text stores\<close>

text \<open>
  The id was not recorded before from this peer, and the message is now the newest of the history
  of the peer, behind the older ones that the limit leaves.
\<close>

definition stores_message :: "string \<Rightarrow> stored_message \<Rightarrow> world \<Rightarrow> world \<Rightarrow> bool" where
  "stores_message peer m w w' \<longleftrightarrow>
     (let s = st_conversations (app w); old = messages_for s peer
      in \<not> dedup_contains (dedup_cache s) (peer, sm_id m) \<and> sm_peer_id m = peer \<and> sm_direction m = Incoming \<and>
         messages_for (st_conversations (app w')) peer =
           drop (Suc (length old) - history_limit_per_peer s) (old @ [m]))"

lemma record_incoming_stores:
  assumes "\<not> dedup_contains (dedup_cache (st_conversations (app w))) (remote, tp_message_id p)"
    and "st_conversations (app w') = st_conversations (app (fst (lock_record_incoming x remote label p env w)))"
  shows "\<exists>m. stores_message remote m w w' \<and> sm_id m = tp_message_id p \<and> sm_text m = tp_text p \<and>
    sm_sender_label m = label \<and> sm_sent_at_unix_ms m = tp_sent_at_unix_ms p"
proof -
  let ?m = "\<lparr>sm_id = tp_message_id p, sm_peer_id = remote, sm_direction = Incoming, sm_sender_label = label,
    sm_text = tp_text p, sm_sent_at_unix_ms = tp_sent_at_unix_ms p, sm_received_at_unix_ms = le_unix_ms env,
    sm_receive_sequence = Some (next_receive_sequence (st_conversations (app w))), sm_status = Received\<rparr>"
  have "stores_message remote ?m w w'"
    using assms messages_for_record_incoming [OF assms(1)]
    by (simp add: stores_message_def push_bounded_drop Let_def)
  then show ?thesis by (intro exI [of _ ?m]) simp
qed

lemma record_incoming_known:
  "dedup_contains (dedup_cache (st_conversations (app w))) (remote, tp_message_id p) \<Longrightarrow>
   st_conversations (app (fst (lock_record_incoming x remote label p env w))) = st_conversations (app w)"
  by (simp add: record_incoming_dup)

section \<open>Properties\<close>

text \<open>
  C6.  Only trusted endpoints can leave messages.  Through a whole incoming connection, with any
  number of streams and whatever is sent on them, the stored messages change only by
  recording a text that was read from a stream of that connection, of at most 5 MiB, under the
  authenticated id of the connection and the alias this id was seen to have as a trusted peer;
  the sender id and label inside the message are never used.
\<close>

theorem incoming_text_authorized:
  "always (on_lock (text_rule x remote)) (\<lambda>h r. True) [] (accept x remote c)"
  unfolding accept_def accept_streams_def
  by (auto simp: always_reading always_locked always_simps split: prod.split
      intro!: always_Accept_loop always_handle_incoming_stream)

definition recorded :: "externs \<Rightarrow> string \<Rightarrow> text_payload \<Rightarrow> log \<Rightarrow> bool" where
  "recorded x remote p h \<longleftrightarrow>
     (\<exists>env w label. (Locked env, w, fst (lock_record_incoming x remote label p env w)) \<in> set h)"

definition ack_rule :: "externs \<Rightarrow> string \<Rightarrow> text_payload \<Rightarrow> log \<Rightarrow> entry \<Rightarrow> bool" where
  "ack_rule x remote p h e =
     (case e of
        (Wrote s bs r, w, w') \<Rightarrow>
          recorded x remote p h \<or>
          (\<exists>rid code m. encode_framed (x_ser x) (error_envelope rid code m) = Inr bs)
      | _ \<Rightarrow> True)"

text \<open>
  A text is acknowledged only after it was recorded (or recognized as a retry): when
  \<open>handle_text\<close> writes anything to the stream, either the log holds the lock section that
  recorded this message, or what is written is an error and no acknowledgement.
\<close>

theorem text_acknowledged_after_recording:
  "always (ack_rule x remote p) (\<lambda>h r. True) [] (handle_text x remote rid p s (\<lambda>_. Done None))"
proof -
  have ans: "always (ack_rule x remote p) (\<lambda>h r. True) h (answer_with x s e r (\<lambda>_. Done None))"
    if "recorded x remote p h \<or> (\<exists>rid code m. e = error_envelope rid code m)" for h e r
    unfolding answer_with_def
  proof (rule always_write_envelope)
    show "always (ack_rule x remote p) (\<lambda>h r. True) ((Wrote s bs v, w, w) # h)
        (case or_timeout (map_option (\<lambda>v. case v of Inl m \<Rightarrow> Inl (TWrite m) | Inr u \<Rightarrow> Inr u) v) of
           Inl err \<Rightarrow> Done None | Inr u \<Rightarrow> Finish s (Done None))" for bs v w
      by (auto simp: always_simps ack_rule_def split: sum.split)
    show "ack_rule x remote p h (Wrote s bs v, w, w)" if "encode_framed (x_ser x) e = Inr bs" for bs v w
      using \<open>recorded x remote p h \<or> _\<close> that by (auto simp: ack_rule_def)
  qed (simp add: or_timeout_def)
  have rec: "recorded x remote p ((Locked env, w, fst (lock_record_incoming x remote label p env w)) # h)"
    for env w label h
    by (auto simp: recorded_def)
  show ?thesis
    unfolding handle_text_def
    by (auto simp: always_reading always_locked ack_rule_def [of _ _ _ _ "(Locked env, w)" for env w]
        split: option.split sum.split intro!: ans rec)
qed

text \<open>
  A send reports success only after the message was written to a stream and a positive
  acknowledgement was read from the same stream; when it reports a failure, its last step
  marked the peer offline and announced that.
\<close>

theorem send_text_delivery:
  "always (\<lambda>h e. True)
     (\<lambda>h r. if r = None then delivered x mid t h else just_marked_offline remote h) []
     (send_text x addr remote my_id mid t
        (\<lambda>r. Done (case r of Inr _ \<Rightarrow> None | Inl e \<Rightarrow> Some (response_err 1 0 [] (send_text_error_text e)))))"
proof -
  let ?Q = "\<lambda>h r. if r = None then delivered x mid t h else just_marked_offline remote h"
  have "always (on_lock (\<lambda>h env w w'. True)) ?Q []
     (send_text x addr remote my_id mid t
        (\<lambda>r. Done (case r of Inr _ \<Rightarrow> None | Inl e \<Rightarrow> Some (response_err 1 0 [] (send_text_error_text e)))))"
    by (rule always_send_text) (auto split: sum.splits)
  then show ?thesis by (rule always_mono) simp_all
qed

end
