(* ===== verification/Lcp_Diagnostics.thy ===== *)
theory Lcp_Diagnostics
  imports Lcp_Envelope
begin

text \<open>
  The daemon-side checks of \<open>lcp doctor\<close> (\<open>lcp-core/src/diagnostics.rs\<close>) and the stored identity
  (\<open>lcp-core/src/identity.rs\<close>).  The platform the program was compiled for and the probe of the
  autostart entry are arguments, as is the credential store.
\<close>

section \<open>Diagnostics\<close>

datatype severity = SevOk | SevWarning | SevError

record diagnostic_result =
  dr_id :: string
  dr_severity :: severity
  dr_summary :: string
  dr_detail :: string
  dr_suggested_action :: "string option"

definition diag_ok :: "string \<Rightarrow> string \<Rightarrow> string \<Rightarrow> diagnostic_result" where
  "diag_ok i summary detail =
     \<lparr>dr_id = i, dr_severity = SevOk, dr_summary = summary, dr_detail = detail, dr_suggested_action = None\<rparr>"

definition diag_warning :: "string \<Rightarrow> string \<Rightarrow> string \<Rightarrow> string \<Rightarrow> diagnostic_result" where
  "diag_warning i summary detail action =
     \<lparr>dr_id = i, dr_severity = SevWarning, dr_summary = summary, dr_detail = detail,
      dr_suggested_action = Some action\<rparr>"

definition diag_error :: "string \<Rightarrow> string \<Rightarrow> string \<Rightarrow> string \<Rightarrow> diagnostic_result" where
  "diag_error i summary detail action =
     \<lparr>dr_id = i, dr_severity = SevError, dr_summary = summary, dr_detail = detail,
      dr_suggested_action = Some action\<rparr>"

datatype platform = Windows | MacOs | OtherPlatform

fun autostart_check :: "platform \<Rightarrow> bool \<Rightarrow> diagnostic_result" where
  "autostart_check Windows installed =
     (if installed
      then diag_ok ''autostart'' ''Autostart is installed''
             ''A per-user Run registry entry points at lanclipd.exe.''
      else diag_warning ''autostart'' ''Autostart is not installed''
             ''lanclipd will not start automatically at login.''
             ''Run `lcp daemon install` if you want it to.'')"
| "autostart_check MacOs installed =
     (if installed
      then diag_ok ''autostart'' ''Autostart is installed''
             ''A LaunchAgent plist is present in ~/Library/LaunchAgents.''
      else diag_warning ''autostart'' ''Autostart is not installed''
             ''lanclipd will not start automatically at login.''
             ''Run `lcp daemon install` if you want it to.'')"
| "autostart_check OtherPlatform installed =
     \<lparr>dr_id = ''autostart'', dr_severity = SevWarning,
      dr_summary = ''Autostart check is not implemented on this platform'', dr_detail = [],
      dr_suggested_action = None\<rparr>"

text \<open>The aliases that occur again after lowering, in list order; \<open>seen\<close> is the hash set.\<close>

fun duplicate_aliases :: "(string \<Rightarrow> string) \<Rightarrow> string set \<Rightarrow> trusted_peer list \<Rightarrow> string list" where
  "duplicate_aliases low seen [] = []"
| "duplicate_aliases low seen (p # ps) =
     (if low (peer_alias p) \<in> seen then peer_alias p # duplicate_aliases low seen ps
      else duplicate_aliases low (insert (low (peer_alias p)) seen) ps)"

definition check_identity :: "externs \<Rightarrow> lock_env \<Rightarrow> world \<Rightarrow> diagnostic_result" where
  "check_identity x env w =
     diag_ok ''identity'' ''Identity secret loaded''
       (''Endpoint ID prefix: '' @ take 12 (identity_endpoint_id x (identity (app w))))"

definition check_online :: "bool \<Rightarrow> diagnostic_result" where
  "check_online online =
     (if online
      then diag_ok ''endpoint_online'' ''Iroh endpoint is online'' ''A relay handshake has completed.''
      else diag_warning ''endpoint_online'' ''Iroh endpoint is not online yet''
             ''No relay handshake completed within 5 seconds.''
             ''Check internet connectivity and any firewall blocking outbound UDP/QUIC.'')"

definition check_relay_mode :: "lock_env \<Rightarrow> world \<Rightarrow> diagnostic_result" where
  "check_relay_mode env w =
     diag_ok ''relay_mode''
       (''Using '' @ relay_mode (network_cfg (st_config (app w))) @ '' relay configuration'')
       (''Public Iroh relays have no production SLA (spec '' @ [char_of (194::nat), char_of (167::nat)] @ ''3.5).'')"

definition check_schema :: "lock_env \<Rightarrow> world \<Rightarrow> diagnostic_result" where
  "check_schema env w =
     (let v = schema_version (st_config (app w))
      in if v = CONFIG_SCHEMA_VERSION
         then diag_ok ''config_schema'' ''Config schema is current'' (''schema_version = '' @ show_nat (unat v))
         else diag_error ''config_schema'' ''Config schema version mismatch''
                (''found '' @ show_nat (unat v) @ '', expected '' @ show_nat (unat CONFIG_SCHEMA_VERSION))
                ''Back up ~/.../lcp/config.json, then remove or migrate it.'')"

definition check_aliases :: "externs \<Rightarrow> lock_env \<Rightarrow> world \<Rightarrow> diagnostic_result" where
  "check_aliases x env w =
     (let dups = duplicate_aliases (x_lowercase x) {} (trusted_of w)
      in if dups = []
         then diag_ok ''peer_aliases'' ''Trusted peer aliases are unique''
                (show_nat (length (trusted_of w)) @ '' paired peer(s)'')
         else diag_error ''peer_aliases'' ''Duplicate trusted peer aliases found''
                (''Duplicated: '' @ join '', '' dups)
                ''Edit the config file directly to rename one of the duplicates.'')"

definition run_checks :: "externs \<Rightarrow> platform \<Rightarrow> (diagnostic_result list \<Rightarrow> task) \<Rightarrow> task" where
  "run_checks x pf k =
     reading (check_identity x) (\<lambda>r1.
       Wait_online 5000 (\<lambda>online.
         reading check_relay_mode (\<lambda>r3.
           reading check_schema (\<lambda>r4.
             reading (check_aliases x) (\<lambda>r5.
               Probe_autostart (\<lambda>installed.
                 k [r1, check_online online, r3, r4, r5, autostart_check pf installed]))))))"

fun severity_json :: "severity \<Rightarrow> json" where
  "severity_json SevOk = JStr ''ok''"
| "severity_json SevWarning = JStr ''warning''"
| "severity_json SevError = JStr ''error''"

definition diagnostic_json :: "diagnostic_result \<Rightarrow> json" where
  "diagnostic_json r =
     JObj [(''id'', JStr (dr_id r)), (''severity'', severity_json (dr_severity r)),
           (''summary'', JStr (dr_summary r)), (''detail'', JStr (dr_detail r)),
           (''suggested_action'', jopt JStr (dr_suggested_action r))]"

section \<open>The stored identity\<close>

datatype identity_error = CredentialStore string | CorruptSecret | MissingSecretWithExistingPeers

fun identity_error_text :: "identity_error \<Rightarrow> string" where
  "identity_error_text (CredentialStore m) = ''credential store error: '' @ m"
| "identity_error_text CorruptSecret = ''stored identity secret is corrupt''"
| "identity_error_text MissingSecretWithExistingPeers =
     ''identity secret is missing but trusted peers exist in config -- identity recovery or re-pairing is required''"

text \<open>
  The credential store: the secrets by account, and the errors with which opening an entry, reading
  and writing it fail.
\<close>

record credential_store =
  cs_secrets :: "string \<Rightarrow> bytes option"
  cs_open_error :: "string option"
  cs_get_error :: "string option"
  cs_set_error :: "string option"

definition keyring_account :: "(string \<Rightarrow> string option) \<Rightarrow> (string \<Rightarrow> string) \<Rightarrow> string" where
  "keyring_account env hash_hex =
     (case env ''LCP_PROFILE_DIR'' of
        Some dir \<Rightarrow> ''identity-secret-key-'' @ hash_hex dir
      | None \<Rightarrow> ''identity-secret-key'')"

definition identity_load_or_create ::
  "string \<Rightarrow> bytes \<Rightarrow> bool \<Rightarrow> credential_store \<Rightarrow> credential_store \<times> (identity_error + local_identity)" where
  "identity_load_or_create account generated has_trusted_peers cs =
     (case cs_open_error cs of
        Some m \<Rightarrow> (cs, Inl (CredentialStore m))
      | None \<Rightarrow>
          (case cs_get_error cs of
             Some m \<Rightarrow> (cs, Inl (CredentialStore m))
           | None \<Rightarrow>
               (case cs_secrets cs account of
                  Some bs \<Rightarrow>
                    if length bs = 32 then (cs, Inr \<lparr>secret_key = bs\<rparr>) else (cs, Inl CorruptSecret)
                | None \<Rightarrow>
                    if has_trusted_peers then (cs, Inl MissingSecretWithExistingPeers)
                    else
                      (case cs_set_error cs of
                         Some m \<Rightarrow> (cs, Inl (CredentialStore m))
                       | None \<Rightarrow>
                           (cs\<lparr>cs_secrets := (cs_secrets cs)(account \<mapsto> generated)\<rparr>,
                            Inr \<lparr>secret_key = generated\<rparr>)))))"

section \<open>Properties\<close>

lemma duplicate_aliases_Nil:
  "duplicate_aliases low seen ps = [] \<longleftrightarrow>
     distinct (map (\<lambda>p. low (peer_alias p)) ps) \<and> (\<lambda>p. low (peer_alias p)) ` set ps \<inter> seen = {}"
  by (induction ps arbitrary: seen) auto

definition quiet :: "entry \<Rightarrow> bool" where
  "quiet e =
     (case e of
        (Locked env, w, w') \<Rightarrow> w' = w
      | (Waited_online b, w, w') \<Rightarrow> w' = w
      | (Probed b, w, w') \<Rightarrow> w' = w
      | _ \<Rightarrow> False)"

text \<open>
  The diagnostics never send anything, dial nobody and change nothing: their only steps read
  the state, wait for the endpoint and probe the autostart entry.
\<close>

theorem run_checks_quiet:
  "always (\<lambda>h e. quiet e) (\<lambda>h r. True) [] (run_checks x pf (\<lambda>rs. Done None))"
  by (simp add: run_checks_def always_reading always_simps quiet_def)

text \<open>
  The verdicts: the alias check is positive exactly when no two aliases are equal after
  lowering, and otherwise an error; the schema check is positive exactly for the current version;
  the online check is never worse than a warning.
\<close>

theorem check_verdicts:
  "(dr_severity (check_aliases x env w) =
      (if distinct (map (\<lambda>p. x_lowercase x (peer_alias p)) (trusted_of w)) then SevOk else SevError)) \<and>
   (dr_severity (check_schema env w) =
      (if schema_version (st_config (app w)) = CONFIG_SCHEMA_VERSION then SevOk else SevError)) \<and>
   (dr_severity (check_online online) = (if online then SevOk else SevWarning))"
  using duplicate_aliases_Nil [of "x_lowercase x" "{}" "trusted_of w"]
  by (simp add: check_aliases_def check_schema_def check_online_def Let_def diag_ok_def diag_error_def
      diag_warning_def)

text \<open>
  C36.  The identity is stable and never minted over existing trust: with trusted peers in the
  config no secret is ever generated or stored; an identity that was returned is the one the
  next start loads; and an error leaves the store unchanged.
\<close>

theorem identity_stable:
  "case identity_load_or_create account generated has_peers cs of
     (cs', Inl e) \<Rightarrow> cs' = cs
   | (cs', Inr i) \<Rightarrow>
       (has_peers \<longrightarrow> cs' = cs \<and> cs_secrets cs account = Some (secret_key i)) \<and>
       (length generated = 32 \<longrightarrow>
          (\<forall>generated' has_peers'.
             identity_load_or_create account generated' has_peers' cs' = (cs', Inr i)))"
  by (auto simp: identity_load_or_create_def split: option.split)

theorem identity_stable_witness:
  "\<exists>cs'. identity_load_or_create ''a'' (replicate 32 7) False
       \<lparr>cs_secrets = Map.empty, cs_open_error = None, cs_get_error = None, cs_set_error = None\<rparr>
     = (cs', Inr \<lparr>secret_key = replicate 32 7\<rparr>) \<and>
   identity_load_or_create ''a'' (replicate 32 9) True cs' = (cs', Inr \<lparr>secret_key = replicate 32 7\<rparr>)"
proof -
  let ?cs = "\<lparr>cs_secrets = Map.empty, cs_open_error = None, cs_get_error = None, cs_set_error = None\<rparr>"
  have l: "length (replicate 32 (7 :: u8)) = 32" by simp
  obtain cs' where c: "identity_load_or_create ''a'' (replicate 32 7) False ?cs
      = (cs', Inr \<lparr>secret_key = replicate 32 7\<rparr>)"
    by (simp add: identity_load_or_create_def)
  from identity_stable [where account = "''a''" and generated = "replicate 32 7" and has_peers = False
      and cs = ?cs] l show ?thesis
    unfolding c by auto
qed

end
