(* ===== verification/Lcp_Daemon.thy ===== *)
theory Lcp_Daemon
  imports Lcp_Transport Lcp_Diagnostics
begin

text \<open>
  The dispatcher of the daemon (\<open>lanclipd/src/main.rs\<close>): one definition per IPC method, in the
  order of the \<open>match\<close>, and \<open>handle\<close>, which checks the protocol version and selects the method.
  A lock section that computes the response returns it.  \<open>events\<close> is the number of the event
  channel of the connection that the request came from.
\<close>

section \<open>Helpers\<close>

definition ok_response :: "ipc_request \<Rightarrow> json \<Rightarrow> ipc_response" where
  "ok_response req v = response_ok IPC_PROTOCOL_VERSION (rq_id req) v"

definition err_response :: "ipc_request \<Rightarrow> string \<Rightarrow> string \<Rightarrow> ipc_response" where
  "err_response req code m = response_err IPC_PROTOCOL_VERSION (rq_id req) code m"

definition reply :: "ipc_response \<Rightarrow> task" where
  "reply r = Done (Some r)"

definition resolve_peer ::
  "externs \<Rightarrow> trusted_peer list \<Rightarrow> string \<Rightarrow> (string \<times> string) + trusted_peer" where
  "resolve_peer x peers identifier =
     (case resolve_identifier peers identifier of
        Found p \<Rightarrow> Inr p
      | NotFound \<Rightarrow> Inl (PEER_NOT_FOUND, ''no trusted peer matches '' @ x_dbg x identifier)
      | Ambiguous ms \<Rightarrow>
          Inl (PEER_AMBIGUOUS,
               x_dbg x identifier @ '' matches more than one peer: '' @ join '', '' (map peer_alias ms)))"

fun direction_json :: "direction \<Rightarrow> json" where
  "direction_json Incoming = JStr ''incoming''"
| "direction_json Outgoing = JStr ''outgoing''"

fun message_status_json :: "message_status \<Rightarrow> json" where
  "message_status_json Sending = JStr ''sending''"
| "message_status_json Sent = JStr ''sent''"
| "message_status_json Received = JStr ''received''"
| "message_status_json Failed = JStr ''failed''"

definition message_json :: "externs \<Rightarrow> stored_message \<Rightarrow> json" where
  "message_json x m =
     JObj [(''message_id'', JStr (x_uuid_text x (sm_id m))), (''peer_id'', JStr (sm_peer_id m)),
           (''direction'', direction_json (sm_direction m)),
           (''sender_label'', JStr (sm_sender_label m)), (''text'', JStr (sm_text m)),
           (''sent_at_unix_ms'', JInt (sm_sent_at_unix_ms m)),
           (''received_at_unix_ms'', JInt (sm_received_at_unix_ms m)),
           (''receive_sequence'', jopt (\<lambda>n. JInt (uint n)) (sm_receive_sequence m)),
           (''status'', message_status_json (sm_status m))]"

definition short_id :: "string \<Rightarrow> string" where
  "short_id i = take_chars 12 i"

section \<open>Status and configuration\<close>

definition handle_hello :: "externs \<Rightarrow> ipc_request \<Rightarrow> task" where
  "handle_hello x req =
     reply (ok_response req
       (JObj [(''daemon_version'', JStr (x_pkg_version x)),
              (''ipc_protocol_version'', JInt (uint IPC_PROTOCOL_VERSION)),
              (''network_protocol_version'', JInt (uint NETWORK_PROTOCOL_VERSION))]))"

definition online_peer_count :: "lock_env \<Rightarrow> world \<Rightarrow> nat" where
  "online_peer_count env w =
     length (filter (\<lambda>p. fst (status_of (is_closed env w) (peer_connections (app w)) (endpoint_id p)) = Online)
       (trusted_of w))"

definition status_response :: "externs \<Rightarrow> ipc_request \<Rightarrow> lock_env \<Rightarrow> world \<Rightarrow> ipc_response" where
  "status_response x req env w =
     ok_response req
       (JObj [(''version'', JStr (x_pkg_version x)),
              (''ipc_protocol_version'', JInt (uint IPC_PROTOCOL_VERSION)),
              (''network_protocol_version'', JInt (uint NETWORK_PROTOCOL_VERSION)),
              (''uptime_secs'', JInt (int (uptime (app w) (le_instant env) div 1000))),
              (''endpoint_id_prefix'', JStr (short_id (identity_endpoint_id x (identity (app w))))),
              (''relay_mode'', JStr (relay_mode (network_cfg (st_config (app w))))),
              (''trusted_peer_count'', JInt (int (length (trusted_of w)))),
              (''online_peer_count'', JInt (int (online_peer_count env w))),
              (''history_memory_only'', JBool True),
              (''autostart'', JBool (autostart (daemon_cfg (st_config (app w)))))])"

definition handle_get_status :: "externs \<Rightarrow> ipc_request \<Rightarrow> task" where
  "handle_get_status x req = reading (status_response x req) reply"

definition get_config_response :: "externs \<Rightarrow> ipc_request \<Rightarrow> lock_env \<Rightarrow> world \<Rightarrow> ipc_response" where
  "get_config_response x req env w =
     (case get_str (rq_params req) ''key'' of
        Some key \<Rightarrow>
          (case get_by_key (st_config (app w)) key of
             Some v \<Rightarrow> ok_response req v
           | None \<Rightarrow> err_response req INVALID_PARAMS (''unknown config key '' @ x_dbg x key))
      | None \<Rightarrow> ok_response req (config_json (st_config (app w))))"

definition handle_get_config :: "externs \<Rightarrow> ipc_request \<Rightarrow> task" where
  "handle_get_config x req = reading (get_config_response x req) reply"

definition config_error_string :: "externs \<Rightarrow> config_error \<Rightarrow> string" where
  "config_error_string x e = config_error_text (x_dbg x) (x_io_text x) e"

definition history_limit_of :: "world \<Rightarrow> nat" where
  "history_limit_of w = unat (limit_per_peer (history_cfg (st_config (app w))))"

definition lock_set_config ::
  "externs \<Rightarrow> ipc_request \<Rightarrow> string \<Rightarrow> string \<Rightarrow> lock_env \<Rightarrow> world \<Rightarrow> world \<times> ipc_response" where
  "lock_set_config x req key v env w =
     (case set_by_key (st_config (app w)) key v of
        (c, Inl e) \<Rightarrow> (map_config (\<lambda>_. c) w, err_response req INVALID_PARAMS (config_error_string x e))
      | (c, Inr _) \<Rightarrow>
          (case save_config env (map_config (\<lambda>_. c) w) of
             (w1, Inl e) \<Rightarrow> (w1, err_response req INTERNAL (config_error_string x e))
           | (w1, Inr _) \<Rightarrow>
               (if key = ''history.limit_per_peer''
                then map_conversations (\<lambda>cs. set_history_limit cs (history_limit_of w1)) w1
                else w1,
                ok_response req (JObj [(''key'', JStr key), (''value'', JStr v)]))))"

definition handle_set_config :: "externs \<Rightarrow> ipc_request \<Rightarrow> task" where
  "handle_set_config x req =
     (case (get_str (rq_params req) ''key'', get_str (rq_params req) ''value'') of
        (Some k, Some v) \<Rightarrow> locked (lock_set_config x req k v) reply
      | _ \<Rightarrow> reply (err_response req INVALID_PARAMS (''expected string 'key' and 'value'' @ [CHR 0x27])))"

definition lock_reset_config ::
  "externs \<Rightarrow> ipc_request \<Rightarrow> lock_env \<Rightarrow> world \<Rightarrow> world \<times> ipc_response" where
  "lock_reset_config x req env w =
     (let w1 = map_config (\<lambda>c. (config_default (os_var (le_os env)))\<lparr>trusted_peers := trusted_peers c\<rparr>) w;
          w2 = map_conversations (\<lambda>cs. set_history_limit cs (history_limit_of w1)) w1
      in case save_config env w2 of
           (w3, Inl e) \<Rightarrow> (w3, err_response req INTERNAL (config_error_string x e))
         | (w3, Inr _) \<Rightarrow> (w3, ok_response req (config_json (st_config (app w3)))))"

definition handle_reset_config :: "externs \<Rightarrow> ipc_request \<Rightarrow> task" where
  "handle_reset_config x req = locked (lock_reset_config x req) reply"

section \<open>Peers\<close>

definition peer_json :: "lock_env \<Rightarrow> world \<Rightarrow> trusted_peer \<Rightarrow> json" where
  "peer_json env w p =
     (case status_of (is_closed env w) (peer_connections (app w)) (endpoint_id p) of
        (status, path) \<Rightarrow>
          JObj [(''endpoint_id'', JStr (endpoint_id p)), (''alias'', JStr (peer_alias p)),
                (''device_name'', JStr (device_name p)), (''status'', peer_status_json status),
                (''path'', path_type_json path)])"

definition list_peers_response :: "ipc_request \<Rightarrow> lock_env \<Rightarrow> world \<Rightarrow> ipc_response" where
  "list_peers_response req env w = ok_response req (JArr (map (peer_json env w) (trusted_of w)))"

definition handle_list_peers :: "ipc_request \<Rightarrow> task" where
  "handle_list_peers req = reading (list_peers_response req) reply"

definition lock_rename_peer ::
  "externs \<Rightarrow> ipc_request \<Rightarrow> string \<Rightarrow> string \<Rightarrow> lock_env \<Rightarrow> world \<Rightarrow> world \<times> ipc_response" where
  "lock_rename_peer x req ident new_alias env w =
     (case resolve_peer x (trusted_of w) ident of
        Inl (code, m) \<Rightarrow> (w, err_response req code m)
      | Inr p \<Rightarrow>
          (case rename_trusted_peer_alias (trusted_of w) (endpoint_id p) new_alias of
             (peers, Inl e) \<Rightarrow>
               (map_config (\<lambda>c. c\<lparr>trusted_peers := peers\<rparr>) w,
                err_response req INVALID_PARAMS (alias_error_text (x_dbg x) e))
           | (peers, Inr a) \<Rightarrow>
               (case save_config env (map_config (\<lambda>c. c\<lparr>trusted_peers := peers\<rparr>) w) of
                  (w1, Inl e) \<Rightarrow> (w1, err_response req INTERNAL (config_error_string x e))
                | (w1, Inr _) \<Rightarrow>
                    (w1, ok_response req
                           (JObj [(''endpoint_id'', JStr (endpoint_id p)), (''alias'', JStr a)])))))"

definition handle_rename_peer :: "externs \<Rightarrow> ipc_request \<Rightarrow> task" where
  "handle_rename_peer x req =
     (case (get_str (rq_params req) ''peer'', get_str (rq_params req) ''alias'') of
        (Some p, Some a) \<Rightarrow> locked (lock_rename_peer x req p a) reply
      | _ \<Rightarrow> reply (err_response req INVALID_PARAMS (''expected string 'peer' and 'alias'' @ [CHR 0x27])))"

definition lock_unpair ::
  "externs \<Rightarrow> ipc_request \<Rightarrow> string \<Rightarrow> lock_env \<Rightarrow> world \<Rightarrow> world \<times> ipc_response" where
  "lock_unpair x req ident env w =
     (case resolve_peer x (trusted_of w) ident of
        Inl (code, m) \<Rightarrow> (w, err_response req code m)
      | Inr p \<Rightarrow>
          (case close_and_forget (peer_connections (app w)) (endpoint_id p) of
             (reg, closed) \<Rightarrow>
               (let w1 = (map_connections (\<lambda>_. reg) w)\<lparr>closings := closings w @
                           (case closed of None \<Rightarrow> [] | Some c \<Rightarrow> [(c, ''unpaired'')])\<rparr>;
                    w2 = map_config (\<lambda>c. c\<lparr>trusted_peers :=
                           fst (remove_trusted_peer (trusted_peers c) (endpoint_id p))\<rparr>) w1
                in case save_config env w2 of
                     (w3, Inl e) \<Rightarrow> (w3, err_response req INTERNAL (config_error_string x e))
                   | (w3, Inr _) \<Rightarrow> (w3, ok_response req (JObj [])))))"

definition handle_unpair_peer :: "externs \<Rightarrow> ipc_request \<Rightarrow> task" where
  "handle_unpair_peer x req =
     (case get_str (rq_params req) ''peer'' of
        None \<Rightarrow> reply (err_response req INVALID_PARAMS (''expected string 'peer'' @ [CHR 0x27]))
      | Some ident \<Rightarrow> locked (lock_unpair x req ident) reply)"

section \<open>Pairing\<close>

definition invite_ttl :: "json \<Rightarrow> u64" where
  "invite_ttl params = clamp_invite_ttl_secs (unwrap_or (get_u64 params ''ttl_secs'') DEFAULT_INVITE_TTL_SECS)"

definition my_display_names :: "lock_env \<Rightarrow> world \<Rightarrow> string \<times> string" where
  "my_display_names env w =
     (user_name (user_cfg (st_config (app w))), user_device_name (user_cfg (st_config (app w))))"

definition lock_push_invite :: "bytes \<Rightarrow> u64 \<Rightarrow> string \<Rightarrow> lock_env \<Rightarrow> world \<Rightarrow> world \<times> unit" where
  "lock_push_invite secret ttl text env w =
     (map_invites (\<lambda>is. is @
        [\<lparr>ai_secret = secret, ai_created_at = le_instant env,
          ai_expires_at = le_instant env + le_elapsed env + unat ttl * 1000,
          ai_ticket_text = text, ai_attempts = 0\<rparr>]) w, ())"

definition handle_create_invite :: "externs \<Rightarrow> ipc_request \<Rightarrow> task" where
  "handle_create_invite x req =
     (let ttl = invite_ttl (rq_params req)
      in Wait_online 10000 (\<lambda>_.
           Endpoint_ticket (\<lambda>endpoint_ticket.
             Unix_ms (\<lambda>now.
               Random_secret (\<lambda>secret.
                 reading my_display_names (\<lambda>(display, device).
                   case ticket_encode (x_ticket_ser x) (x_b64e x)
                          (ticket_new endpoint_ticket secret (now + int (unat ttl) * 1000) display device) of
                     Inl e \<Rightarrow> reply (err_response req INTERNAL (protocol_error_text e))
                   | Inr text \<Rightarrow>
                       locked (lock_push_invite secret ttl text) (\<lambda>_.
                         reply (ok_response req
                           (JObj [(''ticket'', JStr text), (''ttl_secs'', JInt (uint ttl))])))))))))"

definition lock_cancel_invite :: "ipc_request \<Rightarrow> lock_env \<Rightarrow> world \<Rightarrow> world \<times> ipc_response" where
  "lock_cancel_invite req env w = (map_invites (\<lambda>_. []) w, ok_response req (JObj []))"

definition handle_cancel_invite :: "ipc_request \<Rightarrow> task" where
  "handle_cancel_invite req = locked (lock_cancel_invite req) reply"

definition handle_join_invite :: "externs \<Rightarrow> ipc_request \<Rightarrow> task" where
  "handle_join_invite x req =
     (case get_str (rq_params req) ''ticket'' of
        None \<Rightarrow> reply (err_response req INVALID_PARAMS (''expected string 'ticket'' @ [CHR 0x27]))
      | Some ticket \<Rightarrow>
          join_pairing x ticket (\<lambda>r.
            case r of
              Inr (pid, vs) \<Rightarrow>
                reply (ok_response req
                  (JObj [(''pairing_id'', JStr (x_uuid_text x pid)), (''verification_string'', JStr vs)]))
            | Inl e \<Rightarrow> reply (err_response req PAIRING_FAILED (transport_error_text x e))))"

text \<open>\<open>get_mut(&pairing_id).and_then(|p| p.local_decision_tx.take())\<close>\<close>

definition lock_take_decision :: "uuid \<Rightarrow> lock_env \<Rightarrow> world \<Rightarrow> world \<times> nat option" where
  "lock_take_decision pid env w =
     (case pending_pairings (app w) pid of
        None \<Rightarrow> (w, None)
      | Some p \<Rightarrow> (map_pending (\<lambda>f. f(pid \<mapsto> p\<lparr>pp_decision_tx := None\<rparr>)) w, pp_decision_tx p))"

definition resolve_pairing_decision :: "externs \<Rightarrow> ipc_request \<Rightarrow> bool \<Rightarrow> task" where
  "resolve_pairing_decision x req confirmed =
     (case Option.bind (get_str (rq_params req) ''pairing_id'') (x_uuid_parse x) of
        None \<Rightarrow>
          reply (err_response req INVALID_PARAMS (''expected a valid uuid string 'pairing_id'' @ [CHR 0x27]))
      | Some pid \<Rightarrow>
          locked (lock_take_decision pid) (\<lambda>sender.
            case sender of
              Some tx \<Rightarrow> Send_decision tx confirmed (reply (ok_response req (JObj [])))
            | None \<Rightarrow>
                reply (err_response req PAIRING_FAILED
                  ''no such pending pairing (already decided, rejected, or expired)'')))"

section \<open>Messages\<close>

definition message_updated_json :: "externs \<Rightarrow> stored_message \<Rightarrow> json" where
  "message_updated_json x m = JObj [(''message'', message_json x m)]"

definition send_target ::
  "externs \<Rightarrow> string \<Rightarrow> lock_env \<Rightarrow> world \<Rightarrow> (string \<times> string) + (string \<times> string)" where
  "send_target x ident env w =
     (case resolve_peer x (trusted_of w) ident of
        Inl err \<Rightarrow> Inl err
      | Inr p \<Rightarrow> Inr (endpoint_id p, identity_endpoint_id x (identity (app w))))"

definition lock_record_sending ::
  "externs \<Rightarrow> string \<Rightarrow> uuid \<Rightarrow> string \<Rightarrow> lock_env \<Rightarrow> world \<Rightarrow> world \<times> unit" where
  "lock_record_sending x eid mid t env w =
     (case record_outgoing (st_conversations (app w)) eid mid t Sending (le_unix_ms env) of
        (cs, m) \<Rightarrow>
          (broadcast_event env MESSAGE_UPDATED (message_updated_json x m) (map_conversations (\<lambda>_. cs) w), ()))"

definition lock_finish_send ::
  "externs \<Rightarrow> ipc_request \<Rightarrow> string \<Rightarrow> uuid \<Rightarrow> send_text_error + unit \<Rightarrow> lock_env \<Rightarrow> world
     \<Rightarrow> world \<times> ipc_response" where
  "lock_finish_send x req eid mid result env w =
     (let st = (case result of Inr _ \<Rightarrow> Sent | Inl _ \<Rightarrow> Failed);
          w1 = map_conversations (\<lambda>cs. update_outgoing_status cs eid mid st) w;
          w2 = (case message_for (st_conversations (app w1)) eid mid of
                  None \<Rightarrow> w1
                | Some m \<Rightarrow> broadcast_event env MESSAGE_UPDATED (message_updated_json x m) w1)
      in (w2, case result of
                Inr _ \<Rightarrow> ok_response req (JObj [(''message_id'', JStr (x_uuid_text x mid))])
              | Inl e \<Rightarrow> err_response req PEER_OFFLINE (send_text_error_text e)))"

definition handle_send_text :: "externs \<Rightarrow> ipc_request \<Rightarrow> task" where
  "handle_send_text x req =
     (case get_str (rq_params req) ''peer'' of
        None \<Rightarrow> reply (err_response req INVALID_PARAMS (''expected string 'peer'' @ [CHR 0x27]))
      | Some ident \<Rightarrow>
          (case get_str (rq_params req) ''text'' of
             None \<Rightarrow> reply (err_response req INVALID_PARAMS (''expected string 'text'' @ [CHR 0x27]))
           | Some t \<Rightarrow>
               if t = [] then reply (err_response req INVALID_PARAMS ''text must not be empty'')
               else case validate_text_len t of
                 Inl e \<Rightarrow> reply (err_response req LIMIT_EXCEEDED (protocol_error_text e))
               | Inr _ \<Rightarrow>
                   reading (send_target x ident) (\<lambda>target.
                     case target of
                       Inl (code, m) \<Rightarrow> reply (err_response req code m)
                     | Inr (eid, my_id) \<Rightarrow>
                         (case x_key_addr x eid of
                            None \<Rightarrow> reply (err_response req INTERNAL ''stored endpoint id is corrupt'')
                          | Some addr \<Rightarrow>
                              New_uuid (\<lambda>mid.
                                locked (lock_record_sending x eid mid t) (\<lambda>_.
                                  send_text x addr eid my_id mid t (\<lambda>result.
                                    locked (lock_finish_send x req eid mid result) reply)))))))"

definition latest_response :: "externs \<Rightarrow> ipc_request \<Rightarrow> lock_env \<Rightarrow> world \<Rightarrow> ipc_response" where
  "latest_response x req env w =
     (let answer = (\<lambda>found. case found of
            Some m \<Rightarrow> ok_response req (message_json x m)
          | None \<Rightarrow> err_response req NO_MESSAGE ''No messages received since daemon start'')
      in case get_str (rq_params req) ''peer'' of
           Some ident \<Rightarrow>
             (case resolve_peer x (trusted_of w) ident of
                Inr p \<Rightarrow> answer (latest_incoming_for (st_conversations (app w)) (endpoint_id p))
              | Inl (code, m) \<Rightarrow> err_response req code m)
         | None \<Rightarrow> answer (latest_incoming_global (st_conversations (app w))))"

definition handle_get_latest_incoming :: "externs \<Rightarrow> ipc_request \<Rightarrow> task" where
  "handle_get_latest_incoming x req = reading (latest_response x req) reply"

definition newest_first :: "stored_message list \<Rightarrow> stored_message list" where
  "newest_first ms = sort_key (\<lambda>m. - sm_received_at_unix_ms m) ms"

definition list_messages_response :: "externs \<Rightarrow> ipc_request \<Rightarrow> lock_env \<Rightarrow> world \<Rightarrow> ipc_response" where
  "list_messages_response x req env w =
     (let incoming_only = unwrap_or (get_bool (rq_params req) ''incoming_only'') False;
          answer = (\<lambda>ms. ok_response req
            (JArr (map (message_json x)
               (filter (\<lambda>m. \<not> incoming_only \<or> sm_direction m = Incoming) ms))))
      in case get_str (rq_params req) ''peer'' of
           Some ident \<Rightarrow>
             (case resolve_peer x (trusted_of w) ident of
                Inr p \<Rightarrow> answer (newest_first (messages_for (st_conversations (app w)) (endpoint_id p)))
              | Inl (code, m) \<Rightarrow> err_response req code m)
         | None \<Rightarrow> answer (all_messages_newest_first (st_conversations (app w)) (le_keys env)))"

definition handle_list_messages :: "externs \<Rightarrow> ipc_request \<Rightarrow> task" where
  "handle_list_messages x req = reading (list_messages_response x req) reply"

section \<open>Subscriptions, diagnostics, shutdown\<close>

definition lock_subscribe :: "ipc_request \<Rightarrow> nat \<Rightarrow> lock_env \<Rightarrow> world \<Rightarrow> world \<times> ipc_response" where
  "lock_subscribe req events env w =
     (map_app (\<lambda>s. add_subscriber s events) w, ok_response req (JObj []))"

definition handle_subscribe :: "ipc_request \<Rightarrow> nat \<Rightarrow> task" where
  "handle_subscribe req events = locked (lock_subscribe req events) reply"

definition handle_run_diagnostics :: "externs \<Rightarrow> platform \<Rightarrow> ipc_request \<Rightarrow> task" where
  "handle_run_diagnostics x pf req =
     run_checks x pf (\<lambda>rs. reply (ok_response req (JArr (map diagnostic_json rs))))"

definition handle_shutdown :: "ipc_request \<Rightarrow> task" where
  "handle_shutdown req =
     Notify_shutdown (reply (ok_response req (JObj [(''shutting_down'', JBool True)])))"

section \<open>Dispatch\<close>

definition handle_method :: "externs \<Rightarrow> platform \<Rightarrow> ipc_request \<Rightarrow> nat \<Rightarrow> task" where
  "handle_method x pf req events =
     (let m = rq_method req
      in if m = HELLO then handle_hello x req
         else if m = GET_STATUS then handle_get_status x req
         else if m = GET_CONFIG then handle_get_config x req
         else if m = SET_CONFIG then handle_set_config x req
         else if m = RESET_CONFIG then handle_reset_config x req
         else if m = LIST_PEERS then handle_list_peers req
         else if m = RENAME_PEER then handle_rename_peer x req
         else if m = CREATE_INVITE then handle_create_invite x req
         else if m = CANCEL_INVITE then handle_cancel_invite req
         else if m = JOIN_INVITE then handle_join_invite x req
         else if m = CONFIRM_PAIRING then resolve_pairing_decision x req True
         else if m = REJECT_PAIRING then resolve_pairing_decision x req False
         else if m = UNPAIR_PEER then handle_unpair_peer x req
         else if m = SEND_TEXT then handle_send_text x req
         else if m = GET_LATEST_INCOMING then handle_get_latest_incoming x req
         else if m = LIST_MESSAGES then handle_list_messages x req
         else if m = SUBSCRIBE then handle_subscribe req events
         else if m = RUN_DIAGNOSTICS then handle_run_diagnostics x pf req
         else if m = SHUTDOWN then handle_shutdown req
         else reply (err_response req UNKNOWN_METHOD (''unknown method '' @ x_dbg x m)))"

definition handle :: "externs \<Rightarrow> platform \<Rightarrow> ipc_request \<Rightarrow> nat \<Rightarrow> task" where
  "handle x pf req events =
     (if rq_ipc_version req \<noteq> IPC_PROTOCOL_VERSION
      then reply (err_response req VERSION_MISMATCH
             (''daemon speaks ipc version '' @ show_nat (unat IPC_PROTOCOL_VERSION)
                @ '', client sent '' @ show_nat (unat (rq_ipc_version req))))
      else handle_method x pf req events)"

section \<open>What the lock sections change\<close>

definition saves_ok :: "lock_env \<Rightarrow> world \<Rightarrow> config \<Rightarrow> bool" where
  "saves_ok env w c \<longleftrightarrow> snd (config_save (le_os env) c (disk w)) = Inr ()"

lemma lock_set_config_sel:
  "st_config (app (fst (lock_set_config x req key v env w))) = fst (set_by_key (st_config (app w)) key v)"
  "st_conversations (app (fst (lock_set_config x req key v env w))) =
     (let (c, r) = set_by_key (st_config (app w)) key v
      in if r = Inr () \<and> saves_ok env w c \<and> key = ''history.limit_per_peer''
         then set_history_limit (st_conversations (app w)) (unat (limit_per_peer (history_cfg c)))
         else st_conversations (app w))"
  "active_invites (app (fst (lock_set_config x req key v env w))) = active_invites (app w)"
  "pending_pairings (app (fst (lock_set_config x req key v env w))) = pending_pairings (app w)"
  "peer_connections (app (fst (lock_set_config x req key v env w))) = peer_connections (app w)"
  by (cases "set_by_key (st_config (app w)) key v";
      auto simp: lock_set_config_def save_config_eq saves_ok_def history_limit_of_def split: sum.split)+

lemma lock_reset_config_sel:
  "st_config (app (fst (lock_reset_config x req env w))) =
     (config_default (os_var (le_os env)))\<lparr>trusted_peers := trusted_of w\<rparr>"
  "st_conversations (app (fst (lock_reset_config x req env w))) =
     set_history_limit (st_conversations (app w)) (unat DEFAULT_HISTORY_LIMIT)"
  "active_invites (app (fst (lock_reset_config x req env w))) = active_invites (app w)"
  "pending_pairings (app (fst (lock_reset_config x req env w))) = pending_pairings (app w)"
  "peer_connections (app (fst (lock_reset_config x req env w))) = peer_connections (app w)"
  by (auto simp: lock_reset_config_def save_config_eq Let_def history_limit_of_def config_default_def
      split: sum.split)

definition renamed_peers :: "externs \<Rightarrow> trusted_peer list \<Rightarrow> string \<Rightarrow> string \<Rightarrow> trusted_peer list" where
  "renamed_peers x peers ident a =
     (case resolve_peer x peers ident of
        Inl e \<Rightarrow> peers
      | Inr p \<Rightarrow> fst (rename_trusted_peer_alias peers (endpoint_id p) a))"

lemma lock_rename_peer_sel:
  "st_config (app (fst (lock_rename_peer x req ident a env w))) =
     (st_config (app w))\<lparr>trusted_peers := renamed_peers x (trusted_of w) ident a\<rparr>"
  "st_conversations (app (fst (lock_rename_peer x req ident a env w))) = st_conversations (app w)"
  "active_invites (app (fst (lock_rename_peer x req ident a env w))) = active_invites (app w)"
  "pending_pairings (app (fst (lock_rename_peer x req ident a env w))) = pending_pairings (app w)"
  "peer_connections (app (fst (lock_rename_peer x req ident a env w))) = peer_connections (app w)"
  by (auto simp: lock_rename_peer_def renamed_peers_def save_config_eq split: prod.split sum.split)

definition unpaired_peers :: "externs \<Rightarrow> trusted_peer list \<Rightarrow> string \<Rightarrow> trusted_peer list" where
  "unpaired_peers x peers ident =
     (case resolve_peer x peers ident of
        Inl e \<Rightarrow> peers
      | Inr p \<Rightarrow> fst (remove_trusted_peer peers (endpoint_id p)))"

lemma lock_unpair_sel:
  "st_config (app (fst (lock_unpair x req ident env w))) =
     (st_config (app w))\<lparr>trusted_peers := unpaired_peers x (trusted_of w) ident\<rparr>"
  "st_conversations (app (fst (lock_unpair x req ident env w))) = st_conversations (app w)"
  "active_invites (app (fst (lock_unpair x req ident env w))) = active_invites (app w)"
  "pending_pairings (app (fst (lock_unpair x req ident env w))) = pending_pairings (app w)"
  by (auto simp: lock_unpair_def unpaired_peers_def save_config_eq Let_def split: prod.split sum.split)

lemma lock_message_sel:
  "st_config (app (fst (lock_record_sending x eid mid t env w))) = st_config (app w)"
  "st_conversations (app (fst (lock_record_sending x eid mid t env w))) =
     fst (record_outgoing (st_conversations (app w)) eid mid t Sending (le_unix_ms env))"
  "active_invites (app (fst (lock_record_sending x eid mid t env w))) = active_invites (app w)"
  "st_config (app (fst (lock_finish_send x req eid mid r env w))) = st_config (app w)"
  "st_conversations (app (fst (lock_finish_send x req eid mid r env w))) =
     update_outgoing_status (st_conversations (app w)) eid mid (case r of Inr u \<Rightarrow> Sent | Inl e \<Rightarrow> Failed)"
  "active_invites (app (fst (lock_finish_send x req eid mid r env w))) = active_invites (app w)"
  by (simp_all add: lock_record_sending_def lock_finish_send_def Let_def split: prod.split option.split)

lemma lock_pairing_sel:
  "st_config (app (fst (lock_push_invite secret ttl text env w))) = st_config (app w)"
  "st_conversations (app (fst (lock_push_invite secret ttl text env w))) = st_conversations (app w)"
  "active_invites (app (fst (lock_push_invite secret ttl text env w))) = active_invites (app w) @
     [\<lparr>ai_secret = secret, ai_created_at = le_instant env,
       ai_expires_at = le_instant env + le_elapsed env + unat ttl * 1000,
          ai_ticket_text = text, ai_attempts = 0\<rparr>]"
  "st_config (app (fst (lock_cancel_invite req env w))) = st_config (app w)"
  "st_conversations (app (fst (lock_cancel_invite req env w))) = st_conversations (app w)"
  "active_invites (app (fst (lock_cancel_invite req env w))) = []"
  "st_config (app (fst (lock_take_decision pid env w))) = st_config (app w)"
  "st_conversations (app (fst (lock_take_decision pid env w))) = st_conversations (app w)"
  "active_invites (app (fst (lock_take_decision pid env w))) = active_invites (app w)"
  "st_config (app (fst (lock_subscribe req events env w))) = st_config (app w)"
  "st_conversations (app (fst (lock_subscribe req events env w))) = st_conversations (app w)"
  "active_invites (app (fst (lock_subscribe req events env w))) = active_invites (app w)"
  by (simp_all add: lock_push_invite_def lock_cancel_invite_def lock_take_decision_def lock_subscribe_def
      add_subscriber_def split: option.split)

lemma lock_handshake_sel:
  "st_config (app (fst (lock_check_invite now sec env w))) = st_config (app w)"
  "st_conversations (app (fst (lock_check_invite now sec env w))) = st_conversations (app w)"
  "active_invites (app (fst (lock_check_invite now sec env w))) = fst (check_invite now sec (active_invites (app w)))"
  "st_config (app (fst (lock_pending_inviter x pid joiner preq vs ch env w))) = st_config (app w)"
  "st_conversations (app (fst (lock_pending_inviter x pid joiner preq vs ch env w))) = st_conversations (app w)"
  "active_invites (app (fst (lock_pending_inviter x pid joiner preq vs ch env w))) = active_invites (app w)"
  "st_config (app (fst (lock_pending_joiner pid inviter dec vs ch env w))) = st_config (app w)"
  "st_conversations (app (fst (lock_pending_joiner pid inviter dec vs ch env w))) = st_conversations (app w)"
  "active_invites (app (fst (lock_pending_joiner pid inviter dec vs ch env w))) = active_invites (app w)"
  by (simp_all add: lock_check_invite_def lock_pending_inviter_def lock_pending_joiner_def split: prod.split)

lemma finish_pairing_sel:
  "st_config (app (fst (finish_pairing x pid peer dn dv sec r env w))) =
     (st_config (app w))\<lparr>trusted_peers := trusted_of (fst (finish_pairing x pid peer dn dv sec r env w))\<rparr>"
  "st_conversations (app (fst (finish_pairing x pid peer dn dv sec r env w))) = st_conversations (app w)"
  by (auto simp: finish_pairing_def Let_def split: sum.split bool.split option.split prod.split)

lemma plumbing_sel [simp]:
  "app (opened_channel w) = app w" "app (sent_decision ch b w) = app w"
  "disk (opened_channel w) = disk w" "disk (sent_decision ch b w) = disk w"
  by (simp_all add: opened_channel_def sent_decision_def)

lemmas section_sel = lock_set_config_sel lock_reset_config_sel lock_rename_peer_sel lock_unpair_sel
  lock_message_sel lock_pairing_sel lock_handshake_sel finish_pairing_sel

section \<open>Rules for every step of the daemon\<close>

locale dispatch_rule = send_rule +
  assumes R_set_config: "R w (fst (lock_set_config x req key v env w))"
    and R_reset_config: "R w (fst (lock_reset_config x req env w))"
    and R_rename_peer: "R w (fst (lock_rename_peer x req ident a env w))"
    and R_unpair: "R w (fst (lock_unpair x req ident env w))"
    and R_push_invite: "length secret = 32 \<Longrightarrow> MIN_INVITE_TTL_SECS \<le> ttl \<Longrightarrow> ttl \<le> MAX_INVITE_TTL_SECS \<Longrightarrow>
      R w (fst (lock_push_invite secret ttl text env w))"
    and R_cancel_invite: "R w (fst (lock_cancel_invite req env w))"
    and R_take_decision: "R w (fst (lock_take_decision pid env w))"
    and R_record_sending: "length t \<le> MAX_TEXT_BYTES \<Longrightarrow>
      R w (fst (lock_record_sending x eid mid t env w))"
    and R_finish_send: "R w (fst (lock_finish_send x req eid mid result env w))"
    and R_subscribe: "R w (fst (lock_subscribe req events env w))"
begin

lemma ok_reply [simp]: "ok (reply r)"
  by (simp add: reply_def)

lemma ok_create_invite: "ok (handle_create_invite x req)"
proof -
  have sec: "ok (Random_secret k)" if "\<And>bs. length bs = 32 \<Longrightarrow> ok (k bs)" for k
    using that by (simp add: ok_def always_Random_secret step_ok_def R_refl)
  then show ?thesis
    by (auto simp: handle_create_invite_def Let_def invite_ttl_def R_push_invite clamp_invite_ttl_secs_bounds
        split: prod.split sum.split intro!: sec ok_pure(1-3,5-19) ok_reading ok_locked)
qed

lemma ok_run_checks: "(\<And>rs. ok (k rs)) \<Longrightarrow> ok (run_checks x pf k)"
  by (auto simp: run_checks_def intro!: ok_reading ok_pure)

text \<open>
  Every method; joining an invite also runs the handshake, so it is a premise here, and only the
  two methods that answer a pairing send a decision.
\<close>

lemma ok_dispatch:
  assumes join: "rq_method req = JOIN_INVITE \<Longrightarrow> ok (handle_join_invite x req)"
    and yes: "\<And>ch. rq_method req = CONFIRM_PAIRING \<Longrightarrow> D ch True"
    and no: "\<And>ch. rq_method req = REJECT_PAIRING \<Longrightarrow> D ch False"
  shows "ok (handle x pf req events)"
proof -
  have "ok (handle_set_config x req)"
    by (auto simp: handle_set_config_def R_set_config split: option.split intro!: ok_locked)
  moreover have "ok (handle_rename_peer x req)"
    by (auto simp: handle_rename_peer_def R_rename_peer split: option.split intro!: ok_locked)
  moreover have "ok (handle_unpair_peer x req)"
    by (auto simp: handle_unpair_peer_def R_unpair split: option.split intro!: ok_locked)
  moreover have "ok (resolve_pairing_decision x req b)" if "\<And>ch. D ch b" for b
    using that by (auto simp: resolve_pairing_decision_def R_take_decision split: option.split
        intro!: ok_locked ok_pure)
  moreover have "ok (handle_send_text x req)"
    by (auto simp: handle_send_text_def R_record_sending R_finish_send
        split: option.split sum.split prod.split intro!: ok_reading ok_pure ok_locked ok_send_text)
  moreover have "ok (handle_run_diagnostics x pf req)"
    by (simp add: handle_run_diagnostics_def ok_run_checks)
  ultimately show ?thesis
    unfolding handle_def handle_method_def Let_def
    by (simp add: join yes no ok_create_invite handle_hello_def handle_get_status_def handle_get_config_def
        handle_reset_config_def handle_list_peers_def handle_cancel_invite_def
        handle_get_latest_incoming_def handle_list_messages_def handle_subscribe_def handle_shutdown_def
        R_reset_config R_cancel_invite R_subscribe ok_reading ok_locked del: char.inject list.inject)
qed

end

locale daemon_rule = transport_rule + dispatch_rule
begin

lemma ok_handle:
  assumes "\<And>ch. rq_method req = CONFIRM_PAIRING \<Longrightarrow> D ch True"
    and "\<And>ch. rq_method req = REJECT_PAIRING \<Longrightarrow> D ch False"
  shows "ok (handle x pf req events)"
proof (rule ok_dispatch)
  show "ok (handle_join_invite x req)"
    by (auto simp: handle_join_invite_def split: option.split sum.split prod.split intro!: ok_join_pairing)
qed (use assms in blast)+

end

section \<open>Trust\<close>

text \<open>Apart from joining an invite, no request can make an endpoint trusted.\<close>

definition no_new_trust :: "world \<Rightarrow> world \<Rightarrow> bool" where
  "no_new_trust w w' \<longleftrightarrow> newly_trusted w w' = {}"

lemma no_new_trustI: "set (map endpoint_id (trusted_of w')) \<subseteq> set (map endpoint_id (trusted_of w)) \<Longrightarrow> no_new_trust w w'"
  by (auto simp: no_new_trust_def newly_trusted_def)

lemma set_by_key_trusted: "trusted_peers (fst (set_by_key c key v)) = trusted_peers c"
  by (auto simp: set_by_key_def split: option.split)

lemma rename_endpoints:
  "map endpoint_id (fst (rename_trusted_peer_alias peers eid a)) = map endpoint_id peers"
  by (simp add: rename_trusted_peer_alias_def map_update_first split: sum.split)

lemma unpaired_endpoints: "set (map endpoint_id (unpaired_peers x peers ident)) \<subseteq> set (map endpoint_id peers)"
  by (auto simp: unpaired_peers_def remove_trusted_peer_def Let_def split: sum.split)

lemma renamed_endpoints: "map endpoint_id (renamed_peers x peers ident a) = map endpoint_id peers"
  by (simp add: renamed_peers_def rename_endpoints split: sum.split)

interpretation static_trust: dispatch_rule no_new_trust x "\<lambda>ch b. True"
  by unfold_locales
    (rule no_new_trustI, simp add: section_sel set_by_key_trusted renamed_endpoints
       unpaired_endpoints del: set_map)+

end
