(* ===== verification/Lcp_Guarantees.thy ===== *)
theory Lcp_Guarantees
  imports Lcp_Daemon
begin

text \<open>
  What the daemon guarantees for each IPC request (\<open>lanclipd/src/main.rs\<close>): that it is answered,
  what an answer means, when trust can change, and the exact effect of the methods that change the
  configuration, the peers and the invites.
\<close>

section \<open>Answers\<close>

text \<open>A result, or an error with one of the codes of the protocol.\<close>

definition answers :: "ipc_request \<Rightarrow> ipc_response \<Rightarrow> bool" where
  "answers req resp \<longleftrightarrow>
     (\<exists>v. resp = ok_response req v) \<or> (\<exists>code \<in> set ipc_error_codes. \<exists>m. resp = err_response req code m)"

lemma answersI [simp]:
  "answers req (ok_response req v)" "answers req (err_response req code m) \<longleftrightarrow> code \<in> set ipc_error_codes"
  by (auto simp: answers_def ok_response_def err_response_def response_ok_def response_err_def)

lemma error_codes [simp]:
  "UNKNOWN_METHOD \<in> set ipc_error_codes" "INVALID_PARAMS \<in> set ipc_error_codes"
  "PEER_OFFLINE \<in> set ipc_error_codes" "NO_MESSAGE \<in> set ipc_error_codes"
  "PAIRING_FAILED \<in> set ipc_error_codes" "LIMIT_EXCEEDED \<in> set ipc_error_codes"
  "VERSION_MISMATCH \<in> set ipc_error_codes" "INTERNAL \<in> set ipc_error_codes"
  by (simp_all add: ipc_error_codes_def)

lemma resolve_peer_code [simp]: "resolve_peer x peers identifier = Inl (code, m) \<Longrightarrow> code \<in> set ipc_error_codes"
  by (auto simp: resolve_peer_def ipc_error_codes_def split: resolved.splits)

lemma send_target_code [simp]: "send_target x identifier env w = Inl (code, m) \<Longrightarrow> code \<in> set ipc_error_codes"
  by (auto simp: send_target_def Let_def split: sum.splits)

lemma answers_sel:
  "answers req resp \<Longrightarrow>
     rs_id resp = rq_id req \<and> rs_ipc_version resp = IPC_PROTOCOL_VERSION \<and>
     (rs_ok resp \<longleftrightarrow> rs_result resp \<noteq> None) \<and> (rs_ok resp \<longleftrightarrow> rs_error resp = None)"
  by (auto simp: answers_def ok_response_def err_response_def)

definition answered :: "ipc_request \<Rightarrow> log \<Rightarrow> ipc_response option \<Rightarrow> bool" where
  "answered req h r = (case r of None \<Rightarrow> waited h | Some resp \<Rightarrow> answers req resp)"

lemma answered_simps [simp]:
  "answered req h (Some resp) \<longleftrightarrow> answers req resp" "answered req h None \<longleftrightarrow> waited h"
  by (simp_all add: answered_def)

lemma section_answers [simp]:
  "answers req (snd (lock_set_config x req k v env w))" "answers req (snd (lock_reset_config x req env w))"
  "answers req (snd (lock_rename_peer x req p a env w))" "answers req (snd (lock_unpair x req p env w))"
  "answers req (snd (lock_cancel_invite req env w))" "answers req (snd (lock_finish_send x req eid mid r env w))"
  "answers req (snd (lock_subscribe req ch env w))" "answers req (status_response x req env w)"
  "answers req (get_config_response x req env w)" "answers req (list_peers_response req env w)"
  "answers req (latest_response x req env w)" "answers req (list_messages_response x req env w)"
  by (auto simp: lock_set_config_def lock_reset_config_def lock_rename_peer_def lock_unpair_def
      lock_cancel_invite_def lock_finish_send_def lock_subscribe_def status_response_def
      get_config_response_def list_peers_response_def latest_response_def list_messages_response_def Let_def
      split: prod.split sum.split option.split)

abbreviation any_lock :: "log \<Rightarrow> entry \<Rightarrow> bool" where
  "any_lock \<equiv> on_lock (\<lambda>h env w w'. True)"

lemma always_reply [simp]: "always P Q h (reply r) \<longleftrightarrow> Q h (Some r)"
  by (simp add: reply_def)

lemma answered_join: "always any_lock (answered req) h (handle_join_invite x req)"
proof -
  have "always (on_lock (trust_rule x (\<lambda>h e. dialled_to e h))) (answered req) h
      (join_pairing x ticket (\<lambda>r. case r of
         Inr (pid, vs) \<Rightarrow> reply (ok_response req
           (JObj [(''pairing_id'', JStr (x_uuid_text x pid)), (''verification_string'', JStr vs)]))
       | Inl e \<Rightarrow> reply (err_response req PAIRING_FAILED (transport_error_text x e))))" for ticket
    by (rule always_join_pairing) (auto split: sum.split)
  then have "always any_lock (answered req) h
      (join_pairing x ticket (\<lambda>r. case r of
         Inr (pid, vs) \<Rightarrow> reply (ok_response req
           (JObj [(''pairing_id'', JStr (x_uuid_text x pid)), (''verification_string'', JStr vs)]))
       | Inl e \<Rightarrow> reply (err_response req PAIRING_FAILED (transport_error_text x e))))" for ticket
    by (rule always_mono) (auto simp: on_lock_def split: event.split)
  then show ?thesis by (simp add: handle_join_invite_def split: option.split)
qed

lemma answered_send: "always any_lock (answered req) h (handle_send_text x req)"
  by (auto simp: handle_send_text_def always_reading always_locked always_simps
      split: option.split sum.split prod.split intro!: always_send_text)

lemma answered_pure:
  "always any_lock (answered req) h (handle_set_config x req)"
  "always any_lock (answered req) h (handle_rename_peer x req)"
  "always any_lock (answered req) h (handle_unpair_peer x req)"
  "always any_lock (answered req) h (resolve_pairing_decision x req b)"
  "always any_lock (answered req) h (handle_create_invite x req)"
  "always any_lock (answered req) h (handle_run_diagnostics x pf req)"
  by (auto simp: handle_set_config_def handle_rename_peer_def handle_unpair_peer_def
      resolve_pairing_decision_def handle_create_invite_def handle_run_diagnostics_def run_checks_def Let_def
      always_reading always_locked always_simps split: option.split sum.split prod.split)

lemma answered_method: "always any_lock (answered req) h (handle_method x pf req events)"
  unfolding handle_method_def Let_def
  by (simp add: answered_join answered_send answered_pure handle_hello_def handle_get_status_def
      handle_get_config_def handle_reset_config_def handle_list_peers_def handle_cancel_invite_def
      handle_get_latest_incoming_def handle_list_messages_def handle_subscribe_def handle_shutdown_def
      always_reading always_locked always_simps del: char.inject list.inject)

lemma unserved_method:
  assumes "rq_method req \<notin> set ipc_methods - {RETRY_MESSAGE}"
  shows "\<exists>m. handle_method x pf req events = Done (Some (err_response req UNKNOWN_METHOD m))"
proof -
  have unserved: "rq_method req \<notin> set (filter (\<lambda>m. m \<noteq> RETRY_MESSAGE) ipc_methods)"
    using assms by simp
  have "handle_method x pf req events =
      Done (Some (err_response req UNKNOWN_METHOD (''unknown method '' @ x_dbg x (rq_method req))))"
    using unserved by (simp add: handle_method_def ipc_methods_def reply_def Let_def del: list.inject)
  then show ?thesis by blast
qed

section \<open>Trust\<close>

lemma handle_join: "rq_method req = JOIN_INVITE \<Longrightarrow> handle_method x pf req events = handle_join_invite x req"
  by (simp add: handle_method_def Let_def)

lemma join_trust:
  "always (on_lock (trust_rule x (\<lambda>h e. dialled_to e h))) (\<lambda>h r. True) h (handle_join_invite x req)"
  by (auto simp: handle_join_invite_def split: option.split sum.split intro!: always_join_pairing)

lemma request_trust_cases:
  "always (on_lock (trust_rule x (\<lambda>h e. rq_method req = JOIN_INVITE \<and> dialled_to e h))) (\<lambda>h r. True) h
     (handle x pf req events)"
proof (cases "rq_method req = JOIN_INVITE")
  case True
  then show ?thesis
    using join_trust [of x h req] by (auto simp: handle_def handle_join)
next
  case False
  then have "static_trust.ok (handle x pf req events)"
    by (intro static_trust.ok_dispatch) simp_all
  from static_trust.ok_always(1) [OF this, of h] show ?thesis
    by (rule always_mono)
      (auto simp: on_lock_def no_new_trust_def trust_rule_def split: event.split)
qed

section \<open>Decisions\<close>

interpretation decide: daemon_rule "\<lambda>w w'. True" x D for x D
  by unfold_locales simp_all

section \<open>Saving\<close>

text \<open>
  The config file reads as the config in memory, with every byte synced; a crash leaves it so, or
  leaves what a crash would have left before the change.
\<close>

definition persisted :: "lock_env \<Rightarrow> world \<Rightarrow> world \<Rightarrow> bool" where
  "persisted env w w' \<longleftrightarrow>
     (\<exists>p txt. config_file_path (os_var (le_os env)) (os_config_dir (le_os env)) = Inr p \<and>
        os_config_text (le_os env) (st_config (app w')) = Inr txt \<and>
        map_option content (disk w' p) = Some txt \<and> map_option durable (disk w' p) = Some txt \<and>
        (\<forall>found. crash_leaves (disk w' p) found \<longleftrightarrow> found = Some txt \<or> crash_leaves (disk w p) found))"

text \<open>The config file is as it was.\<close>

definition file_kept :: "lock_env \<Rightarrow> world \<Rightarrow> world \<Rightarrow> bool" where
  "file_kept env w w' \<longleftrightarrow>
     (case config_file_path (os_var (le_os env)) (os_config_dir (le_os env)) of
        Inl _ \<Rightarrow> disk w' = disk w
      | Inr p \<Rightarrow> disk w' p = disk w p)"

text \<open>A positive response means that the change is saved, a negative one that the file is untouched.\<close>

definition answers_saved :: "lock_env \<Rightarrow> world \<Rightarrow> world \<times> ipc_response \<Rightarrow> bool" where
  "answers_saved env w res \<longleftrightarrow>
     (if rs_ok (snd res) then persisted env w (fst res) else file_kept env w (fst res))"

lemma config_save_path: "snd (config_save os c d) = Inr u \<Longrightarrow> \<exists>p. config_file_path (os_var os) (os_config_dir os) = Inr p"
  by (auto simp: config_save_def config_file_path_def split: sum.splits)

lemma saved_persisted:
  assumes "config_save (le_os env) (st_config (app w')) (disk w) = (disk w', Inr u)"
  shows "persisted env w w'"
proof -
  obtain p where p: "config_file_path (os_var (le_os env)) (os_config_dir (le_os env)) = Inr p"
    using config_save_path [of "le_os env" "st_config (app w')" "disk w"] assms by auto
  from config_save_cases [OF p, where c = "st_config (app w')" and d = "disk w"] assms p show ?thesis
    by (auto simp: persisted_def)
qed

lemma unsaved_kept:
  assumes "config_save (le_os env) c (disk w) = (disk w', Inl e)"
  shows "file_kept env w w'"
proof (cases "config_file_path (os_var (le_os env)) (os_config_dir (le_os env))")
  case (Inl err)
  then show ?thesis
    using assms by (auto simp: file_kept_def config_save_def config_file_path_def split: sum.splits)
next
  case (Inr p)
  with config_save_cases [OF Inr, where c = c and d = "disk w"] assms show ?thesis
    by (simp add: file_kept_def)
qed

lemma file_kept_same: "disk w' = disk w \<Longrightarrow> file_kept env w w'"
  by (simp add: file_kept_def split: sum.split)

lemma answers_same:
  "disk w' = disk w \<Longrightarrow> answers_saved env w (w', err_response req code m)"
  by (simp add: answers_saved_def file_kept_same err_response_def)

lemma answers_saved_config:
  assumes "snd (config_save (le_os env) (st_config (app w')) (disk w)) = r"
    and "disk w' = fst (config_save (le_os env) (st_config (app w')) (disk w))"
    and "rs_ok resp \<longleftrightarrow> r = Inr ()"
  shows "answers_saved env w (w', resp)"
  using assms saved_persisted [of env w' w] unsaved_kept [of env "st_config (app w')" w w']
  by (cases "config_save (le_os env) (st_config (app w')) (disk w)"; cases r)
    (auto simp: answers_saved_def)

lemma err_not_ok [simp]: "\<not> rs_ok (err_response req c m)" "rs_ok (ok_response req v)"
  by (simp_all add: err_response_def ok_response_def)

section \<open>Sample inputs\<close>

definition sample_env :: lock_env where
  "sample_env = \<lparr>le_os = sample_os, le_unix_ms = 1, le_instant = 5, le_elapsed = 0, le_rfc3339 = ''now'', le_uuid = 9,
     le_alive = (\<lambda>_. True), le_closed = (\<lambda>_. False), le_keys = []\<rparr>"

definition sample_request :: "string \<Rightarrow> json \<Rightarrow> ipc_request" where
  "sample_request m params = \<lparr>rq_ipc_version = IPC_PROTOCOL_VERSION, rq_id = 3, rq_method = m, rq_params = params\<rparr>"

lemma sample_save: "config_save sample_os c d = (fst (config_save sample_os c d), Inr ())"
  by (simp add: config_save_def sample_os_def app_dir_def save_ops_def Let_def)

definition full_disk_env :: lock_env where
  "full_disk_env = sample_env\<lparr>le_os := sample_os\<lparr>os_fault := (\<lambda>oper. Some (OtherIo ''disk full'', 0))\<rparr>\<rparr>"

definition sample_pending :: pending_pairing where
  "sample_pending = \<lparr>pp_role = Inviter, pp_peer_endpoint_id = ''bbbb'', pp_peer_display_name = ''Bob'',
     pp_peer_device_name = ''PC'', pp_verification_string = ''mango-river-pencil-0001'',
     pp_decision_tx = Some 4\<rparr>"

section \<open>Properties\<close>

text \<open>
  C19.  Every request is answered, once, under its own id and in the daemon's protocol version,
  with either a result or an error and never both, and an error has one of the protocol's codes;
  only the background task of a joined pairing, which waits for the local decision, ends without
  a response.  A request of another protocol version is refused before any step is taken, and so
  is one whose method is not among those of the protocol, or is the declared but unserved
  \<open>retry_message\<close>.
\<close>

theorem request_answered:
  "if rq_ipc_version req = IPC_PROTOCOL_VERSION
   then always (\<lambda>h e. True)
          (\<lambda>h r. case r of
             None \<Rightarrow> waited h
           | Some resp \<Rightarrow>
               rs_id resp = rq_id req \<and> rs_ipc_version resp = IPC_PROTOCOL_VERSION \<and>
               (rs_ok resp \<longleftrightarrow> rs_result resp \<noteq> None) \<and> (rs_ok resp \<longleftrightarrow> rs_error resp = None) \<and>
               pred_option (\<lambda>e. err_code e \<in> set ipc_error_codes) (rs_error resp))
          [] (handle x pf req events) \<and>
        (rq_method req \<in> set ipc_methods - {RETRY_MESSAGE} \<or>
         (\<exists>m. handle x pf req events = Done (Some (err_response req UNKNOWN_METHOD m))))
   else \<exists>m. handle x pf req events = Done (Some (err_response req VERSION_MISMATCH m))"
proof (cases "rq_ipc_version req = IPC_PROTOCOL_VERSION")
  case True
  have "always any_lock (answered req) [] (handle x pf req events)"
    using True answered_method by (simp add: handle_def)
  then have "always (\<lambda>h e. True)
          (\<lambda>h r. case r of
             None \<Rightarrow> waited h
           | Some resp \<Rightarrow>
               rs_id resp = rq_id req \<and> rs_ipc_version resp = IPC_PROTOCOL_VERSION \<and>
               (rs_ok resp \<longleftrightarrow> rs_result resp \<noteq> None) \<and> (rs_ok resp \<longleftrightarrow> rs_error resp = None) \<and>
               pred_option (\<lambda>e. err_code e \<in> set ipc_error_codes) (rs_error resp))
          [] (handle x pf req events)"
    by (rule always_mono) (auto simp: answered_def answers_def ok_response_def err_response_def split: option.splits)
  moreover have "rq_method req \<in> set ipc_methods - {RETRY_MESSAGE} \<or>
      (\<exists>m. handle x pf req events = Done (Some (err_response req UNKNOWN_METHOD m)))"
    using True unserved_method by (auto simp: handle_def)
  ultimately show ?thesis by (subst if_P [OF True]) (rule conjI)
next
  case False
  then show ?thesis by (simp add: handle_def reply_def) blast
qed

text \<open>
  Among all IPC requests only \<open>join_invite\<close> can make an endpoint trusted, and only the one
  it dialled, after the local decision was yes, our confirmation was written and the inviter's
  positive confirmation was read.  No other method ever adds a trusted endpoint.
\<close>

theorem request_trust:
  "always (on_lock (trust_rule x (\<lambda>h e. rq_method req = JOIN_INVITE \<and> dialled_to e h))) (\<lambda>h r. True) []
     (handle x pf req events)"
  by (rule request_trust_cases)

text \<open>
  Decisions come from the local user alone: a yes is sent only by a \<open>confirm_pairing\<close>
  request and a no only by a \<open>reject_pairing\<close> request.
\<close>

theorem decisions_from_requests:
  "always (\<lambda>h (e, w, w').
       case e of
         Sent_decision ch b \<Rightarrow> rq_method req = (if b then CONFIRM_PAIRING else REJECT_PAIRING)
       | _ \<Rightarrow> True) (\<lambda>h r. True) []
     (handle x pf req events)"
proof -
  have "decide.ok (\<lambda>ch b. rq_method req = (if b then CONFIRM_PAIRING else REJECT_PAIRING)) (handle x pf req events)"
    by (rule decide.ok_handle) simp_all
  from decide.ok_always(2) [OF this, of "[]"] show ?thesis
    by (rule always_mono) (auto split: event.split)
qed

text \<open>
  The decision of a pending pairing is consumed once: the first \<open>confirm_pairing\<close> or
  \<open>reject_pairing\<close> takes the sender, any later one finds none, whatever its environment, and
  other pairings keep theirs.
\<close>

theorem decision_taken_once:
  "let (w1, tx) = lock_take_decision pid env w;
       (w2, tx') = lock_take_decision pid env' w1
   in tx = Option.bind (pending_pairings (app w) pid) pp_decision_tx \<and> tx' = None \<and>
      (\<forall>q. q \<noteq> pid \<longrightarrow> pending_pairings (app w1) q = pending_pairings (app w) q) \<and>
      st_config (app w1) = st_config (app w)"
  by (auto simp: lock_take_decision_def Let_def split: option.split)

theorem decision_taken_once_witness:
  "snd (lock_take_decision 1 sample_env (map_pending (\<lambda>_. [1 \<mapsto> sample_pending]) sample_world)) = Some 4 \<and>
   snd (lock_take_decision 1 sample_env
     (fst (lock_take_decision 1 sample_env (map_pending (\<lambda>_. [1 \<mapsto> sample_pending]) sample_world)))) = None"
  using decision_taken_once [where pid = 1 and env = sample_env and env' = sample_env and
      w = "map_pending (\<lambda>_. [1 \<mapsto> sample_pending]) sample_world"]
  by (simp add: Let_def split_beta sample_pending_def)

text \<open>
  C14.  Changes of the configuration or of the peers are saved before they are acknowledged.  A
  positive response means that the config file reads as the new configuration, complete and with
  every byte synced; as the directory is not synced, a crash leaves it so or leaves what a crash
  would have left before the change, never a part of it.  A negative response means that the
  config file is as it was.
\<close>

theorem acknowledged_changes_saved:
  "answers_saved env w (lock_set_config x req key v env w) \<and>
   answers_saved env w (lock_reset_config x req env w) \<and>
   answers_saved env w (lock_rename_peer x req ident a env w) \<and>
   answers_saved env w (lock_unpair x req ident env w)"
proof (intro conjI)
  show "answers_saved env w (lock_set_config x req key v env w)"
    by (auto simp: lock_set_config_def save_config_eq answers_same split: prod.splits sum.splits
        intro!: answers_saved_config)
  show "answers_saved env w (lock_reset_config x req env w)"
    by (auto simp: lock_reset_config_def save_config_eq Let_def answers_same split: prod.splits sum.splits
        intro!: answers_saved_config)
  show "answers_saved env w (lock_rename_peer x req ident a env w)"
    by (auto simp: lock_rename_peer_def save_config_eq answers_same split: prod.splits sum.splits
        intro!: answers_saved_config)
  show "answers_saved env w (lock_unpair x req ident env w)"
    by (auto simp: lock_unpair_def save_config_eq Let_def answers_same split: prod.splits sum.splits
        intro!: answers_saved_config)
qed

theorem acknowledged_changes_saved_witness:
  "\<forall>x. persisted sample_env sample_world
     (fst (lock_set_config x (sample_request SET_CONFIG (JObj [])) ''user.name'' ''Ann'' sample_env sample_world))"
proof
  fix x
  let ?res = "lock_set_config x (sample_request SET_CONFIG (JObj [])) ''user.name'' ''Ann'' sample_env sample_world"
  have "rs_ok (snd ?res)"
    by (simp add: lock_set_config_def set_writable save_config_eq sample_env_def)
      (subst sample_save, simp)
  moreover have "answers_saved sample_env sample_world ?res"
    using acknowledged_changes_saved by blast
  ultimately show "persisted sample_env sample_world (fst ?res)"
    by (simp add: answers_saved_def)
qed

text \<open>
  \<open>set_config\<close> applies exactly what \<open>set_by_key\<close> does: an invalid key or value changes
  nothing, neither in memory nor on disk; a valid one is in memory afterwards, and when the
  response is positive a new history limit is in force for the store.  Nothing else of
  the state is touched.
\<close>

theorem set_config_spec:
  "let (w', resp) = lock_set_config x req key v env w;
       (c', r) = set_by_key (st_config (app w)) key v
   in st_config (app w') = c' \<and>
      (case r of
         Inl e \<Rightarrow>
           app w' = app w \<and> disk w' = disk w \<and> resp = err_response req INVALID_PARAMS (config_error_string x e)
       | Inr _ \<Rightarrow>
           (if rs_ok resp \<and> key = ''history.limit_per_peer''
            then history_limit_per_peer (st_conversations (app w')) = unat (limit_per_peer (history_cfg c'))
            else st_conversations (app w') = st_conversations (app w)) \<and>
           (\<forall>p. messages_for (st_conversations (app w')) p = messages_for (st_conversations (app w)) p) \<and>
           active_invites (app w') = active_invites (app w) \<and>
           peer_connections (app w') = peer_connections (app w))"
proof -
  obtain c r where s: "set_by_key (st_config (app w)) key v = (c, r)" by fastforce
  show ?thesis
  proof (cases r)
    case (Inl e)
    then have "c = st_config (app w)"
      using s by (auto simp: set_by_key_def split: if_splits option.splits)
    with Inl s show ?thesis by (simp add: lock_set_config_def Let_def map_config_def map_app_def)
  next
    case (Inr u)
    with s show ?thesis
      by (cases "snd (config_save (le_os env) c (disk w))")
        (simp_all add: lock_set_config_def save_config_eq history_limit_of_def set_history_limit_def
          messages_for_def)
  qed
qed

text \<open>
  When saving fails, \<open>set_config\<close> reports an error but keeps the new value in memory: the
  config in memory then differs from the one on disk, and a new history limit is
  configured without being in force.
\<close>

theorem set_config_failed_save_counterexample:
  "case lock_set_config x (sample_request SET_CONFIG (JObj [])) ''history.limit_per_peer'' ''20''
       full_disk_env sample_world of
     (w', resp) \<Rightarrow>
       \<not> rs_ok resp \<and> disk w' = disk sample_world \<and>
       limit_per_peer (history_cfg (st_config (app sample_world))) = 100 \<and>
       limit_per_peer (history_cfg (st_config (app w'))) = 20 \<and>
       history_limit_per_peer (st_conversations (app w')) = 100"
proof -
  have p: "parse_u32 ''20'' = Some 20" by (simp add: parse_u32_def digit_value_def)
  have save: "config_save (le_os full_disk_env) c d = (d, Inl (ConfigIo (OtherIo ''disk full'')))" for c d
    by (simp add: full_disk_env_def sample_env_def config_save_def sample_os_def app_dir_def)
  have set: "set_by_key c ''history.limit_per_peer'' ''20'' =
      (c\<lparr>history_cfg := (history_cfg c)\<lparr>limit_per_peer := 20\<rparr>\<rparr>, Inr ())" for c
    by (simp add: set_writable p)
  have w: "limit_per_peer (history_cfg (st_config (app sample_world))) = 100"
    "history_limit_per_peer (st_conversations (app sample_world)) = 100"
    by (simp_all add: sample_world_def app_state_new_def sample_config_def config_default_def
        DEFAULT_HISTORY_LIMIT_def store_new_def)
  show ?thesis
    by (simp add: lock_set_config_def set save_config_eq save w)
qed

text \<open>
  C25.  Unpairing revokes at once: when the identifier resolves, the endpoint is no longer
  trusted, its texts are refused, no cached connection to it is offered, the one that was cached is
  closed with the reason \<open>unpaired\<close>, and neither other peers nor any history is touched.
  When it does not resolve, nothing changes.
\<close>

theorem unpair_revokes:
  "case resolve_peer x (trusted_of w) ident of
     Inl (code, m) \<Rightarrow> lock_unpair x req ident env w = (w, err_response req code m)
   | Inr p \<Rightarrow>
       (let w' = fst (lock_unpair x req ident env w); e = endpoint_id p
        in is_trusted (trusted_of w) e \<and> \<not> is_trusted (trusted_of w') e \<and>
           (\<forall>env'. trusted_alias e env' w' = None \<and> cached_for e env' w' = None) \<and>
           (case peer_connections (app w) e of
              None \<Rightarrow> closings w' = closings w
            | Some s \<Rightarrow>
                closings w' = closings w @
                  (case prs_connection s of None \<Rightarrow> [] | Some c \<Rightarrow> [(c, ''unpaired'')])) \<and>
           st_conversations (app w') = st_conversations (app w) \<and>
           filter (\<lambda>q. endpoint_id q \<noteq> e) (trusted_of w') = filter (\<lambda>q. endpoint_id q \<noteq> e) (trusted_of w) \<and>
           (peer_connections (app w'))(e := None) = (peer_connections (app w))(e := None))"
proof (cases "resolve_peer x (trusted_of w) ident")
  case (Inl err)
  then show ?thesis by (cases err) (simp add: lock_unpair_def)
next
  case (Inr p)
  let ?e = "endpoint_id p"
  obtain reg cl where c: "close_and_forget (peer_connections (app w)) ?e = (reg, cl)" by fastforce
  then have reg: "reg = (peer_connections (app w))(?e := None)"
    and cl: "cl = Option.bind (peer_connections (app w) ?e) prs_connection"
    by (auto simp: close_and_forget_def split: option.splits)
  have "resolve_identifier (trusted_of w) ident = Found p"
    using Inr by (simp add: resolve_peer_def split: resolved.splits)
  then have t: "is_trusted (trusted_of w) ?e"
    using resolve_identifier_Found by (auto simp: is_trusted_def list_ex_iff)
  let ?w' = "fst (lock_unpair x req ident env w)"
  have peers: "trusted_of ?w' = filter (\<lambda>q. endpoint_id q \<noteq> ?e) (trusted_of w)"
    by (simp add: lock_unpair_sel unpaired_peers_def Inr remove_trusted_peer_def Let_def)
  have conns: "peer_connections (app ?w') = (peer_connections (app w))(?e := None)"
    by (simp add: lock_unpair_def Inr c reg save_config_eq Let_def split: sum.split)
  have closed: "closings ?w' = closings w @ (case cl of None \<Rightarrow> [] | Some c \<Rightarrow> [(c, ''unpaired'')])"
    by (simp add: lock_unpair_def Inr c save_config_eq Let_def split: sum.split)
  have "trusted_alias ?e env' ?w' = None" for env'
    by (simp add: trusted_alias_def peers find_None_iff_all)
  moreover have "cached_for ?e env' ?w' = None" for env'
    by (simp add: cached_for_def cached_connection_def conns)
  moreover have "\<not> is_trusted (trusted_of ?w') ?e"
    by (simp add: is_trusted_def list_ex_iff peers)
  ultimately show ?thesis
    using t by (simp add: Inr Let_def closed cl conns peers lock_unpair_sel(2) split: option.split)
qed

end
