(* ===== verification/Lcp_System.thy ===== *)
theory Lcp_System
  imports Lcp_Guarantees
begin

text \<open>
  The running daemon: any interleaving of the tasks that the outside can start, which are the
  connections that peers open (\<open>accept\<close>) and the requests that local clients send (\<open>handle\<close>).
  The theorems of the single tasks are lifted to every reachable pool: who is trusted and
  why, that no trust comes without a confirmed pairing, and the bounds that the state keeps.
\<close>

section \<open>The tasks of the daemon\<close>

definition daemon_tasks :: "externs \<Rightarrow> platform \<Rightarrow> (ipc_request \<Rightarrow> bool) \<Rightarrow> task set" where
  "daemon_tasks x pf allowed =
     {t. (\<exists>remote c. t = accept x remote c) \<or> (\<exists>req ev. allowed req \<and> t = handle x pf req ev)}"

lemma daemon_tasksE:
  assumes "t \<in> daemon_tasks x pf allowed"
    and "\<And>remote c. P (accept x remote c)" and "\<And>req ev. allowed req \<Longrightarrow> P (handle x pf req ev)"
  shows "P t"
  using assms by (auto simp: daemon_tasks_def)

text \<open>A relation on worlds that satisfies the rule holds of every step of every task.\<close>

context daemon_rule
begin

lemma daemon_tasks_keep:
  assumes "t \<in> daemon_tasks x pf allowed"
    and "\<And>req ch. allowed req \<Longrightarrow> rq_method req = CONFIRM_PAIRING \<Longrightarrow> D ch True"
    and "\<And>req ch. allowed req \<Longrightarrow> rq_method req = REJECT_PAIRING \<Longrightarrow> D ch False"
  shows "always (\<lambda>h (e, w, w'). R w w') (\<lambda>_ _. True) [] t"
proof (rule daemon_tasksE [OF assms(1)])
  show "always (\<lambda>h (e, w, w'). R w w') (\<lambda>_ _. True) [] (accept x remote c)" for remote c
    by (rule ok_always(1) [OF ok_accept])
  show "always (\<lambda>h (e, w, w'). R w w') (\<lambda>_ _. True) [] (handle x pf req ev)" if "allowed req" for req ev
    by (rule ok_always(1) [OF ok_handle]) (use assms(2,3) that in blast)+
qed

end

section \<open>Logs of a reachable pool\<close>

text \<open>Every entry satisfies the condition over the entries before it.\<close>

primrec log_sat :: "(log \<Rightarrow> entry \<Rightarrow> bool) \<Rightarrow> log \<Rightarrow> bool" where
  "log_sat P [] \<longleftrightarrow> True"
| "log_sat P (e # h) \<longleftrightarrow> P h e \<and> log_sat P h"

lemma log_sat_split: "log_sat P (h1 @ e # h2) \<Longrightarrow> P h2 e"
  by (induction h1) simp_all

lemma pool_stepD:
  assumes "pool_step starts p p'"
  obtains (started) t where "t \<in> starts" "fst p' = fst p" "snd p' = snd p @ [([], t)]"
  | (stepped) h t e t' us i where "(h, t) \<in> set (snd p)" "estep t e (fst p) = Some (fst p', t', us)"
      "i < length (snd p)" "snd p ! i = (h, t)"
      "snd p' = (snd p)[i := ((e, fst p, fst p') # h, t')] @ map (\<lambda>u. ((e, fst p, fst p') # h, u)) us"
  using assms
proof (cases rule: pool_step.cases)
  case (start t w ts)
  then show ?thesis by (intro that(1)) simp_all
next
  case (step i ts h t e w w' t' us)
  then show ?thesis by (intro that(2) [of h t e t' us i]) (auto simp: in_set_conv_nth)
qed

text \<open>The logs that a step extends: every log of the new pool is an old one, or the extended one.\<close>

lemma set_stepped:
  "z \<in> set (ts[i := (h', t')] @ map (\<lambda>u. (h', u)) us) \<Longrightarrow> z \<in> set ts \<or> fst z = h'"
  using set_update_subset_insert [of ts i "(h', t')"] by auto

lemma mem_stepped: "i < length ts \<Longrightarrow> (h', t') \<in> set (ts[i := (h', t')] @ rest)"
  by (simp add: set_update_memI)

lemma reachable_logs:
  assumes "reachable starts w0 p" and "\<And>t. t \<in> starts \<Longrightarrow> always P Q [] t" and "(h, t) \<in> set (snd p)"
  shows "log_sat P h"
  using assms(1,3)
proof (induction arbitrary: h t)
  case reach_init
  then show ?case by simp
next
  case (reach_step p p')
  have safe: "pool_safe P Q p"
    using reach_step.hyps(1) assms(2) by (rule reachable_safe)
  from reach_step.hyps(2) show ?case
  proof (cases rule: pool_stepD)
    case (started t')
    then show ?thesis using reach_step.prems reach_step.IH by auto
  next
    case (stepped h1 t1 e t' us i)
    have "always P Q h1 t1" using safe stepped(1) by (auto simp: pool_safe_def)
    from alwaysD(2) [OF this stepped(2)] have "P h1 (e, fst p, fst p')" by blast
    moreover have "log_sat P h1" using reach_step.IH stepped(1) by blast
    ultimately have "log_sat P ((e, fst p, fst p') # h1)" by simp
    with set_stepped [OF reach_step.prems [unfolded stepped(5)]] reach_step.IH show ?thesis
      by (cases "(h, t) \<in> set (snd p)") auto
  qed
qed

text \<open>Every change of the world is the step of a task, and its log keeps it.\<close>

definition logged :: "pool \<Rightarrow> (log \<Rightarrow> entry \<Rightarrow> bool) \<Rightarrow> bool" where
  "logged p P \<longleftrightarrow> (\<exists>(h, t) \<in> set (snd p). \<exists>h1 e h2. h = h1 @ e # h2 \<and> P h2 e)"

lemma logged_step:
  assumes "pool_step starts p p'" and "logged p P"
  shows "logged p' P"
  using assms(1)
proof (cases rule: pool_stepD)
  case (started t)
  then show ?thesis using assms(2) by (auto simp: logged_def)
next
  case (stepped h t e t' us i)
  obtain h0 t0 h1 e1 h2 where m: "(h0, t0) \<in> set (snd p)" "h0 = h1 @ e1 # h2" "P h2 e1"
    using assms(2) by (auto simp: logged_def)
  then obtain j where j: "j < length (snd p)" "snd p ! j = (h0, t0)" by (auto simp: in_set_conv_nth)
  show ?thesis
  proof (cases "j = i")
    case True
    then have "h0 = h" using j stepped(4) by simp
    then have "(e, fst p, fst p') # h = ((e, fst p, fst p') # h1) @ e1 # h2" using m(2) by simp
    then show ?thesis
      using mem_stepped [OF stepped(3)] m(3) unfolding logged_def stepped(5) by blast
  next
    case False
    then have "snd p' ! j = (h0, t0)" using j by (simp add: stepped(5) nth_append)
    moreover have "j < length (snd p')" using j by (simp add: stepped(5))
    ultimately have "(h0, t0) \<in> set (snd p')" by (metis nth_mem)
    then show ?thesis using m(2,3) unfolding logged_def by blast
  qed
qed

lemma logged_new:
  assumes "snd p' = (snd p)[i := ((e, fst p, fst p') # h, t')] @ rest" and "i < length (snd p)"
    and "P h (e, fst p, fst p')"
  shows "logged p' P"
proof -
  have "((e, fst p, fst p') # h, t') \<in> set (snd p')" using assms(1,2) by (simp add: set_update_memI)
  moreover have "(e, fst p, fst p') # h = [] @ (e, fst p, fst p') # h" by simp
  ultimately show ?thesis using assms(3) unfolding logged_def by blast
qed

text \<open>
  What holds now but not at the start was brought about by a logged step: the condition on the steps
  of every task says how.
\<close>

lemma reachable_cause:
  assumes "reachable starts w0 p" and "\<And>t. t \<in> starts \<Longrightarrow> always P (\<lambda>_ _. True) [] t"
    and cause: "\<And>h t e w w' t' us. estep t e w = Some (w', t', us) \<Longrightarrow> P h (e, w, w') \<Longrightarrow>
      \<not> F w \<Longrightarrow> F w' \<Longrightarrow> C h (e, w, w')"
    and "F (fst p)"
  shows "F w0 \<or> logged p C"
  using assms(1,4)
proof induction
  case reach_init
  then show ?case by simp
next
  case (reach_step p p')
  have safe: "pool_safe P (\<lambda>_ _. True) p"
    using reach_step.hyps(1) assms(2) by (rule reachable_safe)
  show ?case
  proof (cases "F (fst p)")
    case True
    with reach_step.IH logged_step [OF reach_step.hyps(2)] show ?thesis by blast
  next
    case False
    from reach_step.hyps(2) show ?thesis
    proof (cases rule: pool_stepD)
      case (started t)
      then show ?thesis using False reach_step.prems by simp
    next
      case (stepped h t e t' us i)
      have "always P (\<lambda>_ _. True) h t" using safe stepped(1) by (auto simp: pool_safe_def)
      from alwaysD(2) [OF this stepped(2)] have "P h (e, fst p, fst p')" by simp
      from cause [OF stepped(2) this False reach_step.prems]
      show ?thesis using logged_new [OF stepped(5,3), of C] by blast
    qed
  qed
qed

section \<open>Who is trusted\<close>

text \<open>Only lock sections change the application state.\<close>

lemma estep_app: "estep t e w = Some (w', t', us) \<Longrightarrow> app w' \<noteq> app w \<Longrightarrow> \<exists>env. e = Locked env"
  by (cases t) (auto simp: opened_channel_def sent_decision_def split: event.splits if_splits option.splits)

text \<open>The reasons for which the program may trust an endpoint.\<close>

definition paired_by :: "log \<Rightarrow> string \<Rightarrow> bool" where
  "paired_by h e \<longleftrightarrow> (\<exists>secret. invite_accepted secret h) \<or> dialled_to e h"

definition pairing_step :: "externs \<Rightarrow> string \<Rightarrow> log \<Rightarrow> entry \<Rightarrow> bool" where
  "pairing_step x e h ent \<longleftrightarrow>
     (case ent of (ev, w, w') \<Rightarrow> e \<in> newly_trusted w w') \<and> paired_by h e \<and> both_confirmed x h"

text \<open>The inviter's side: a whole incoming connection can add trust only in its endpoint.\<close>

abbreviation inviter_rule :: "externs \<Rightarrow> string \<Rightarrow> log \<Rightarrow> entry \<Rightarrow> bool" where
  "inviter_rule x remote \<equiv>
     on_lock (trust_rule x (\<lambda>h e. e = remote \<and> (\<exists>secret. invite_accepted secret h)))"

lemma trust_rule_mono:
  "trust_rule x E h env w w' \<Longrightarrow> (\<And>e. E h e \<Longrightarrow> E' h e) \<Longrightarrow> trust_rule x E' h env w w'"
  by (auto simp: trust_rule_def)

lemma always_handle_pair_request_any:
  "always (inviter_rule x remote) (\<lambda>_ _. True) h (handle_pair_request x remote req s (\<lambda>_. Done None))"
proof -
  have "always (on_lock (trust_rule x (\<lambda>h e. e = remote \<and> invite_accepted (pr_invite_secret req) h)))
      (\<lambda>_ _. True) h (handle_pair_request x remote req s (\<lambda>_. Done None))"
    by (rule always_handle_pair_request) simp
  then show ?thesis
    by (rule always_mono) (auto simp: on_lock_def split: event.splits elim!: trust_rule_mono)
qed

lemma always_handle_text_trust:
  "always (inviter_rule x remote) (\<lambda>_ _. True) h (handle_text x remote rid p s (\<lambda>_. Done None))"
  unfolding handle_text_def
  by (auto simp: always_reading always_locked split: option.split sum.split intro!: always_answer_with)

lemma always_incoming_stream_trust:
  "always (inviter_rule x remote) (\<lambda>_ _. True) h (handle_incoming_stream x remote s (\<lambda>_. Done None))"
  unfolding handle_incoming_stream_def
  by (rule always_read_envelope)
    (auto simp: always_simps split: sum.split network_body.split intro!: always_handle_text_trust
       always_answer_with always_write_envelope always_handle_pair_request_any)

lemma lock_accept_trusted [simp]: "trusted_of (fst (lock_accept my e c env w)) = trusted_of w"
  by simp

lemma accept_trust: "always (inviter_rule x remote) (\<lambda>_ _. True) [] (accept x remote c)"
  unfolding accept_def accept_streams_def
  by (auto simp: always_reading always_locked always_simps split: prod.split
      intro!: always_Accept_loop always_incoming_stream_trust)

lemma daemon_tasks_trust:
  assumes "t \<in> daemon_tasks x pf allowed"
  shows "always (on_lock (trust_rule x paired_by)) (\<lambda>_ _. True) [] t"
proof (rule daemon_tasksE [OF assms])
  show "always (on_lock (trust_rule x paired_by)) (\<lambda>_ _. True) [] (accept x remote c)" for remote c
    using accept_trust
    by (rule always_mono) (auto simp: on_lock_def paired_by_def split: event.splits elim!: trust_rule_mono, blast?)
  show "always (on_lock (trust_rule x paired_by)) (\<lambda>_ _. True) [] (handle x pf req ev)" for req ev
    using request_trust_cases
    by (rule always_mono) (auto simp: on_lock_def paired_by_def split: event.splits elim!: trust_rule_mono)
qed

lemma reachable_trust:
  assumes "reachable starts w0 p"
    and "\<And>t. t \<in> starts \<Longrightarrow> always (on_lock (trust_rule x paired_by)) (\<lambda>_ _. True) [] t"
    and "is_trusted (trusted_of (fst p)) e"
  shows "is_trusted (trusted_of w0) e \<or> logged p (pairing_step x e)"
proof (rule reachable_cause [where F = "\<lambda>w. is_trusted (trusted_of w) e", OF assms(1,2) _ assms(3)])
  fix h t ev w w' t' us
  assume step: "estep t ev w = Some (w', t', us)" and rule: "on_lock (trust_rule x paired_by) h (ev, w, w')"
    and "\<not> is_trusted (trusted_of w) e" "is_trusted (trusted_of w') e"
  then have new: "e \<in> newly_trusted w w'" by (auto simp: newly_trusted_def is_trusted_def list_ex_iff)
  then have "app w' \<noteq> app w" by (auto simp: newly_trusted_def)
  with estep_app [OF step] rule new show "pairing_step x e h (ev, w, w')"
    by (auto simp: trust_rule_def pairing_step_def)
qed

section \<open>Steps and the worlds they start from\<close>

lemma reachable_entries:
  assumes "reachable starts w0 p" and "(h, t) \<in> set (snd p)" and "(e, w, w') \<in> set h"
  shows "\<exists>q u t' us. reachable starts w0 q \<and> fst q = w \<and> estep u e w = Some (w', t', us)"
  using assms
proof (induction arbitrary: h t)
  case reach_init
  then show ?case by simp
next
  case (reach_step p p')
  from reach_step.hyps(2) show ?case
  proof (cases rule: pool_stepD)
    case (started t')
    then show ?thesis using reach_step by auto
  next
    case (stepped h1 t1 e1 t' us i)
    from set_stepped [OF reach_step.prems(1) [unfolded stepped(5)]] consider
        "(h, t) \<in> set (snd p)" | "h = (e1, fst p, fst p') # h1" by auto
    then show ?thesis
    proof cases
      case 1
      then show ?thesis using reach_step.IH reach_step.prems(2) by blast
    next
      case 2
      with reach_step.prems(2) consider "(e, w, w') = (e1, fst p, fst p')" | "(e, w, w') \<in> set h1" by auto
      then show ?thesis
      proof cases
        case 1
        then show ?thesis using reach_step.hyps(1) stepped(2) by blast
      next
        case 2
        then show ?thesis using reach_step.IH stepped(1) by blast
      qed
    qed
  qed
qed

text \<open>A decision that a task received was in its channel.\<close>

lemma estep_Decided: "estep t (Decided ch (Some b)) w = Some r \<Longrightarrow> oneshots w ch = SentValue b"
  by (cases t) (auto split: if_splits)

section \<open>No trust without a local yes\<close>

definition no_yes :: "world \<Rightarrow> bool" where
  "no_yes w \<longleftrightarrow> (\<forall>ch. oneshots w ch \<noteq> SentValue True)"

lemma section_oneshots:
  "oneshots (fst (lock_set_config x req key v env w)) = oneshots w"
  "oneshots (fst (lock_reset_config x req env w)) = oneshots w"
  "oneshots (fst (lock_rename_peer x req ident a env w)) = oneshots w"
  "oneshots (fst (lock_unpair x req ident env w)) = oneshots w"
  "oneshots (fst (lock_record_sending x eid mid t env w)) = oneshots w"
  "oneshots (fst (lock_finish_send x req eid mid result env w)) = oneshots w"
  "oneshots (fst (lock_push_invite secret ttl text env w)) = oneshots w"
  "oneshots (fst (lock_cancel_invite req env w)) = oneshots w"
  "oneshots (fst (lock_take_decision pid env w)) = oneshots w"
  "oneshots (fst (lock_subscribe req events env w)) = oneshots w"
  "oneshots (fst (lock_check_invite now secret env w)) = oneshots w"
  "oneshots (fst (lock_pending_inviter x pid joiner preq vs ch env w)) = oneshots w"
  "oneshots (fst (lock_pending_joiner pid inviter dec vs ch env w)) = oneshots w"
  "oneshots (fst (finish_pairing x pid peer dn dv sec outcome env w)) = oneshots w"
  "oneshots (fst (lock_mark_online eid c env w)) = oneshots w"
  "oneshots (fst (lock_mark_offline eid env w)) = oneshots w"
  "oneshots (fst (lock_record_incoming x eid label p env w)) = oneshots w"
  by (auto simp: lock_set_config_def lock_reset_config_def lock_rename_peer_def lock_unpair_def
      lock_record_sending_def lock_finish_send_def lock_push_invite_def lock_cancel_invite_def
      lock_take_decision_def lock_subscribe_def lock_check_invite_def lock_pending_inviter_def
      lock_pending_joiner_def finish_pairing_def lock_mark_online_def lock_mark_offline_def
      lock_record_incoming_def broadcast_peer_status_def save_config_eq Let_def
      split: prod.split sum.split option.split bool.split record_outcome.split)

interpretation unconfirmed: daemon_rule "\<lambda>w w'. no_yes w \<longrightarrow> no_yes w'" x "\<lambda>ch b. \<not> b"
  by unfold_locales (simp_all add: no_yes_def section_oneshots opened_channel_def sent_decision_def)

lemma never_confirmed:
  assumes p: "reachable (daemon_tasks x pf (\<lambda>req. rq_method req \<noteq> CONFIRM_PAIRING)) w0 p"
    and w0: "no_yes w0" and ht: "(h, t) \<in> set (snd p)"
  shows "\<not> decided ch True h"
proof
  assume "decided ch True h"
  then obtain w w' where "(Decided ch (Some True), w, w') \<in> set h" by (auto simp: decided_def)
  from reachable_entries [OF p ht this] obtain q u t' us where
      q: "reachable (daemon_tasks x pf (\<lambda>req. rq_method req \<noteq> CONFIRM_PAIRING)) w0 q" "fst q = w"
      and e: "estep u (Decided ch (Some True)) w = Some (w', t', us)" by blast
  have "no_yes (fst q)"
    by (rule reachable_inv [where good = no_yes, OF q(1) w0]) (auto intro: unconfirmed.daemon_tasks_keep)
  then show False using estep_Decided [OF e] q(2) by (simp add: no_yes_def)
qed

section \<open>The invariant of the state\<close>

definition message_ok :: "stored_message \<Rightarrow> bool" where
  "message_ok m \<longleftrightarrow> length (sm_text m) \<le> MAX_TEXT_BYTES"

text \<open>The store: its limit, its histories and its cache are bounded.\<close>

definition store_ok :: "conversation_store \<Rightarrow> bool" where
  "store_ok s \<longleftrightarrow>
     20 \<le> history_limit_per_peer s \<and> history_limit_per_peer s \<le> 500 \<and>
     dedup_ok (dedup_cache s) \<and> dc_capacity (dedup_cache s) = DEDUP_CACHE_CAPACITY \<and>
     (\<forall>p. length (messages_for s p) \<le> 500 \<and> (\<forall>m \<in> set (messages_for s p). message_ok m))"

text \<open>An invite: a 32-byte secret, a lifetime of at least a minute, at most 20 attempts.\<close>

definition invite_ok :: "active_invite \<Rightarrow> bool" where
  "invite_ok iv \<longleftrightarrow>
     length (ai_secret iv) = 32 \<and> unat (ai_attempts iv) \<le> 20 \<and>
     ai_created_at iv + 60000 \<le> ai_expires_at iv"

definition world_ok :: "world \<Rightarrow> bool" where
  "world_ok w \<longleftrightarrow>
     limit_ok (st_config (app w)) \<and> store_ok (st_conversations (app w)) \<and>
     (\<forall>iv \<in> set (active_invites (app w)). invite_ok iv)"

lemma limit_ok_set_by_key: "limit_ok c \<Longrightarrow> limit_ok (fst (set_by_key c key v))"
  by (auto simp: set_by_key_def limit_ok_def MIN_HISTORY_LIMIT_def MAX_HISTORY_LIMIT_def
      split: option.split)

lemma limit_ok_peers [simp]: "limit_ok (c\<lparr>trusted_peers := ps\<rparr>) = limit_ok c"
  by (simp add: limit_ok_def)

lemma limit_ok_unat: "limit_ok c \<Longrightarrow> 20 \<le> unat (limit_per_peer (history_cfg c)) \<and> unat (limit_per_peer (history_cfg c)) \<le> 500"
  by (simp add: limit_ok_def MIN_HISTORY_LIMIT_def MAX_HISTORY_LIMIT_def word_le_nat_alt)

lemma store_ok_set_limit: "store_ok s \<Longrightarrow> 20 \<le> n \<Longrightarrow> n \<le> 500 \<Longrightarrow> store_ok (set_history_limit s n)"
  using messages_for_set_limit by (simp add: store_ok_def) (simp add: set_history_limit_def)

lemma store_ok_push:
  assumes "store_ok s" and "message_ok m"
    and "\<And>q. messages_for s' q =
      (if q = p then push_bounded (messages_for s p) m (history_limit_per_peer s) else messages_for s q)"
    and "history_limit_per_peer s' = history_limit_per_peer s"
    and "dedup_ok (dedup_cache s')" and "dc_capacity (dedup_cache s') = DEDUP_CACHE_CAPACITY"
  shows "store_ok s'"
proof -
  have "y \<in> set (messages_for s p) \<or> y = m"
    if "y \<in> set (push_bounded (messages_for s p) m (history_limit_per_peer s))" for y
    using that in_set_dropD by (fastforce simp: push_bounded_drop)
  then show ?thesis
    using assms by (auto simp: store_ok_def length_push_bounded)
qed

lemma store_ok_incoming:
  assumes "store_ok s" and "length t \<le> MAX_TEXT_BYTES"
  shows "store_ok (fst (record_incoming s p label i sent_at received_at t))"
proof (cases "dedup_contains (dedup_cache s) (p, i)")
  case True
  then show ?thesis using assms(1) by (simp add: record_incoming_def)
next
  case False
  note ok = dedup.ok_ins [of "dedup_cache s" "(p, i)"] dedup.cap_ins [of "dedup_cache s" "(p, i)"]
  show ?thesis
    by (rule store_ok_push [OF assms(1) _ messages_for_record_incoming [OF False]])
      (use assms False ok in \<open>simp_all add: message_ok_def record_incoming_def Let_def store_ok_def\<close>)
qed

lemma store_ok_outgoing:
  assumes "store_ok s" and "length t \<le> MAX_TEXT_BYTES"
  shows "store_ok (fst (record_outgoing s p i t st now))"
  by (rule store_ok_push [OF assms(1) _ messages_for_record_outgoing])
    (use assms in \<open>simp_all add: message_ok_def record_outgoing_def Let_def store_ok_def\<close>)

lemma store_ok_update:
  assumes "store_ok s"
  shows "store_ok (update_outgoing_status s p i st)"
proof -
  have "message_ok y" if "\<forall>m \<in> set ms. message_ok m"
    "y \<in> set (update_first (\<lambda>m. sm_id m = i) (\<lambda>m. m\<lparr>sm_status := st\<rparr>) ms)" for y ms
    using that by (induction ms) (auto simp: message_ok_def split: if_splits)
  moreover have "history_limit_per_peer (update_outgoing_status s p i st) = history_limit_per_peer s"
    "dedup_cache (update_outgoing_status s p i st) = dedup_cache s"
    by (auto simp: update_outgoing_status_def split: option.split)
  ultimately show ?thesis
    using assms by (auto simp: store_ok_def messages_for_update)
qed

lemma invites_ok_check:
  assumes "\<forall>iv \<in> set invites. invite_ok iv"
  shows "\<forall>iv \<in> set (fst (check_invite now secret invites)). invite_ok iv"
proof -
  have "\<forall>iv \<in> set invites. attempts_ok iv"
    using assms by (auto simp: invite_ok_def attempts_ok_def MAX_PAIRING_ATTEMPTS_PER_INVITE_def word_le_nat_alt)
  then have "\<forall>iv \<in> set (fst (check_invite now secret invites)). unat (ai_attempts iv) \<le> 20"
    using check_invite_attempts
    by (fastforce simp: attempts_ok_def MAX_PAIRING_ATTEMPTS_PER_INVITE_def word_le_nat_alt)
  moreover have "\<exists>iv' \<in> set invites. ai_secret iv = ai_secret iv' \<and> ai_created_at iv = ai_created_at iv' \<and>
      ai_expires_at iv = ai_expires_at iv'" if "iv \<in> set (fst (check_invite now secret invites))" for iv
  proof -
    let ?f = "\<lambda>iv :: active_invite. (ai_secret iv, ai_created_at iv, ai_expires_at iv)"
    have "map ?f (fst (check_invite now secret invites)) = map ?f invites"
      by (simp add: check_invite_def map_update_first split: option.split)
    moreover have "?f iv \<in> set (map ?f (fst (check_invite now secret invites)))"
      using that unfolding set_map by (rule imageI)
    ultimately have "?f iv \<in> set (map ?f invites)" by simp
    then show ?thesis by auto
  qed
  ultimately show ?thesis using assms by (fastforce simp: invite_ok_def)
qed

lemma invite_ok_new:
  assumes "length secret = 32" and "MIN_INVITE_TTL_SECS \<le> ttl"
  shows "invite_ok \<lparr>ai_secret = secret, ai_created_at = now, ai_expires_at = now + elapsed + unat ttl * 1000,
    ai_ticket_text = text, ai_attempts = 0\<rparr>"
  using assms by (simp add: invite_ok_def MIN_INVITE_TTL_SECS_def word_le_nat_alt)

lemma world_ok_set_config:
  assumes "world_ok w"
  shows "world_ok (fst (lock_set_config x req key v env w))"
proof -
  obtain c r where s: "set_by_key (st_config (app w)) key v = (c, r)" by fastforce
  have "limit_ok c"
    using limit_ok_set_by_key [of "st_config (app w)" key v] assms by (simp add: s world_ok_def)
  then show ?thesis
    using assms limit_ok_unat [of c]
    by (simp add: world_ok_def lock_set_config_sel s store_ok_set_limit)
qed

lemma world_ok_reset: "world_ok w \<Longrightarrow> world_ok (fst (lock_reset_config x req env w))"
  by (simp add: world_ok_def lock_reset_config_sel limit_ok_default store_ok_set_limit DEFAULT_HISTORY_LIMIT_def)

lemma world_ok_finish:
  assumes "world_ok w"
  shows "world_ok (fst (finish_pairing x pid peer dn dv sec outcome env w))"
proof -
  have "limit_ok (st_config (app (fst (finish_pairing x pid peer dn dv sec outcome env w))))"
    using assms by (subst finish_pairing_sel(1)) (simp add: world_ok_def)
  then show ?thesis
    using assms by (simp add: world_ok_def finish_pairing_sel(2) finish_pairing_app consume_invite_def split: option.split)
qed

lemma world_ok_check:
  assumes "world_ok w"
  shows "world_ok (fst (lock_check_invite now secret env w))"
  using assms invites_ok_check [of "active_invites (app w)" now secret]
  by (simp add: world_ok_def lock_handshake_sel)

lemma world_ok_push: "length secret = 32 \<Longrightarrow> MIN_INVITE_TTL_SECS \<le> ttl \<Longrightarrow> ttl \<le> MAX_INVITE_TTL_SECS \<Longrightarrow>
    world_ok w \<Longrightarrow> world_ok (fst (lock_push_invite secret ttl text env w))"
  by (simp add: world_ok_def lock_pairing_sel invite_ok_new)

lemma world_ok_messages:
  "world_ok w \<Longrightarrow> length (tp_text p) \<le> MAX_TEXT_BYTES \<Longrightarrow>
     world_ok (fst (lock_record_incoming x eid label p env w))"
  "world_ok w \<Longrightarrow> length t \<le> MAX_TEXT_BYTES \<Longrightarrow> world_ok (fst (lock_record_sending x eid mid t env w))"
  "world_ok w \<Longrightarrow> world_ok (fst (lock_finish_send x req eid mid result env w))"
  by (simp_all add: world_ok_def lock_message_sel store_ok_incoming store_ok_outgoing store_ok_update)

interpretation bounded: daemon_rule "\<lambda>w w'. world_ok w \<longrightarrow> world_ok w'" x "\<lambda>ch b. True"
  by unfold_locales
    (simp_all add: world_ok_set_config world_ok_reset world_ok_finish world_ok_check world_ok_push
       world_ok_messages, simp_all add: world_ok_def lock_rename_peer_sel lock_unpair_sel lock_pairing_sel
         lock_handshake_sel)

text \<open>The state the daemon starts with, from a config within its limits.\<close>

lemma world_ok_start:
  "limit_ok c \<Longrightarrow> app w = app_state_new i c now \<Longrightarrow> world_ok w"
  using limit_ok_unat [of c]
  by (simp add: world_ok_def app_state_new_def store_ok_def store_new_def messages_for_def
      dedup_ok_new DEDUP_CACHE_CAPACITY_def) (simp add: dedup_new_def)

section \<open>Executing a schedule\<close>

text \<open>
  A schedule names, step by step, the task that moves and its event.  \<open>run_schedule\<close> executes it on
  the tasks alone; the pool that it reaches keeps the logs too.
\<close>

fun run_schedule :: "(nat \<times> event) list \<Rightarrow> world \<times> task list \<Rightarrow> (world \<times> task list) option" where
  "run_schedule [] p = Some p"
| "run_schedule ((i, e) # es) (w, ts) =
     (if i < length ts
      then case estep (ts ! i) e w of
             None \<Rightarrow> None
           | Some (w', t', us) \<Rightarrow> run_schedule es (w', ts[i := t'] @ us)
      else None)"

lemma reachable_starts:
  "set us \<subseteq> starts \<Longrightarrow> reachable starts w0 (w0, map (Pair []) us)"
proof (induction us rule: rev_induct)
  case Nil
  then show ?case by (simp add: reach_init)
next
  case (snoc u us)
  then have "reachable starts w0 (w0, map (Pair []) us)" and "u \<in> starts" by simp_all
  from reach_step [OF this(1) pool_step.start [OF this(2)]] show ?case by simp
qed

lemma run_schedule_reachable:
  assumes "reachable starts w0 (w, ts)" and "run_schedule es (w, map snd ts) = Some (w', us')"
  shows "\<exists>ts'. reachable starts w0 (w', ts') \<and> map snd ts' = us'"
  using assms
proof (induction es arbitrary: w ts)
  case Nil
  then show ?case by auto
next
  case (Cons ie es)
  obtain i e where ie: "ie = (i, e)" by fastforce
  from Cons.prems(2) obtain w1 t1 us1 where i: "i < length ts"
      and st: "estep (snd (ts ! i)) e w = Some (w1, t1, us1)"
      and rest: "run_schedule es (w1, (map snd ts)[i := t1] @ us1) = Some (w', us')"
    by (auto simp: ie split: if_splits option.splits)
  let ?h = "(e, w, w1) # fst (ts ! i)"
  let ?ts = "ts[i := (?h, t1)] @ map (\<lambda>u. (?h, u)) us1"
  have "reachable starts w0 (w1, ?ts)"
    by (rule reach_step [OF Cons.prems(1) pool_step.step [OF i _ st]]) simp
  moreover have "map snd ?ts = (map snd ts)[i := t1] @ us1"
    by (simp add: map_update o_def)
  ultimately show ?case using Cons.IH [of w1 ?ts] rest by simp
qed

section \<open>A pairing that completes\<close>

definition demo_externs :: externs where
  "demo_externs =
     \<lparr>x_ser = (\<lambda>_. Inr [9]),
      x_de = (\<lambda>bs.
        if bs = [2] then Some (envelope_new 1 (PairRequest
             \<lparr>pr_invite_secret = replicate 32 1, pr_joiner_endpoint_id = ''bb'',
              pr_joiner_display_name = ''Bob'', pr_joiner_device_name = ''PC'',
              pr_joiner_nonce = replicate 32 2\<rparr>))
        else if bs = [3] then Some (envelope_new 2 (PairConfirm \<lparr>pc_confirmed = True\<rparr>))
        else None),
      x_ticket_ser = (\<lambda>_. Inr [8]), x_ticket_de = (\<lambda>_. None), x_b64e = (\<lambda>_. ''CQ''), x_b64d = (\<lambda>_. None),
      x_hash = (\<lambda>_. replicate 32 0), x_public = (\<lambda>_. ''aa''), x_uuid_text = (\<lambda>_. ''u7''),
      x_uuid_parse = (\<lambda>t. if t = ''u7'' then Some 7 else None), x_dbg = (\<lambda>t. t), x_dbg_body = (\<lambda>_. []),
      x_io_text = (\<lambda>_. []), x_key_addr = (\<lambda>t. Some t), x_ticket_addr = (\<lambda>t. Some t),
      x_lowercase = (\<lambda>t. t), x_pkg_version = ''0.1.0''\<rparr>"

definition demo_world :: world where
  "demo_world = map_invites (\<lambda>_.
     [\<lparr>ai_secret = replicate 32 1, ai_created_at = 0, ai_expires_at = 600000, ai_ticket_text = ''t'',
       ai_attempts = 0\<rparr>]) sample_world"

definition demo_tasks :: "platform \<Rightarrow> task list" where
  "demo_tasks pf =
     [accept demo_externs ''bb'' 1,
      handle demo_externs pf (sample_request CONFIRM_PAIRING (JObj [(''pairing_id'', JStr ''u7'')])) 0]"

text \<open>The inviter (task 2, one stream of task 0) and the local user's confirmation (task 1).\<close>

definition demo_schedule :: "(nat \<times> event) list" where
  "demo_schedule =
     [(0, Locked sample_env), (0, Accepted_stream 1 (Some 0)),
      (2, Got 0 4 (Some (Inr (to_be_bytes 1)))), (2, Got 0 1 (Some (Inr [2]))),
      (2, At 5), (2, Locked sample_env), (2, Locked sample_env), (2, Fresh_secret (replicate 32 5)),
      (2, Fresh_uuid 7), (2, Opened_channel 0), (2, Locked sample_env), (2, Fresh_uuid 8),
      (2, Wrote 0 (to_be_bytes 1 @ [9]) (Some (Inr ()))), (2, At 6),
      (1, Locked sample_env), (1, Sent_decision 0 True),
      (2, Decided 0 (Some True)), (2, Fresh_uuid 10), (2, Wrote 0 (to_be_bytes 1 @ [9]) (Some (Inr ()))),
      (2, Finished 0), (2, At 7), (2, Got 0 4 (Some (Inr (to_be_bytes 1)))), (2, Got 0 1 (Some (Inr [3]))),
      (2, Stopped 0), (2, Locked sample_env)]"

lemma demo_decode [simp]:
  "decode_length_prefix (to_be_bytes 1) = Inr 1"
  "encode_framed (x_ser demo_externs) e = Inr (to_be_bytes 1 @ [9])"
  "decode_body (x_de demo_externs) [2] = Inr (envelope_new 1 (PairRequest
     \<lparr>pr_invite_secret = replicate 32 1, pr_joiner_endpoint_id = ''bb'', pr_joiner_display_name = ''Bob'',
      pr_joiner_device_name = ''PC'', pr_joiner_nonce = replicate 32 2\<rparr>))"
  "decode_body (x_de demo_externs) [3] = Inr (envelope_new 2 (PairConfirm \<lparr>pc_confirmed = True\<rparr>))"
  by (simp_all add: net_frame.check_Inr_iff encode_framed_def decode_body_Inr MAX_WIRE_FRAME_BYTES_def
      demo_externs_def)

lemma demo_world_sel [simp]:
  "trusted_of demo_world = []" "oneshots demo_world = (\<lambda>_. Waiting)" "next_oneshot demo_world = 0"
  "active_invites (app demo_world) =
     [\<lparr>ai_secret = replicate 32 1, ai_created_at = 0, ai_expires_at = 600000, ai_ticket_text = ''t'',
       ai_attempts = 0\<rparr>]"
  "pending_pairings (app demo_world) = Map.empty"
  by (simp_all add: demo_world_def sample_world_def app_state_new_def sample_config_def config_default_def)

lemma estep_locked [simp]:
  "estep (locked f k) (Locked env) w = Some (fst (f env w), k (snd (f env w)), [])"
  "estep (reading g k') (Locked env) w = Some (w, k' (g env w), [])"
  by (simp_all add: locked_def reading_def split_beta)

lemma demo_confirm:
  "handle demo_externs pf (sample_request CONFIRM_PAIRING params) ev =
     resolve_pairing_decision demo_externs (sample_request CONFIRM_PAIRING params) True"
  by (simp add: handle_def handle_method_def sample_request_def Let_def)

lemma demo_uuid: "x_uuid_parse demo_externs ''u7'' = Some 7"
  by (simp add: demo_externs_def)

lemmas demo_run = demo_schedule_def demo_tasks_def demo_confirm [unfolded sample_request_def] demo_uuid resolve_pairing_decision_def
  get_str_def sample_request_def accept_def accept_streams_def accept_info_def is_trusted_def
  handle_incoming_stream_def read_envelope_def or_timeout_def FRAME_LENGTH_PREFIX_BYTES_def
  handle_pair_request_def lock_check_invite_def check_invite_def secrets_match_def invite_is_expired_def
  attempts_exhausted_def MAX_PAIRING_ATTEMPTS_PER_INVITE_def my_names_def write_envelope_def
  run_confirmation_exchange_def confirm_written_def lock_pending_inviter_def lock_take_decision_def
  opened_channel_def sent_decision_def wait_for_confirm_delivery_def finish_pairing_trusted
  add_trusted_peer_def Let_def map_world_defs

lemma demo_pairs:
  "\<exists>w' us. run_schedule demo_schedule (demo_world, demo_tasks pf) = Some (w', us) \<and>
     map endpoint_id (trusted_of w') = [''bb'']"
  by (simp add: demo_run)

lemma demo_tasks_allowed: "set (demo_tasks pf) \<subseteq> daemon_tasks demo_externs pf (\<lambda>_. True)"
  by (auto simp: demo_tasks_def daemon_tasks_def)

lemma demo_reachable:
  "\<exists>p. reachable (daemon_tasks demo_externs pf (\<lambda>_. True)) demo_world p \<and>
     map endpoint_id (trusted_of (fst p)) = [''bb'']"
proof -
  obtain w' us where run: "run_schedule demo_schedule (demo_world, demo_tasks pf) = Some (w', us)"
      and t: "map endpoint_id (trusted_of w') = [''bb'']"
    using demo_pairs [of pf] by (elim exE conjE) (rule that)
  have "run_schedule demo_schedule (demo_world, map snd (map (Pair []) (demo_tasks pf))) = Some (w', us)"
    using run by (simp add: o_def)
  from run_schedule_reachable [OF reachable_starts [OF demo_tasks_allowed] this] t show ?thesis
    by auto
qed

text \<open>The same connection without the local user's request, up to the wait for the decision.\<close>

definition pending_schedule :: "(nat \<times> event) list" where
  "pending_schedule = map (\<lambda>(i, e). (if i = 2 then 1 else i, e)) (take 14 demo_schedule)"

lemma pending_run:
  "\<exists>w' us. run_schedule pending_schedule (demo_world, [accept demo_externs ''bb'' 1]) = Some (w', us) \<and>
     pending_pairings (app w') 7 \<noteq> None"
  by (simp add: pending_schedule_def demo_run broadcast_event_def)

lemma pending_reachable:
  "\<exists>p. reachable (daemon_tasks demo_externs pf (\<lambda>req. rq_method req \<noteq> CONFIRM_PAIRING)) demo_world p \<and>
     pending_pairings (app (fst p)) 7 \<noteq> None"
proof -
  obtain w' us where run: "run_schedule pending_schedule (demo_world, [accept demo_externs ''bb'' 1]) = Some (w', us)"
      and t: "pending_pairings (app w') 7 \<noteq> None"
    using pending_run by (elim exE conjE) (rule that)
  have starts: "set [accept demo_externs ''bb'' 1] \<subseteq>
      daemon_tasks demo_externs pf (\<lambda>req. rq_method req \<noteq> CONFIRM_PAIRING)"
    by (auto simp: daemon_tasks_def)
  have "run_schedule pending_schedule (demo_world, map snd (map (Pair []) [accept demo_externs ''bb'' 1])) = Some (w', us)"
    using run by simp
  from run_schedule_reachable [OF reachable_starts [OF starts] this] t show ?thesis by auto
qed

section \<open>Properties\<close>

text \<open>
  C1.  Through any interleaving of incoming connections and requests, with any behaviour of the
  peers, the network, the disk and the clocks: an endpoint is trusted only if it was at the
  start, or some task's log holds the step that added it, before which the local user's yes was
  received, our confirmation was sent and the peer's was read on one stream, and either an
  invite had accepted the request or the task had dialled this very endpoint.
\<close>

theorem trust_only_by_pairing:
  assumes "reachable (daemon_tasks x pf allowed) w0 p" and "is_trusted (trusted_of (fst p)) e"
  shows "is_trusted (trusted_of w0) e \<or>
    (\<exists>(h, t) \<in> set (snd p). \<exists>later_steps ev w w' before.
       h = later_steps @ (ev, w, w') # before \<and> e \<in> newly_trusted w w' \<and>
       both_confirmed x before \<and>
       ((\<exists>secret. invite_accepted secret before) \<or> dialled_to e before))"
proof -
  have "is_trusted (trusted_of w0) e \<or> logged p (pairing_step x e)"
    by (rule reachable_trust [OF assms(1) daemon_tasks_trust assms(2)])
  then show ?thesis
    unfolding logged_def pairing_step_def paired_by_def split_paired_Ex by (simp only: prod.case) blast
qed

theorem trust_only_by_pairing_witness:
  "\<exists>p. reachable (daemon_tasks demo_externs MacOs (\<lambda>_. True)) demo_world p \<and>
     is_trusted (trusted_of (fst p)) ''bb'' \<and>
     (\<exists>(h, t) \<in> set (snd p). \<exists>h1 e before. h = h1 @ e # before \<and> both_confirmed demo_externs before)"
proof -
  obtain p where p: "reachable (daemon_tasks demo_externs MacOs (\<lambda>_. True)) demo_world p"
      and t: "map endpoint_id (trusted_of (fst p)) = [''bb'']"
    using demo_reachable [of MacOs] by (elim exE conjE) (rule that)
  from t have "is_trusted (trusted_of (fst p)) ''bb''" by (auto simp: is_trusted_def list_ex_iff)
  moreover have "\<not> is_trusted (trusted_of demo_world) ''bb''" by (simp add: is_trusted_def)
  ultimately show ?thesis using p trust_only_by_pairing [OF p, of "''bb''"] by fast
qed

text \<open>
  C2.  No pairing without the local user: as long as no client sends \<open>confirm_pairing\<close>, no
  interleaving of connections and other requests makes any endpoint trusted, whatever peers send.
\<close>

theorem no_trust_without_confirmation:
  assumes "reachable (daemon_tasks x pf (\<lambda>req. rq_method req \<noteq> CONFIRM_PAIRING)) w0 p"
    and "\<And>ch. oneshots w0 ch \<noteq> SentValue True"
    and "is_trusted (trusted_of (fst p)) e"
  shows "is_trusted (trusted_of w0) e"
proof (rule ccontr)
  assume "\<not> is_trusted (trusted_of w0) e"
  moreover have "is_trusted (trusted_of w0) e \<or> logged p (pairing_step x e)"
    by (rule reachable_trust [OF assms(1) daemon_tasks_trust assms(3)])
  ultimately obtain h t h1 ent h2 where h: "(h, t) \<in> set (snd p)" "h = h1 @ ent # h2" and b: "both_confirmed x h2"
    unfolding logged_def pairing_step_def by blast
  obtain ch where "decided ch True h2" using b by (auto simp: both_confirmed_def)
  then have "decided ch True h" by (auto simp: h(2) decided_def)
  with never_confirmed [OF assms(1) _ h(1)] assms(2) show False by (simp add: no_yes_def)
qed

theorem no_trust_without_confirmation_witness:
  "\<exists>p. reachable (daemon_tasks demo_externs MacOs (\<lambda>req. rq_method req \<noteq> CONFIRM_PAIRING)) demo_world p \<and>
     pending_pairings (app (fst p)) 7 \<noteq> None \<and> \<not> is_trusted (trusted_of (fst p)) ''bb''"
proof -
  obtain p where p: "reachable (daemon_tasks demo_externs MacOs (\<lambda>req. rq_method req \<noteq> CONFIRM_PAIRING)) demo_world p"
      "pending_pairings (app (fst p)) 7 \<noteq> None"
    using pending_reachable [of MacOs] by (elim exE conjE) (rule that)
  have "\<not> is_trusted (trusted_of demo_world) ''bb''" by (simp add: is_trusted_def)
  moreover have "\<And>ch. oneshots demo_world ch \<noteq> SentValue True" by simp
  ultimately have "\<not> is_trusted (trusted_of (fst p)) ''bb''"
    using no_trust_without_confirmation [OF p(1)] by blast
  with p show ?thesis by blast
qed

text \<open>
  C8.  A daemon that starts with a history limit between 20 and 500 (loading does not check the
  limit of the file) stays within its bounds, in every reachable world: the history limit, in the
  config and in force, is between 20 and 500, every history holds at most 500 messages of at
  most 5 MiB, the cache of message ids is consistent and holds at most 10,000, and every
  invite has a 32-byte secret, lasts at least a minute and takes at most 20 attempts.
\<close>

theorem state_bounded:
  "(limit_ok c \<longrightarrow> app w = app_state_new i c now \<longrightarrow> world_ok w) \<and>
   (world_ok w0 \<longrightarrow> reachable (daemon_tasks x pf allowed) w0 p \<longrightarrow> world_ok (fst p))"
proof (intro conjI impI)
  show "world_ok w" if "limit_ok c" "app w = app_state_new i c now"
    using that by (rule world_ok_start)
  show "world_ok (fst p)" if "world_ok w0" "reachable (daemon_tasks x pf allowed) w0 p"
    by (rule reachable_inv [where good = world_ok, OF that(2,1)]) (auto intro: bounded.daemon_tasks_keep)
qed

lemma demo_world_ok: "world_ok demo_world"
proof -
  have "world_ok sample_world"
    by (rule world_ok_start [where c = sample_config]) (simp_all add: sample_config_def limit_ok_default sample_world_def)
  then show ?thesis by (simp add: demo_world_def world_ok_def invite_ok_def)
qed

theorem state_bounded_witness:
  "\<exists>p. reachable (daemon_tasks demo_externs MacOs (\<lambda>_. True)) demo_world p \<and>
     map endpoint_id (trusted_of (fst p)) = [''bb''] \<and> world_ok (fst p)"
proof -
  obtain p where p: "reachable (daemon_tasks demo_externs MacOs (\<lambda>_. True)) demo_world p"
      "map endpoint_id (trusted_of (fst p)) = [''bb'']"
    using demo_reachable [of MacOs] by (elim exE conjE) (rule that)
  have imp: "world_ok demo_world \<longrightarrow> reachable (daemon_tasks demo_externs MacOs (\<lambda>_. True)) demo_world p \<longrightarrow>
      world_ok (fst p)"
    by (rule state_bounded [THEN conjunct2])
  show ?thesis
    by (intro exI [of _ p] conjI p mp [OF mp [OF imp demo_world_ok] p(1)])
qed

end
