(* ===== verification/Lcp_Server.thy ===== *)
theory Lcp_Server
  imports Lcp_Codec
begin

text \<open>
  The daemon's side of one IPC connection (\<open>handle_connection\<close> of \<open>lcp-ipc/src/server.rs\<close>): a
  loop that reads a request, awaits the handler and writes the response, and a task that writes
  the events of the connection's channel, both behind one mutex around the writer.  A step is
  what happens between two awaits; bytes reach the stream in chunks of any size, so the model
  shows what the peer sees when the two tasks interleave or one of them stops half way.  The
  request handler is a trait: here any response may come back from it.
\<close>

section \<open>State\<close>

datatype loop_state =
    L_read
  | L_handle ipc_request
  | L_respond ipc_response
  | L_write bytes \<comment> \<open>holds the writer; the bytes of the frame still to be written\<close>
  | L_done

datatype event_state =
    E_recv
  | E_send ipc_event bytes
  | E_write bytes
  | E_done

text \<open>
  \<open>sv_room\<close> is how many bytes the stream takes before the peer hangs up (\<open>None\<close>: it never does).
  The last two fields are a history: what the handler answered, and the frames that were begun.
\<close>

record server =
  sv_input :: bytes
  sv_written :: bytes
  sv_room :: "nat option"
  sv_loop :: loop_state
  sv_task :: event_state
  sv_chan :: "ipc_event list"
  sv_served :: "(ipc_request \<times> ipc_response) list"
  sv_frames :: "ipc_server_frame list"

definition server_new :: "bytes \<Rightarrow> nat option \<Rightarrow> server" where
  "server_new input room =
     \<lparr>sv_input = input, sv_written = [], sv_room = room, sv_loop = L_read, sv_task = E_recv,
      sv_chan = [], sv_served = [], sv_frames = []\<rparr>"

definition writer_locked :: "server \<Rightarrow> bool" where
  "writer_locked s \<longleftrightarrow>
     (case sv_loop s of L_write _ \<Rightarrow> True | _ \<Rightarrow> (case sv_task s of E_write _ \<Rightarrow> True | _ \<Rightarrow> False))"

section \<open>Steps\<close>

definition loop_read :: "json_codec \<Rightarrow> server \<Rightarrow> server option" where
  "loop_read j s =
     (case sv_loop s of
        L_read \<Rightarrow>
          (case read_frame (sv_input s) of
             (Inl e, r) \<Rightarrow> Some (s\<lparr>sv_input := r, sv_loop := L_done\<rparr>)
           | (Inr bs, r) \<Rightarrow>
               (case request_from_slice j bs of
                  None \<Rightarrow> Some (s\<lparr>sv_input := r, sv_loop := L_done\<rparr>)
                | Some q \<Rightarrow> Some (s\<lparr>sv_input := r, sv_loop := L_handle q\<rparr>)))
      | _ \<Rightarrow> None)"

definition loop_handled :: "ipc_response \<Rightarrow> server \<Rightarrow> server option" where
  "loop_handled r s =
     (case sv_loop s of
        L_handle q \<Rightarrow> Some (s\<lparr>sv_loop := L_respond r, sv_served := sv_served s @ [(q, r)]\<rparr>)
      | _ \<Rightarrow> None)"

definition loop_respond :: "json_codec \<Rightarrow> server \<Rightarrow> server option" where
  "loop_respond j s =
     (case sv_loop s of
        L_respond r \<Rightarrow>
          (case server_frame_to_vec j (Response r) of
             None \<Rightarrow> Some (s\<lparr>sv_loop := L_done\<rparr>)
           | Some bs \<Rightarrow>
               if writer_locked s then None
               else if length bs > MAX_IPC_FRAME_BYTES then Some (s\<lparr>sv_loop := L_done\<rparr>)
               else Some (s\<lparr>sv_loop := L_write (frame bs), sv_frames := sv_frames s @ [Response r]\<rparr>))
      | _ \<Rightarrow> None)"

definition push_event :: "ipc_event \<Rightarrow> server \<Rightarrow> server option" where
  "push_event ev s =
     (if sv_task s = E_done then None else Some (s\<lparr>sv_chan := sv_chan s @ [ev]\<rparr>))"

definition task_recv :: "json_codec \<Rightarrow> server \<Rightarrow> server option" where
  "task_recv j s =
     (case (sv_task s, sv_chan s) of
        (E_recv, ev # evs) \<Rightarrow>
          (case server_frame_to_vec j (Event ev) of
             None \<Rightarrow> Some (s\<lparr>sv_chan := evs\<rparr>)
           | Some bs \<Rightarrow> Some (s\<lparr>sv_chan := evs, sv_task := E_send ev bs\<rparr>))
      | _ \<Rightarrow> None)"

definition task_send :: "server \<Rightarrow> server option" where
  "task_send s =
     (case sv_task s of
        E_send ev bs \<Rightarrow>
          if writer_locked s then None
          else if length bs > MAX_IPC_FRAME_BYTES then Some (s\<lparr>sv_task := E_done\<rparr>)
          else Some (s\<lparr>sv_task := E_write (frame bs), sv_frames := sv_frames s @ [Event ev]\<rparr>)
      | _ \<Rightarrow> None)"

text \<open>The holder of the writer writes some bytes, or fails when the peer has hung up.\<close>

definition room_for :: "nat \<Rightarrow> server \<Rightarrow> bool" where
  "room_for n s \<longleftrightarrow> (case sv_room s of None \<Rightarrow> True | Some k \<Rightarrow> n \<le> k)"

definition put :: "bytes \<Rightarrow> server \<Rightarrow> server" where
  "put bs s = s\<lparr>sv_written := sv_written s @ bs,
                sv_room := map_option (\<lambda>k. k - length bs) (sv_room s)\<rparr>"

definition write_chunk :: "nat \<Rightarrow> server \<Rightarrow> server option" where
  "write_chunk n s =
     (if n = 0 \<or> \<not> room_for n s then None
      else case sv_loop s of
             L_write rest \<Rightarrow>
               if n > length rest then None
               else Some (put (take n rest)
                      (s\<lparr>sv_loop := if n = length rest then L_read else L_write (drop n rest)\<rparr>))
           | _ \<Rightarrow>
               (case sv_task s of
                  E_write rest \<Rightarrow>
                    if n > length rest then None
                    else Some (put (take n rest)
                           (s\<lparr>sv_task := if n = length rest then E_recv else E_write (drop n rest)\<rparr>))
                | _ \<Rightarrow> None))"

definition write_error :: "server \<Rightarrow> server option" where
  "write_error s =
     (if sv_room s \<noteq> Some 0 then None
      else case sv_loop s of
             L_write _ \<Rightarrow> Some (s\<lparr>sv_loop := L_done\<rparr>)
           | _ \<Rightarrow> (case sv_task s of E_write _ \<Rightarrow> Some (s\<lparr>sv_task := E_done\<rparr>) | _ \<Rightarrow> None))"

definition abort_events :: "server \<Rightarrow> server option" where
  "abort_events s = (if sv_loop s = L_done \<and> sv_task s \<noteq> E_done then Some (s\<lparr>sv_task := E_done\<rparr>) else None)"

datatype server_action =
    Read_request | Handled ipc_response | Start_response | Push_event ipc_event | Take_event
  | Start_event | Write_chunk nat | Write_error | Abort_events

fun handle_connection :: "json_codec \<Rightarrow> server_action \<Rightarrow> server \<Rightarrow> server option" where
  "handle_connection j Read_request s = loop_read j s"
| "handle_connection j (Handled r) s = loop_handled r s"
| "handle_connection j Start_response s = loop_respond j s"
| "handle_connection j (Push_event ev) s = push_event ev s"
| "handle_connection j Take_event s = task_recv j s"
| "handle_connection j Start_event s = task_send s"
| "handle_connection j (Write_chunk n) s = write_chunk n s"
| "handle_connection j Write_error s = write_error s"
| "handle_connection j Abort_events s = abort_events s"

inductive server_reach :: "json_codec \<Rightarrow> server \<Rightarrow> server \<Rightarrow> bool" for j where
  reach_start: "server_reach j s s"
| reach_act: "server_reach j s t \<Longrightarrow> handle_connection j a t = Some u \<Longrightarrow> server_reach j s u"

text \<open>A schedule of actions, for concrete runs.\<close>

primrec server_run :: "json_codec \<Rightarrow> server_action list \<Rightarrow> server \<Rightarrow> server option" where
  "server_run j [] s = Some s"
| "server_run j (a # as) s = Option.bind (handle_connection j a s) (server_run j as)"

lemma server_run_reach: "server_run j as t = Some u \<Longrightarrow> server_reach j s t \<Longrightarrow> server_reach j s u"
proof (induction as arbitrary: t)
  case Nil
  then show ?case by simp
next
  case (Cons a as)
  then show ?case by (auto split: Option.bind_splits intro: reach_act)
qed

section \<open>The stream\<close>

primrec responses_of :: "ipc_server_frame list \<Rightarrow> ipc_response list" where
  "responses_of [] = []"
| "responses_of (f # fs) = (case f of Response r \<Rightarrow> r # responses_of fs | Event _ \<Rightarrow> responses_of fs)"

lemma responses_of_append [simp]: "responses_of (fs @ gs) = responses_of fs @ responses_of gs"
  by (induction fs) (auto split: ipc_server_frame.split)

definition payload :: "json_codec \<Rightarrow> ipc_server_frame \<Rightarrow> bytes" where
  "payload j f = the (server_frame_to_vec j f)"

definition wire :: "json_codec \<Rightarrow> ipc_server_frame list \<Rightarrow> bytes" where
  "wire j fs = concat (map (\<lambda>f. frame (payload j f)) fs)"

definition fits :: "json_codec \<Rightarrow> ipc_server_frame \<Rightarrow> bool" where
  "fits j f \<longleftrightarrow> (\<exists>bs. server_frame_to_vec j f = Some bs \<and> length bs \<le> MAX_IPC_FRAME_BYTES)"

text \<open>The bytes of the frame in progress that are still to be written.\<close>

fun loop_rest :: "loop_state \<Rightarrow> bytes" where
  "loop_rest (L_write rest) = rest"
| "loop_rest _ = []"

fun task_rest :: "event_state \<Rightarrow> bytes" where
  "task_rest (E_write rest) = rest"
| "task_rest _ = []"

definition pending_out :: "server \<Rightarrow> bytes" where
  "pending_out s = loop_rest (sv_loop s) @ task_rest (sv_task s)"

lemma rest_other: "(\<forall>b. l \<noteq> L_write b) \<Longrightarrow> loop_rest l = []" "(\<forall>b. t \<noteq> E_write b) \<Longrightarrow> task_rest t = []"
  by (cases l; simp) (cases t; simp)

definition stopped_writing :: "server \<Rightarrow> bool" where
  "stopped_writing s \<longleftrightarrow> sv_room s = Some 0 \<or> sv_loop s = L_done \<and> sv_task s = E_done"

definition wire_inv :: "json_codec \<Rightarrow> server \<Rightarrow> bool" where
  "wire_inv j s \<longleftrightarrow>
     (\<forall>a b. sv_loop s = L_write a \<longrightarrow> sv_task s \<noteq> E_write b) \<and>
     (\<forall>ev bs. sv_task s = E_send ev bs \<longrightarrow> server_frame_to_vec j (Event ev) = Some bs) \<and>
     list_all (fits j) (sv_frames s) \<and>
     (sv_written s @ pending_out s = wire j (sv_frames s) \<or>
      stopped_writing s \<and> prefix (sv_written s) (wire j (sv_frames s)))"

lemmas server_step_defs = loop_read_def loop_handled_def loop_respond_def push_event_def task_recv_def
  task_send_def write_chunk_def write_error_def abort_events_def put_def room_for_def

lemma wire_append [simp]: "wire j (fs @ gs) = wire j fs @ wire j gs" "wire j [] = []"
  "wire j [f] = frame (payload j f)"
  by (simp_all add: wire_def)

lemma wire_inv_new: "wire_inv j (server_new J room)"
  by (simp add: wire_inv_def server_new_def pending_out_def)

lemma writer_free: "\<not> writer_locked s \<Longrightarrow> \<forall>b. sv_loop s \<noteq> L_write b" "\<not> writer_locked s \<Longrightarrow> \<forall>b. sv_task s \<noteq> E_write b"
  by (auto simp: writer_locked_def split: loop_state.splits)

lemma wire_inv_begin:
  assumes "wire_inv j s" and "\<not> writer_locked s" and "server_frame_to_vec j f = Some bs"
    and "length bs \<le> MAX_IPC_FRAME_BYTES"
  shows "list_all (fits j) (sv_frames s @ [f])"
    and "sv_written s @ frame bs = wire j (sv_frames s @ [f]) \<or>
         sv_room s = Some 0 \<and> prefix (sv_written s) (wire j (sv_frames s @ [f])) \<or>
         sv_loop s = L_done \<and> sv_task s = E_done"
proof -
  show "list_all (fits j) (sv_frames s @ [f])"
    using assms by (auto simp: wire_inv_def fits_def)
  have "pending_out s = []"
    using writer_free [OF assms(2)] by (simp add: pending_out_def rest_other)
  then show "sv_written s @ frame bs = wire j (sv_frames s @ [f]) \<or>
         sv_room s = Some 0 \<and> prefix (sv_written s) (wire j (sv_frames s @ [f])) \<or>
         sv_loop s = L_done \<and> sv_task s = E_done"
    using assms(1,3) by (auto simp: wire_inv_def stopped_writing_def payload_def)
qed

text \<open>A step that neither writes nor begins or ends a frame.\<close>

lemma wire_inv_quiet:
  assumes "wire_inv j s" and "pending_out t = pending_out s" and "sv_written t = sv_written s"
    and "sv_frames t = sv_frames s" and "stopped_writing s \<longrightarrow> stopped_writing t"
    and "\<forall>a b. sv_loop t = L_write a \<longrightarrow> sv_task t \<noteq> E_write b"
    and "\<forall>ev bs. sv_task t = E_send ev bs \<longrightarrow> server_frame_to_vec j (Event ev) = Some bs"
  shows "wire_inv j t"
  using assms by (auto simp: wire_inv_def)

lemma wire_inv_loop:
  assumes "wire_inv j s" and "\<forall>b. sv_loop s \<noteq> L_write b" and "sv_loop s \<noteq> L_done"
    and "\<forall>b. l \<noteq> L_write b"
  shows "wire_inv j (s\<lparr>sv_loop := l\<rparr>)" and "wire_inv j (s\<lparr>sv_input := i, sv_loop := l\<rparr>)"
    and "wire_inv j (s\<lparr>sv_loop := l, sv_served := v\<rparr>)"
  using assms
  by (auto intro!: wire_inv_quiet [OF assms(1)] simp: pending_out_def stopped_writing_def rest_other)
    (auto simp: wire_inv_def)

lemma wire_inv_loop_read: "wire_inv j s \<Longrightarrow> loop_read j s = Some u \<Longrightarrow> wire_inv j u"
  by (auto simp: loop_read_def split: loop_state.splits prod.splits sum.splits option.splits
      intro: wire_inv_loop)

lemma wire_inv_loop_handled: "wire_inv j s \<Longrightarrow> loop_handled r s = Some u \<Longrightarrow> wire_inv j u"
  by (auto simp: loop_handled_def split: loop_state.splits intro: wire_inv_loop)

lemma wire_inv_loop_respond:
  assumes "wire_inv j s" and "loop_respond j s = Some u"
  shows "wire_inv j u"
proof -
  from assms(2) obtain r where r: "sv_loop s = L_respond r"
    by (auto simp: loop_respond_def split: loop_state.splits)
  show ?thesis
  proof (cases "u = s\<lparr>sv_loop := L_done\<rparr>")
    case True
    with wire_inv_loop(1) [OF assms(1)] r show ?thesis by simp
  next
    case False
    with assms(2) r obtain bs where bs: "server_frame_to_vec j (Response r) = Some bs"
      and free: "\<not> writer_locked s" and len: "length bs \<le> MAX_IPC_FRAME_BYTES"
      and u: "u = s\<lparr>sv_loop := L_write (frame bs), sv_frames := sv_frames s @ [Response r]\<rparr>"
      by (auto simp: loop_respond_def split: option.splits if_splits)
    from wire_inv_begin [OF assms(1) free bs len] r writer_free [OF free] assms(1) show ?thesis
      by (auto simp: u wire_inv_def pending_out_def stopped_writing_def rest_other)
  qed
qed

lemma wire_inv_task:
  assumes "wire_inv j s" and "\<forall>b. sv_task s \<noteq> E_write b" and "sv_task s \<noteq> E_done"
    and "\<forall>b. t \<noteq> E_write b"
    and "\<forall>ev bs. t = E_send ev bs \<longrightarrow> server_frame_to_vec j (Event ev) = Some bs"
  shows "wire_inv j (s\<lparr>sv_task := t\<rparr>)" and "wire_inv j (s\<lparr>sv_chan := evs, sv_task := t\<rparr>)"
  using assms
  by (auto intro!: wire_inv_quiet [OF assms(1)] simp: pending_out_def stopped_writing_def rest_other)

lemma wire_inv_chan: "wire_inv j s \<Longrightarrow> wire_inv j (s\<lparr>sv_chan := evs\<rparr>)"
  by (auto simp: wire_inv_def pending_out_def stopped_writing_def)

lemma wire_inv_task_send:
  assumes "wire_inv j s" and "task_send s = Some u"
  shows "wire_inv j u"
proof -
  from assms(2) obtain ev bs where r: "sv_task s = E_send ev bs" and free: "\<not> writer_locked s"
    by (auto simp: task_send_def split: event_state.splits if_splits)
  then have vec: "server_frame_to_vec j (Event ev) = Some bs"
    using assms(1) by (auto simp: wire_inv_def)
  show ?thesis
  proof (cases "u = s\<lparr>sv_task := E_done\<rparr>")
    case True
    with wire_inv_task(1) [OF assms(1)] r show ?thesis by simp
  next
    case False
    with assms(2) r have len: "length bs \<le> MAX_IPC_FRAME_BYTES"
      and u: "u = s\<lparr>sv_task := E_write (frame bs), sv_frames := sv_frames s @ [Event ev]\<rparr>"
      by (auto simp: task_send_def split: if_splits)
    from wire_inv_begin [OF assms(1) free vec len] r writer_free [OF free] assms(1) show ?thesis
      by (auto simp: u wire_inv_def pending_out_def stopped_writing_def rest_other)
  qed
qed

lemma wire_inv_push: "wire_inv j s \<Longrightarrow> push_event ev s = Some u \<Longrightarrow> wire_inv j u"
  by (auto simp: push_event_def wire_inv_chan split: if_splits)

lemma wire_inv_recv: "wire_inv j s \<Longrightarrow> task_recv j s = Some u \<Longrightarrow> wire_inv j u"
  by (auto simp: task_recv_def wire_inv_chan
      split: event_state.splits list.splits option.splits intro: wire_inv_task)

lemma wire_inv_put:
  assumes "wire_inv j s" and "pending_out s = x @ y" and "x \<noteq> []" and "room_for (length x) s"
    and "pending_out t = y" and "sv_written t = sv_written s" and "sv_room t = sv_room s"
    and "sv_frames t = sv_frames s"
    and "\<forall>a b. sv_loop t = L_write a \<longrightarrow> sv_task t \<noteq> E_write b"
    and "\<forall>ev bs. sv_task t = E_send ev bs \<longrightarrow> server_frame_to_vec j (Event ev) = Some bs"
    and "sv_loop s \<noteq> L_done \<or> sv_task s \<noteq> E_done"
  shows "wire_inv j (put x t)"
proof -
  have "pending_out (put x t) = y"
    using assms(5) by (simp add: put_def pending_out_def)
  moreover have "sv_room s \<noteq> Some 0"
    using assms(3,4) by (auto simp: room_for_def)
  ultimately show ?thesis
    using assms by (auto simp: wire_inv_def put_def stopped_writing_def)
qed

lemma wire_inv_write_chunk:
  assumes "wire_inv j s" and "write_chunk n s = Some u"
  shows "wire_inv j u"
proof -
  from assms(2) have n: "n \<noteq> 0" "room_for n s" by (auto simp: write_chunk_def split: if_splits)
  show ?thesis
  proof (cases "\<exists>rest. sv_loop s = L_write rest")
    case True
    then obtain rest where l: "sv_loop s = L_write rest" ..
    with assms n have len: "n \<le> length rest"
      and u: "u = put (take n rest)
                    (s\<lparr>sv_loop := if n = length rest then L_read else L_write (drop n rest)\<rparr>)"
      by (auto simp: write_chunk_def split: if_splits)
    have t: "task_rest (sv_task s) = []"
      using assms(1) l by (intro rest_other) (auto simp: wire_inv_def)
    show ?thesis
      unfolding u
      by (rule wire_inv_put [OF assms(1), where y = "drop n rest"])
        (use assms(1) l t n len in \<open>auto simp: pending_out_def wire_inv_def\<close>)
  next
    case False
    with assms(2) obtain rest where l: "sv_task s = E_write rest"
      by (auto simp: write_chunk_def split: if_splits loop_state.splits event_state.splits)
    with False assms n have len: "n \<le> length rest"
      and u: "u = put (take n rest)
                    (s\<lparr>sv_task := if n = length rest then E_recv else E_write (drop n rest)\<rparr>)"
      by (auto simp: write_chunk_def split: if_splits loop_state.splits)
    have t: "loop_rest (sv_loop s) = []"
      using False by (intro rest_other) auto
    show ?thesis
      unfolding u
      by (rule wire_inv_put [OF assms(1), where y = "drop n rest"])
        (use assms(1) l t n len False in \<open>auto simp: pending_out_def wire_inv_def\<close>)
  qed
qed

text \<open>Once the stream takes nothing more, or both tasks are over, nothing has to be completed.\<close>

lemma wire_inv_prefix: "wire_inv j s \<Longrightarrow> prefix (sv_written s) (wire j (sv_frames s))"
  unfolding wire_inv_def by (elim conjE disjE) (metis prefixI, simp)

lemma wire_inv_stopped:
  assumes "wire_inv j s" and "stopped_writing t" and "sv_written t = sv_written s"
    and "sv_frames t = sv_frames s"
    and "\<forall>a b. sv_loop t = L_write a \<longrightarrow> sv_task t \<noteq> E_write b"
    and "\<forall>ev bs. sv_task t = E_send ev bs \<longrightarrow> server_frame_to_vec j (Event ev) = Some bs"
  shows "wire_inv j t"
  using assms wire_inv_prefix [OF assms(1)] by (auto simp: wire_inv_def)

lemma wire_inv_write_error:
  assumes "wire_inv j s" and "write_error s = Some u"
  shows "wire_inv j u"
proof -
  have room: "sv_room s = Some 0" using assms(2) by (auto simp: write_error_def split: if_splits)
  with assms(2) have "u = s\<lparr>sv_loop := L_done\<rparr> \<or> u = s\<lparr>sv_task := E_done\<rparr>"
    by (auto simp: write_error_def split: if_splits loop_state.splits event_state.splits)
  then show ?thesis
    by (elim disjE; intro wire_inv_stopped [OF assms(1)])
      (use room assms(1) in \<open>auto simp: stopped_writing_def wire_inv_def\<close>)
qed

lemma wire_inv_abort: "wire_inv j s \<Longrightarrow> abort_events s = Some u \<Longrightarrow> wire_inv j u"
  by (erule wire_inv_stopped) (auto simp: abort_events_def stopped_writing_def split: if_splits)

lemma wire_inv_reach: "server_reach j s u \<Longrightarrow> wire_inv j s \<Longrightarrow> wire_inv j u"
proof (induction rule: server_reach.induct)
  case (reach_start s)
  then show ?case .
next
  case (reach_act s t a u)
  then have t: "wire_inv j t" by blast
  from reach_act.hyps(2) show ?case
    by (cases a) (auto intro: wire_inv_loop_read [OF t] wire_inv_loop_handled [OF t] wire_inv_loop_respond [OF t]
        wire_inv_push [OF t] wire_inv_recv [OF t] wire_inv_task_send [OF t] wire_inv_write_chunk [OF t]
        wire_inv_write_error [OF t] wire_inv_abort [OF t])
qed

section \<open>The loop\<close>

text \<open>The request being handled, the response not yet begun, and why the loop ended.\<close>

fun current :: "loop_state \<Rightarrow> ipc_request list" where
  "current (L_handle q) = [q]"
| "current _ = []"

fun owed :: "loop_state \<Rightarrow> ipc_response list" where
  "owed (L_respond r) = [r]"
| "owed _ = []"

definition ended :: "json_codec \<Rightarrow> bytes \<Rightarrow> server \<Rightarrow> bool" where
  "ended j J s \<longleftrightarrow>
     (let bufs = fst (read_frames J); n = length (sv_served s); begun = responses_of (sv_frames s)
      in map snd (sv_served s) = begun \<and>
           (n < length bufs \<longrightarrow> request_from_slice j (bufs ! n) = None \<or> sv_room s = Some 0) \<or>
         (\<exists>r. map snd (sv_served s) = begun @ [r] \<and> \<not> fits j (Response r)))"

definition loop_inv :: "json_codec \<Rightarrow> bytes \<Rightarrow> server \<Rightarrow> bool" where
  "loop_inv j J s \<longleftrightarrow>
     (\<exists>bs rest. fst (read_frames J) = bs @ rest \<and>
        map (request_from_slice j) bs = map Some (map fst (sv_served s) @ current (sv_loop s)) \<and>
        (sv_loop s \<noteq> L_done \<longrightarrow> rest = fst (read_frames (sv_input s)))) \<and>
     (if sv_loop s = L_done then ended j J s
      else map snd (sv_served s) = responses_of (sv_frames s) @ owed (sv_loop s))"

lemma loop_inv_new: "loop_inv j J (server_new J room)"
  by (simp add: loop_inv_def server_new_def)

text \<open>The loop ends when no frame is left, or when the next one is no request.\<close>

lemma loop_inv_end:
  assumes inv: "loop_inv j J s" and l: "sv_loop s = L_read"
    and "fst (read_frames (sv_input s)) = [] \<or> request_from_slice j (hd (fst (read_frames (sv_input s)))) = None"
  shows "loop_inv j J (s\<lparr>sv_input := i, sv_loop := L_done\<rparr>)"
proof -
  from inv l obtain bs where bs: "fst (read_frames J) = bs @ fst (read_frames (sv_input s))"
    and qs: "map (request_from_slice j) bs = map Some (map fst (sv_served s))"
    and rs: "map snd (sv_served s) = responses_of (sv_frames s)"
    by (auto simp: loop_inv_def)
  have "length (sv_served s) = length bs"
    using arg_cong [OF qs, of length] by simp
  moreover have "fst (read_frames (sv_input s)) = [] \<or>
      request_from_slice j (fst (read_frames J) ! length bs) = None"
    using assms(3) by (cases "fst (read_frames (sv_input s))") (simp_all add: bs)
  ultimately show ?thesis
    using qs rs unfolding loop_inv_def
    by (intro conjI exI [of _ bs] exI [of _ "fst (read_frames (sv_input s))"]) (auto simp: bs ended_def Let_def)
qed

lemma loop_inv_request:
  assumes inv: "loop_inv j J s" and l: "sv_loop s = L_read"
    and next_frame: "fst (read_frames (sv_input s)) = b # fst (read_frames i)" and "request_from_slice j b = Some q"
  shows "loop_inv j J (s\<lparr>sv_input := i, sv_loop := L_handle q\<rparr>)"
proof -
  from inv l obtain bs where bs: "fst (read_frames J) = bs @ fst (read_frames (sv_input s))"
    and qs: "map (request_from_slice j) bs = map Some (map fst (sv_served s))"
    and rs: "map snd (sv_served s) = responses_of (sv_frames s)"
    by (auto simp: loop_inv_def)
  have "fst (read_frames J) = (bs @ [b]) @ fst (read_frames i)"
    using bs next_frame by simp
  moreover have "map (request_from_slice j) (bs @ [b]) = map Some (map fst (sv_served s) @ [q])"
    using qs assms(4) by simp
  ultimately show ?thesis
    using rs unfolding loop_inv_def
    by (intro conjI exI [of _ "bs @ [b]"] exI [of _ "fst (read_frames i)"]) simp_all
qed

lemma loop_inv_read:
  assumes "loop_inv j J s" and "loop_read j s = Some u"
  shows "loop_inv j J u"
proof -
  from assms(2) have l: "sv_loop s = L_read" by (auto simp: loop_read_def split: loop_state.splits)
  obtain r i where frame: "read_frame (sv_input s) = (r, i)" by fastforce
  note ends = loop_inv_end [OF assms(1) l, of i] and goes_on = loop_inv_request [OF assms(1) l, of _ i]
  show ?thesis
  proof (cases r)
    case (Inl e)
    with frame have "fst (read_frames (sv_input s)) = []"
      by (simp add: read_frames.simps [of "sv_input s"])
    with ends show ?thesis
      using assms(2) l frame Inl by (simp add: loop_read_def)
  next
    case (Inr b)
    with frame have "fst (read_frames (sv_input s)) = b # fst (read_frames i)"
      by (simp add: read_frames.simps [of "sv_input s"] split: prod.split)
    with ends goes_on show ?thesis
      using assms(2) l frame Inr by (auto simp: loop_read_def split: option.splits)
  qed
qed

lemma loop_inv_handled: "loop_inv j J s \<Longrightarrow> loop_handled r s = Some u \<Longrightarrow> loop_inv j J u"
  by (auto simp: loop_inv_def loop_handled_def split: loop_state.splits)

lemma loop_inv_respond:
  assumes "loop_inv j J s" and "loop_respond j s = Some u"
  shows "loop_inv j J u"
proof -
  from assms(2) obtain r where r: "sv_loop s = L_respond r"
    by (auto simp: loop_respond_def split: loop_state.splits)
  show ?thesis
  proof (cases "fits j (Response r)")
    case True
    with assms(2) r obtain bs where "u = s\<lparr>sv_loop := L_write bs, sv_frames := sv_frames s @ [Response r]\<rparr>"
      by (auto simp: loop_respond_def fits_def split: option.splits if_splits)
    with assms(1) r show ?thesis by (simp add: loop_inv_def)
  next
    case False
    with assms(2) r have u: "u = s\<lparr>sv_loop := L_done\<rparr>"
      by (auto simp: loop_respond_def fits_def split: option.splits if_splits)
    from assms(1) r have "map snd (sv_served s) = responses_of (sv_frames s) @ [r]"
      by (simp add: loop_inv_def)
    with False have "ended j J u" by (auto simp: u ended_def Let_def)
    with assms(1) r show ?thesis by (auto simp: u loop_inv_def)
  qed
qed

text \<open>The other steps leave the loop as it is, or end it on a failed write.\<close>

lemma loop_inv_rest:
  assumes "loop_inv j J s" and "sv_input u = sv_input s" and "sv_served u = sv_served s"
    and "responses_of (sv_frames u) = responses_of (sv_frames s)"
    and "sv_room s = Some 0 \<longrightarrow> sv_room u = Some 0"
    and "sv_loop u = sv_loop s \<or> (\<exists>bs. sv_loop s = L_write bs) \<and>
      (sv_loop u = L_read \<or> (\<exists>bs. sv_loop u = L_write bs) \<or> sv_loop u = L_done \<and> sv_room s = Some 0)"
  shows "loop_inv j J u"
proof (cases "sv_loop u = sv_loop s")
  case True
  with assms show ?thesis by (auto simp: loop_inv_def ended_def Let_def)
next
  case False
  with assms show ?thesis by (auto simp: loop_inv_def ended_def Let_def)
qed

lemma loop_inv_reach: "server_reach j s u \<Longrightarrow> loop_inv j J s \<Longrightarrow> loop_inv j J u"
proof (induction rule: server_reach.induct)
  case (reach_start s)
  then show ?case .
next
  case (reach_act s t a u)
  then have t: "loop_inv j J t" by blast
  show ?case
  proof (cases a)
    case Read_request
    then show ?thesis using loop_inv_read [OF t] reach_act.hyps(2) by simp
  next
    case (Handled r)
    then show ?thesis using loop_inv_handled [OF t] reach_act.hyps(2) by simp
  next
    case Start_response
    then show ?thesis using loop_inv_respond [OF t] reach_act.hyps(2) by simp
  next
    case (Push_event ev)
    then show ?thesis using reach_act.hyps(2)
      by (intro loop_inv_rest [OF t]) (auto simp: push_event_def split: if_splits)
  next
    case Take_event
    then show ?thesis using reach_act.hyps(2)
      by (intro loop_inv_rest [OF t])
        (auto simp: task_recv_def split: event_state.splits list.splits option.splits)
  next
    case Start_event
    then show ?thesis using reach_act.hyps(2)
      by (intro loop_inv_rest [OF t]) (auto simp: task_send_def split: event_state.splits if_splits)
  next
    case (Write_chunk n)
    then have "write_chunk n t = Some u" using reach_act.hyps(2) by simp
    then show ?thesis
      by (intro loop_inv_rest [OF t])
        (auto simp: write_chunk_def put_def room_for_def split: if_splits loop_state.splits event_state.splits)
  next
    case Write_error
    then have "write_error t = Some u" using reach_act.hyps(2) by simp
    then show ?thesis
      by (intro loop_inv_rest [OF t])
        (auto simp: write_error_def split: if_splits loop_state.splits event_state.splits)
  next
    case Abort_events
    then show ?thesis using reach_act.hyps(2)
      by (intro loop_inv_rest [OF t]) (auto simp: abort_events_def split: if_splits)
  qed
qed

section \<open>Properties\<close>

text \<open>A request is answered while an event is on its way; then the peer hangs up.\<close>

definition demo_actions :: "server_action list" where
  "demo_actions =
     [Read_request, Push_event demo_event, Take_event, Start_event, Write_chunk 3,
      Handled demo_response, Write_chunk 2, Start_response, Write_chunk 5, Read_request]"

text \<open>
  C15.  What the peer of a connection reads: the bytes written are always the start of a sequence
  of complete frames, whatever the two tasks were doing when they interleaved, failed or were
  aborted; the responses among them come in the order of the requests, at most one for each,
  and are what the handler returned; and the requests handled are the first frames received.
\<close>

theorem server_stream:
  assumes "server_reach j (server_new J room) s"
  shows "prefix (sv_written s) (wire j (sv_frames s)) \<and> list_all (fits j) (sv_frames s) \<and>
    prefix (responses_of (sv_frames s)) (map snd (sv_served s)) \<and>
    map (request_from_slice j) (take (length (sv_served s)) (fst (read_frames J))) =
      map (\<lambda>(q, r). Some q) (sv_served s)"
proof -
  have w: "wire_inv j s" and l: "loop_inv j J s"
    using wire_inv_reach loop_inv_reach assms wire_inv_new loop_inv_new by blast+
  have "prefix (responses_of (sv_frames s)) (map snd (sv_served s))"
    using l by (auto simp: loop_inv_def ended_def Let_def split: if_splits)
  moreover have "map (request_from_slice j) (take (length (sv_served s)) (fst (read_frames J))) =
      map (\<lambda>(q, r). Some q) (sv_served s)"
  proof -
    from l obtain bs rest where "fst (read_frames J) = bs @ rest"
      and bs: "map (request_from_slice j) bs = map Some (map fst (sv_served s) @ current (sv_loop s))"
      unfolding loop_inv_def by blast
    moreover have "length (sv_served s) \<le> length bs"
      using map_eq_imp_length_eq [OF bs] by simp
    ultimately have "take (length (sv_served s)) (fst (read_frames J)) = take (length (sv_served s)) bs"
      by simp
    moreover have "map (request_from_slice j) (take (length (sv_served s)) bs) = map Some (map fst (sv_served s))"
      using arg_cong [OF bs, of "take (length (sv_served s))"] by (simp add: take_map)
    ultimately show ?thesis by (simp add: split_beta comp_def)
  qed
  ultimately show ?thesis
    using w wire_inv_prefix [OF w] by (simp add: wire_inv_def)
qed

theorem server_stream_witness:
  "case server_run tiny_codec demo_actions (server_new (frame [49]) None) of
     None \<Rightarrow> False
   | Some s \<Rightarrow> sv_loop s = L_done \<and> sv_written s = [0, 0, 0, 1, 255, 0, 0, 0, 1, 55] \<and>
       prefix (sv_written s) (wire tiny_codec (sv_frames s))"
proof -
  define s where "s = the (server_run tiny_codec demo_actions (server_new (frame [49]) None))"
  have run: "server_run tiny_codec demo_actions (server_new (frame [49]) None) = Some s"
    and written: "sv_loop s = L_done" "sv_written s = [0, 0, 0, 1, 255, 0, 0, 0, 1, 55]"
    by (simp_all add: s_def demo_actions_def server_new_def server_step_defs writer_locked_def
        demo_frames demo_texts read_frame_Nil MAX_IPC_FRAME_BYTES_def)
  have "server_reach tiny_codec (server_new (frame [49]) None) s"
    using server_run_reach [OF run reach_start] .
  from server_stream [OF this] show ?thesis by (simp add: run written)
qed

text \<open>
  C28.  Why a connection ends: when its loop has stopped, either every request received was
  answered and the next frame is missing or malformed, or the peer no longer takes bytes, or the
  last response could not be sent because it has no JSON text or is longer than 6 MiB.
\<close>

theorem server_end:
  assumes "server_reach j (server_new J room) s" and "sv_loop s = L_done"
  shows "let bufs = fst (read_frames J); n = length (sv_served s); begun = responses_of (sv_frames s)
    in map snd (sv_served s) = begun \<and>
         (n < length bufs \<longrightarrow> request_from_slice j (bufs ! n) = None \<or> sv_room s = Some 0) \<or>
       (\<exists>r. map snd (sv_served s) = begun @ [r] \<and> \<not> fits j (Response r))"
  using loop_inv_reach [OF assms(1) loop_inv_new] assms(2) by (simp add: loop_inv_def ended_def)

definition huge_text :: bytes where
  "huge_text = replicate (Suc MAX_IPC_FRAME_BYTES) 32"

definition huge_codec :: json_codec where
  "huge_codec = table_codec (\<lambda>v. Some huge_text) [[49] \<mapsto> request_json hex_codec demo_request]"

lemma huge_texts:
  "request_from_slice huge_codec [49] = Some demo_request"
  "server_frame_to_vec huge_codec f = Some huge_text" "length huge_text = Suc MAX_IPC_FRAME_BYTES"
  by (simp_all add: request_from_slice_def server_frame_to_vec_def huge_codec_def huge_text_def)

theorem server_end_witness:
  "case server_run huge_codec [Read_request, Handled demo_response, Start_response]
      (server_new (frame [49]) None) of
     None \<Rightarrow> False
   | Some s \<Rightarrow> sv_loop s = L_done \<and> sv_written s = [] \<and>
       (\<exists>r. map snd (sv_served s) = responses_of (sv_frames s) @ [r] \<and> \<not> fits huge_codec (Response r))"
proof -
  define as where "as = [Read_request, Handled demo_response, Start_response]"
  define s where "s = the (server_run huge_codec as (server_new (frame [49]) None))"
  have run: "server_run huge_codec as (server_new (frame [49]) None) = Some s"
    and at_end: "sv_loop s = L_done" "sv_written s = []" "sv_served s \<noteq> []" "sv_frames s = []"
    by (simp_all add: s_def as_def server_new_def server_step_defs writer_locked_def
        demo_frames huge_texts)
  have "server_reach huge_codec (server_new (frame [49]) None) s"
    using server_run_reach [OF run reach_start] .
  from server_end [OF this at_end(1)] at_end show ?thesis
    by (auto simp: run as_def [symmetric] Let_def)
qed

fun loop_stage :: "loop_state \<Rightarrow> nat" where
  "loop_stage (L_handle _) = 4"
| "loop_stage (L_respond _) = 3"
| "loop_stage (L_write _) = 2"
| "loop_stage L_read = 1"
| "loop_stage L_done = 0"

fun task_stage :: "event_state \<Rightarrow> nat" where
  "task_stage (E_send _ _) = 3"
| "task_stage (E_write _) = 2"
| "task_stage E_recv = 1"
| "task_stage E_done = 0"

definition server_order :: "(server \<times> server) set" where
  "server_order = measures
     [\<lambda>s. length (sv_input s), \<lambda>s. loop_stage (sv_loop s), \<lambda>s. length (loop_rest (sv_loop s)),
      \<lambda>s. length (sv_chan s), \<lambda>s. task_stage (sv_task s), \<lambda>s. length (task_rest (sv_task s))]"

lemma read_frame_le: "read_frame r = (x, r') \<Longrightarrow> length r' \<le> length r"
  by (auto simp: read_frame_def read_exact_def split: if_splits sum.splits io_error.splits prod.splits)

lemma server_order_step:
  assumes "handle_connection j a s = Some u" and "\<forall>ev. a \<noteq> Push_event ev"
  shows "(u, s) \<in> server_order"
proof (cases a)
  case Read_request
  with assms(1) show ?thesis
    using read_frame_le [of "sv_input s"] read_frame_shorter [of "sv_input s"]
    by (auto simp: server_order_def loop_read_def le_less split: loop_state.splits prod.splits sum.splits option.splits)
next
  case (Push_event ev)
  with assms(2) show ?thesis by simp
next
  case Take_event
  with assms(1) show ?thesis
    by (auto simp: server_order_def task_recv_def split: event_state.splits list.splits option.splits)
next
  case (Write_chunk n)
  with assms(1) have "write_chunk n s = Some u" by simp
  then show ?thesis
    by (auto simp: server_order_def write_chunk_def put_def
        split: if_splits loop_state.splits event_state.splits)
next
  case Abort_events
  with assms(1) show ?thesis
    by (cases "sv_task s") (auto simp: server_order_def abort_events_def split: if_splits)
qed (use assms(1) in \<open>auto simp: server_order_def loop_handled_def loop_respond_def task_send_def write_error_def
      split: loop_state.splits event_state.splits option.splits if_splits\<close>)

definition whole_rest :: "server \<Rightarrow> bool" where
  "whole_rest s \<longleftrightarrow> sv_loop s \<noteq> L_write [] \<and> sv_task s \<noteq> E_write []"

lemma whole_rest_step: "whole_rest s \<Longrightarrow> handle_connection j a s = Some u \<Longrightarrow> whole_rest u"
  by (cases a) (auto simp: whole_rest_def server_step_defs frame_def to_be_bytes_def
      split: loop_state.splits event_state.splits option.splits if_splits prod.splits sum.splits list.splits)

lemma whole_rest_reach: "server_reach j s u \<Longrightarrow> whole_rest s \<Longrightarrow> whole_rest u"
  by (induction rule: server_reach.induct) (auto intro: whole_rest_step)

lemma writer_progress:
  assumes "writer_locked s" and "whole_rest s"
  shows "\<exists>a u. (\<forall>ev. a \<noteq> Push_event ev) \<and> handle_connection j a s = Some u"
proof (cases "sv_room s = Some 0")
  case True
  then have "\<exists>u. handle_connection j Write_error s = Some u"
    using assms(1) by (auto simp: writer_locked_def write_error_def split: loop_state.splits event_state.splits)
  then show ?thesis by blast
next
  case False
  then have "room_for 1 s" by (auto simp: room_for_def split: option.split)
  then have "\<exists>u. handle_connection j (Write_chunk 1) s = Some u"
    using assms
    by (auto simp: writer_locked_def whole_rest_def write_chunk_def not_less_eq_eq
        split: loop_state.splits event_state.splits)
  then show ?thesis by blast
qed

lemma server_progress:
  assumes "whole_rest s" and "sv_loop s \<noteq> L_done \<or> sv_task s \<noteq> E_done"
  shows "\<exists>a u. (\<forall>ev. a \<noteq> Push_event ev) \<and> handle_connection j a s = Some u"
proof (cases "writer_locked s")
  case True
  with assms show ?thesis by (intro writer_progress)
next
  case False
  have step: "\<exists>a u. (\<forall>ev. a \<noteq> Push_event ev) \<and> handle_connection j a s = Some u"
    if "handle_connection j a s \<noteq> None" "\<forall>ev. a \<noteq> Push_event ev" for a
    using that by (intro exI [of _ a]) auto
  show ?thesis
  proof (cases "sv_loop s")
    case L_read
    then show ?thesis
      by (intro step [of Read_request]) (auto simp: loop_read_def split: prod.split sum.split option.split)
  next
    case (L_handle q)
    then show ?thesis by (intro step [of "Handled demo_response"]) (auto simp: loop_handled_def)
  next
    case (L_respond r)
    then show ?thesis using False
      by (intro step [of Start_response]) (auto simp: loop_respond_def split: option.split)
  next
    case (L_write rest)
    then show ?thesis using False by (simp add: writer_locked_def)
  next
    case L_done
    then show ?thesis using assms(2) by (intro step [of Abort_events]) (auto simp: abort_events_def)
  qed
qed

text \<open>
  C27.  A connection never runs forever on its own and never gets stuck: without new events every
  sequence of its steps is finite, whatever the handler answers, and as long as its two tasks are
  not both over, some step other than a new event is possible.
\<close>

theorem server_terminates:
  assumes "server_reach j (server_new J room) s"
  shows "wf {(u, t). \<exists>a. (\<forall>ev. a \<noteq> Push_event ev) \<and> handle_connection j a t = Some u} \<and>
    ((\<nexists>a u. (\<forall>ev. a \<noteq> Push_event ev) \<and> handle_connection j a s = Some u) \<longleftrightarrow>
     sv_loop s = L_done \<and> sv_task s = E_done)"
proof (intro conjI iffI)
  show "wf {(u, t). \<exists>a. (\<forall>ev. a \<noteq> Push_event ev) \<and> handle_connection j a t = Some u}"
    by (rule wf_subset [of server_order])
      (auto simp: server_order_def intro: server_order_step [unfolded server_order_def])
next
  have "whole_rest s"
    by (rule whole_rest_reach [OF assms]) (simp add: whole_rest_def server_new_def)
  moreover assume "\<nexists>a u. (\<forall>ev. a \<noteq> Push_event ev) \<and> handle_connection j a s = Some u"
  ultimately show "sv_loop s = L_done" "sv_task s = E_done"
    using server_progress [of s j] by blast+
next
  assume "sv_loop s = L_done \<and> sv_task s = E_done"
  then have "handle_connection j a s = None" for a
    by (cases a) (auto simp: server_step_defs)
  then show "\<nexists>a u. (\<forall>ev. a \<noteq> Push_event ev) \<and> handle_connection j a s = Some u" by simp
qed

theorem server_terminates_witness:
  "\<exists>a u. (\<forall>ev. a \<noteq> Push_event ev) \<and> handle_connection tiny_codec a (server_new [] None) = Some u"
  using server_terminates [OF reach_start [of tiny_codec "server_new [] None"]]
  by (simp add: server_new_def)

end
