(* ===== verification/Lcp_Client.thy ===== *)
theory Lcp_Client
  imports Lcp_Codec
begin

text \<open>
  The CLI's side of an IPC connection (\<open>IpcClient\<close> of \<open>lcp-ipc/src/client.rs\<close>): a loop that
  takes calls from a queue, registers each under its request id and writes it, and a reader that
  hands every response to the call with its id.  Calls are numbered in the order they are made;
  the slot of a call is its one-shot channel.  A step is what happens between two awaits.
\<close>

section \<open>State\<close>

datatype slot = Pending | Reply ipc_response | Disconnected

text \<open>
  \<open>cl_running\<close> and \<open>cl_reading\<close>: the loop of \<open>run\<close> and its read task are alive.  The last two
  fields are a history: all calls, and those whose frame was begun.
\<close>

record client =
  cl_in :: bytes
  cl_out :: sink
  cl_queue :: "(ipc_request \<times> nat) list"
  cl_waiting :: "uuid \<Rightarrow> nat option"
  cl_slots :: "nat \<Rightarrow> slot"
  cl_inbox :: "ipc_event list"
  cl_running :: bool
  cl_reading :: bool
  cl_calls :: "ipc_request list"
  cl_sent :: "ipc_request list"

definition client_spawn :: "bytes \<Rightarrow> nat option \<Rightarrow> client" where
  "client_spawn input room =
     \<lparr>cl_in = input, cl_out = ([], room), cl_queue = [], cl_waiting = Map.empty,
      cl_slots = (\<lambda>_. Pending), cl_inbox = [], cl_running = True, cl_reading = True,
      cl_calls = [], cl_sent = []\<rparr>"

text \<open>Dropping the senders of some calls resolves them as disconnected.\<close>

definition drop_slots :: "nat set \<Rightarrow> client \<Rightarrow> client" where
  "drop_slots ns s = s\<lparr>cl_slots := (\<lambda>n. if n \<in> ns then Disconnected else cl_slots s n)\<rparr>"

section \<open>Steps\<close>

definition client_call :: "ipc_request \<Rightarrow> client \<Rightarrow> client" where
  "client_call q s =
     (let n = length (cl_calls s); s1 = s\<lparr>cl_calls := cl_calls s @ [q]\<rparr>
      in if cl_running s then s1\<lparr>cl_queue := cl_queue s @ [(q, n)]\<rparr>
         else drop_slots {n} s1)"

definition run_send :: "json_codec \<Rightarrow> client \<Rightarrow> client option" where
  "run_send j s =
     (if \<not> cl_running s then None
      else case cl_queue s of
             [] \<Rightarrow> None
           | (q, n) # rest \<Rightarrow>
               (let s1 = drop_slots {m. cl_waiting s (rq_id q) = Some m}
                      (s\<lparr>cl_queue := rest, cl_waiting := (cl_waiting s)(rq_id q \<mapsto> n)\<rparr>)
                in case request_to_vec j q of
                     None \<Rightarrow> Some s1
                   | Some bs \<Rightarrow>
                       (case write_frame (cl_out s) bs of
                          (Inl (FProtocol e), w) \<Rightarrow>
                            Some (drop_slots (snd ` set rest) (s1\<lparr>cl_out := w, cl_queue := [], cl_running := False\<rparr>))
                        | (Inl e, w) \<Rightarrow>
                            Some (drop_slots (snd ` set rest)
                              (s1\<lparr>cl_out := w, cl_queue := [], cl_running := False, cl_sent := cl_sent s @ [q]\<rparr>))
                        | (Inr _, w) \<Rightarrow> Some (s1\<lparr>cl_out := w, cl_sent := cl_sent s @ [q]\<rparr>))))"

definition read_task :: "json_codec \<Rightarrow> client \<Rightarrow> client option" where
  "read_task j s =
     (if \<not> cl_reading s then None
      else case read_frame (cl_in s) of
             (Inl e, r) \<Rightarrow> Some (s\<lparr>cl_in := r, cl_reading := False\<rparr>)
           | (Inr bs, r) \<Rightarrow>
               (let s1 = s\<lparr>cl_in := r\<rparr>
                in case server_frame_from_slice j bs of
                     Some (Response resp) \<Rightarrow>
                       (case cl_waiting s (rs_id resp) of
                          Some n \<Rightarrow>
                            Some (s1\<lparr>cl_waiting := (cl_waiting s)(rs_id resp := None),
                                     cl_slots := (cl_slots s)(n := Reply resp)\<rparr>)
                        | None \<Rightarrow> Some s1)
                   | Some (Event ev) \<Rightarrow> Some (s1\<lparr>cl_inbox := cl_inbox s @ [ev]\<rparr>)
                   | None \<Rightarrow> Some s1))"

text \<open>
  After the loop: the read task is aborted, and the map of waiting calls is dropped with the last
  task that shares it.
\<close>

definition run_end :: "client \<Rightarrow> client option" where
  "run_end s =
     (if cl_running s \<or> \<not> cl_reading s \<and> cl_waiting s = Map.empty then None
      else Some (drop_slots (ran (cl_waiting s)) (s\<lparr>cl_reading := False, cl_waiting := Map.empty\<rparr>)))"

text \<open>Dropping the client ends the loop; a call in progress still borrows it.\<close>

definition client_drop :: "client \<Rightarrow> client option" where
  "client_drop s =
     (if cl_running s \<and> cl_queue s = [] \<and> list_all (\<lambda>n. cl_slots s n \<noteq> Pending) [0..<length (cl_calls s)]
      then Some (s\<lparr>cl_running := False\<rparr>) else None)"

text \<open>\<open>next_event\<close>: an event, or the end once the reader is gone; \<open>None\<close> as long as it waits.\<close>

definition next_event :: "client \<Rightarrow> (ipc_event option \<times> client) option" where
  "next_event s =
     (case cl_inbox s of
        ev # evs \<Rightarrow> Some (Some ev, s\<lparr>cl_inbox := evs\<rparr>)
      | [] \<Rightarrow> if cl_reading s then None else Some (None, s))"

datatype client_action = Call ipc_request | Send_request | Receive | End_run | Drop_client | Next_event

fun client_step :: "json_codec \<Rightarrow> client_action \<Rightarrow> client \<Rightarrow> client option" where
  "client_step j (Call q) s = Some (client_call q s)"
| "client_step j Send_request s = run_send j s"
| "client_step j Receive s = read_task j s"
| "client_step j End_run s = run_end s"
| "client_step j Drop_client s = client_drop s"
| "client_step j Next_event s = map_option snd (next_event s)"

inductive client_reach :: "json_codec \<Rightarrow> client \<Rightarrow> client \<Rightarrow> bool" for j where
  client_start: "client_reach j s s"
| client_act: "client_reach j s t \<Longrightarrow> client_step j a t = Some u \<Longrightarrow> client_reach j s u"

primrec client_run :: "json_codec \<Rightarrow> client_action list \<Rightarrow> client \<Rightarrow> client option" where
  "client_run j [] s = Some s"
| "client_run j (a # as) s = Option.bind (client_step j a s) (client_run j as)"

lemma client_run_reach: "client_run j as t = Some u \<Longrightarrow> client_reach j s t \<Longrightarrow> client_reach j s u"
proof (induction as arbitrary: t)
  case Nil
  then show ?case by simp
next
  case (Cons a as)
  then show ?case by (auto split: Option.bind_splits intro: client_act)
qed

section \<open>Invariants\<close>

text \<open>
  Every call that is still queued or registered waits, under its own number and id; each once.
\<close>

definition calls_inv :: "client \<Rightarrow> bool" where
  "calls_inv s \<longleftrightarrow>
     distinct (map snd (cl_queue s)) \<and>
     (\<forall>(q, n) \<in> set (cl_queue s). n < length (cl_calls s) \<and> cl_calls s ! n = q \<and> cl_slots s n = Pending \<and>
        (\<forall>i. cl_waiting s i \<noteq> Some n)) \<and>
     (\<forall>i n. cl_waiting s i = Some n \<longrightarrow>
        n < length (cl_calls s) \<and> rq_id (cl_calls s ! n) = i \<and> cl_slots s n = Pending) \<and>
     (\<forall>n \<ge> length (cl_calls s). cl_slots s n = Pending) \<and>
     (\<not> cl_running s \<longrightarrow> cl_queue s = [])"

text \<open>Every reply was read from the stream and carries the id of its call.\<close>

definition replies_inv :: "json_codec \<Rightarrow> bytes \<Rightarrow> client \<Rightarrow> bool" where
  "replies_inv j I s \<longleftrightarrow>
     (\<exists>bs rest. fst (read_frames I) = bs @ rest \<and>
        (cl_reading s \<longrightarrow> rest = fst (read_frames (cl_in s))) \<and>
        (\<forall>n r. cl_slots s n = Reply r \<longrightarrow>
           n < length (cl_calls s) \<and> rs_id r = rq_id (cl_calls s ! n) \<and>
           Some (Response r) \<in> server_frame_from_slice j ` set bs))"

definition request_wire :: "json_codec \<Rightarrow> ipc_request list \<Rightarrow> bytes" where
  "request_wire j qs = concat (map (\<lambda>q. frame (the (request_to_vec j q))) qs)"

definition sendable_request :: "json_codec \<Rightarrow> ipc_request \<Rightarrow> bool" where
  "sendable_request j q \<longleftrightarrow>
     (\<exists>bs. request_to_vec j q = Some bs \<and> length bs \<le> MAX_IPC_FRAME_BYTES)"

text \<open>The bytes written are frames of the calls, in their order; the last may be cut off.\<close>

definition sent_inv :: "json_codec \<Rightarrow> client \<Rightarrow> bool" where
  "sent_inv j s \<longleftrightarrow>
     subseq (cl_sent s @ map fst (cl_queue s)) (cl_calls s) \<and>
     list_all (sendable_request j) (cl_sent s) \<and>
     (fst (cl_out s) = request_wire j (cl_sent s) \<or>
      \<not> cl_running s \<and> prefix (fst (cl_out s)) (request_wire j (cl_sent s)))"

lemma drop_slots_sel [simp]:
  "cl_in (drop_slots ns s) = cl_in s" "cl_out (drop_slots ns s) = cl_out s"
  "cl_queue (drop_slots ns s) = cl_queue s" "cl_waiting (drop_slots ns s) = cl_waiting s"
  "cl_slots (drop_slots ns s) = (\<lambda>n. if n \<in> ns then Disconnected else cl_slots s n)"
  "cl_inbox (drop_slots ns s) = cl_inbox s" "cl_running (drop_slots ns s) = cl_running s"
  "cl_reading (drop_slots ns s) = cl_reading s" "cl_calls (drop_slots ns s) = cl_calls s"
  "cl_sent (drop_slots ns s) = cl_sent s"
  by (simp_all add: drop_slots_def)

lemma write_frame_cases:
  assumes "write_frame (out, room) bs = (r, w)"
  shows "case r of
      Inr _ \<Rightarrow> length bs \<le> MAX_IPC_FRAME_BYTES \<and> fst w = out @ frame bs
    | Inl (FProtocol e) \<Rightarrow> w = (out, room) \<and> length bs > MAX_IPC_FRAME_BYTES
    | Inl _ \<Rightarrow> length bs \<le> MAX_IPC_FRAME_BYTES \<and> prefix (fst w) (out @ frame bs)"
proof -
  have p: "prefix (take k xs) (xs @ ys)" for k and xs ys :: bytes
    by (metis append.assoc append_take_drop_id prefixI)
  show ?thesis
    using assms p [of _ "to_be_bytes (of_nat (length bs))" bs] p [of _ bs "[]"]
    by (auto simp: write_frame_def write_all_def frame_def split: if_splits option.splits)
qed

text \<open>The request that the loop takes from the queue, apart from what it does with the slots.\<close>

lemma run_sendE:
  assumes "run_send j s = Some u"
  obtains q n rest u' where "cl_running s" and "cl_queue s = (q, n) # rest"
    and "u = u' \<or> u = drop_slots (snd ` set rest) u'"
    and "cl_in u' = cl_in s" "cl_waiting u' = (cl_waiting s)(rq_id q \<mapsto> n)" "cl_calls u' = cl_calls s"
    "cl_inbox u' = cl_inbox s" "cl_reading u' = cl_reading s"
    "cl_slots u' = (\<lambda>m. if cl_waiting s (rq_id q) = Some m then Disconnected else cl_slots s m)"
    and "u = u' \<and> cl_running u \<and> cl_queue u = rest \<or>
      u = drop_slots (snd ` set rest) u' \<and> \<not> cl_running u \<and> cl_queue u = []"
proof -
  from assms obtain q n rest where run: "cl_running s" and queue: "cl_queue s = (q, n) # rest"
    by (auto simp: run_send_def split: if_splits list.splits)
  define s1 where "s1 = drop_slots {m. cl_waiting s (rq_id q) = Some m}
    (s\<lparr>cl_queue := rest, cl_waiting := (cl_waiting s)(rq_id q \<mapsto> n)\<rparr>)"
  have sel: "cl_in s1 = cl_in s" "cl_waiting s1 = (cl_waiting s)(rq_id q \<mapsto> n)" "cl_calls s1 = cl_calls s"
    "cl_inbox s1 = cl_inbox s" "cl_reading s1 = cl_reading s" "cl_running s1" "cl_queue s1 = rest"
    "cl_slots s1 = (\<lambda>m. if cl_waiting s (rq_id q) = Some m then Disconnected else cl_slots s m)"
    using run by (auto simp: s1_def fun_eq_iff)
  consider (skip) "u = s1" | (sends) w where "u = s1\<lparr>cl_out := w, cl_sent := cl_sent s @ [q]\<rparr>"
    | (over) w where "u = drop_slots (snd ` set rest) (s1\<lparr>cl_out := w, cl_queue := [], cl_running := False\<rparr>)"
    | (fails) w where "u = drop_slots (snd ` set rest)
        (s1\<lparr>cl_out := w, cl_queue := [], cl_running := False, cl_sent := cl_sent s @ [q]\<rparr>)"
    using assms run queue unfolding run_send_def s1_def [symmetric] Let_def
    by (auto simp: s1_def [symmetric] split: option.splits prod.splits sum.splits framing_error.splits)
  then show ?thesis
    using sel run queue
    by cases (rule that [of q n rest]; simp)+
qed

lemma calls_invI:
  assumes "distinct (map snd (cl_queue s))"
    and "\<And>q n. (q, n) \<in> set (cl_queue s) \<Longrightarrow> n < length (cl_calls s) \<and> cl_calls s ! n = q \<and> cl_slots s n = Pending"
    and "\<And>q n i. (q, n) \<in> set (cl_queue s) \<Longrightarrow> cl_waiting s i \<noteq> Some n"
    and "\<And>i n. cl_waiting s i = Some n \<Longrightarrow>
      n < length (cl_calls s) \<and> rq_id (cl_calls s ! n) = i \<and> cl_slots s n = Pending"
    and "\<And>n. length (cl_calls s) \<le> n \<Longrightarrow> cl_slots s n = Pending"
    and "\<not> cl_running s \<Longrightarrow> cl_queue s = []"
  shows "calls_inv s"
  using assms by (auto simp: calls_inv_def)

lemma calls_invD:
  assumes "calls_inv s"
  shows "distinct (map snd (cl_queue s))"
    and "(q, n) \<in> set (cl_queue s) \<Longrightarrow> n < length (cl_calls s) \<and> cl_calls s ! n = q \<and> cl_slots s n = Pending"
    and "(q, n) \<in> set (cl_queue s) \<Longrightarrow> cl_waiting s i \<noteq> Some n"
    and "cl_waiting s i = Some n \<Longrightarrow>
      n < length (cl_calls s) \<and> rq_id (cl_calls s ! n) = i \<and> cl_slots s n = Pending"
    and "length (cl_calls s) \<le> n \<Longrightarrow> cl_slots s n = Pending"
    and "\<not> cl_running s \<Longrightarrow> cl_queue s = []"
  using assms by (auto simp: calls_inv_def)

lemma calls_inv_call: "calls_inv s \<Longrightarrow> calls_inv (client_call q s)"
proof -
  assume s: "calls_inv s"
  note inv = calls_invD [OF s]
  have new: "(p, length (cl_calls s)) \<notin> set (cl_queue s)" "cl_waiting s i \<noteq> Some (length (cl_calls s))" for p i
    using inv(2) [of p "length (cl_calls s)"] inv(4) [of i "length (cl_calls s)"] by auto
  have old: "n < length (cl_calls s) \<and> cl_calls s ! n = p \<and> cl_slots s n = Pending" if "(p, n) \<in> set (cl_queue s)" for p n
    using inv(2) [OF that] .
  have waits: "n < length (cl_calls s) \<and> rq_id (cl_calls s ! n) = i \<and> cl_slots s n = Pending" if "cl_waiting s i = Some n" for i n
    using inv(4) [OF that] .
  show ?thesis
  proof (cases "cl_running s")
    case True
    then have u: "client_call q s = s\<lparr>cl_calls := cl_calls s @ [q], cl_queue := cl_queue s @ [(q, length (cl_calls s))]\<rparr>"
      by (simp add: client_call_def Let_def)
    show ?thesis
      by (rule calls_invI; unfold u)
        (use inv(1,3,5) new True in \<open>auto simp: nth_append dest: old waits\<close>)
  next
    case False
    then have u: "client_call q s = drop_slots {length (cl_calls s)} (s\<lparr>cl_calls := cl_calls s @ [q]\<rparr>)"
      by (simp add: client_call_def Let_def)
    show ?thesis
      by (rule calls_invI; unfold u)
        (use inv(5,6) new False in \<open>auto simp: nth_append dest: old waits\<close>)
  qed
qed

lemma calls_inv_send:
  assumes "calls_inv s" and "run_send j s = Some u"
  shows "calls_inv u"
  using assms(2)
proof (rule run_sendE)
  note inv = calls_invD [OF assms(1)]
  fix q n rest u'
  assume u: "u = u' \<and> cl_running u \<and> cl_queue u = rest \<or>
      u = drop_slots (snd ` set rest) u' \<and> \<not> cl_running u \<and> cl_queue u = []"
    and queue: "cl_queue s = (q, n) # rest"
    and sel: "cl_waiting u' = (cl_waiting s)(rq_id q \<mapsto> n)" "cl_calls u' = cl_calls s"
      "cl_slots u' = (\<lambda>m. if cl_waiting s (rq_id q) = Some m then Disconnected else cl_slots s m)"
  have n: "n < length (cl_calls s)" "cl_calls s ! n = q" "cl_slots s n = Pending" "\<And>i. cl_waiting s i \<noteq> Some n"
    using inv(2,3) [of q n] queue by auto
  have old: "cl_waiting s (rq_id q) \<noteq> Some k" if "cl_waiting s i = Some k" "i \<noteq> rq_id q" for i k
    using inv(4) [of i k] inv(4) [of "rq_id q" k] that by blast
  have rest: "k < length (cl_calls s) \<and> cl_calls s ! k = p \<and> cl_slots s k = Pending \<and> k \<noteq> n \<and>
      (\<forall>i. cl_waiting s i \<noteq> Some k)" if "(p, k) \<in> set rest" for p k
    using inv(1) inv(2,3) [of p k] that queue by force
  have n_rest: "n \<notin> snd ` set rest"
    using rest by force
  have waiting: "k < length (cl_calls s) \<and> rq_id (cl_calls s ! k) = i \<and> cl_slots u' k = Pending \<and> k \<notin> snd ` set rest"
    if "cl_waiting u' i = Some k" for i k
    using that n n_rest inv(4) [of i k] old [of i k] rest by (auto simp: sel split: if_splits)
  have beyond: "cl_slots u' k = Pending" if "length (cl_calls s) \<le> k" for k
    using inv(5) [OF that] inv(4) [of "rq_id q" k] that by (auto simp: sel)
  from u show ?thesis
  proof (elim disjE conjE)
    assume "u = u'" "cl_running u" "cl_queue u = rest"
    with rest waiting beyond inv(1) queue show ?thesis
      by (intro calls_invI) (auto simp: sel split: if_splits)
  next
    assume "u = drop_slots (snd ` set rest) u'" "\<not> cl_running u" "cl_queue u = []"
    moreover have "k \<notin> snd ` set rest" if "length (cl_calls s) \<le> k" for k
      using rest that by force
    ultimately show ?thesis
      using waiting beyond by (intro calls_invI) (simp_all add: sel(2))
  qed
qed

lemma calls_inv_read:
  assumes "calls_inv s" and "read_task j s = Some u"
  shows "calls_inv u"
proof -
  note inv = calls_invD [OF assms(1)]
  consider (same) "cl_queue u = cl_queue s" "cl_waiting u = cl_waiting s" "cl_slots u = cl_slots s"
      "cl_calls u = cl_calls s" "cl_running u = cl_running s"
    | (reply) n resp where "cl_waiting s (rs_id resp) = Some n" "cl_queue u = cl_queue s" "cl_calls u = cl_calls s"
      "cl_running u = cl_running s" "cl_waiting u = (cl_waiting s)(rs_id resp := None)"
      "cl_slots u = (cl_slots s)(n := Reply resp)"
    using assms(2)
    by (auto simp: read_task_def Let_def split: if_splits prod.splits sum.splits option.splits ipc_server_frame.splits)
  then show ?thesis
  proof cases
    case same
    with assms(1) show ?thesis by (simp add: calls_inv_def)
  next
    case (reply n resp)
    have "k \<noteq> n" if "cl_waiting s i = Some k" "i \<noteq> rs_id resp" for i k
      using inv(4) [OF reply(1)] inv(4) [OF that(1)] that(2) by auto
    moreover have "k \<noteq> n" if "(p, k) \<in> set (cl_queue s)" for p k
      using inv(3) [OF that] reply(1) by auto
    ultimately show ?thesis
      using inv inv(4) [OF reply(1)] by (intro calls_invI) (auto simp: reply(2-) split: if_splits)
  qed
qed

lemma calls_inv_end:
  assumes "calls_inv s" and "run_end s = Some u"
  shows "calls_inv u"
proof -
  note inv = calls_invD [OF assms(1)]
  from assms(2) have u: "u = drop_slots (ran (cl_waiting s)) (s\<lparr>cl_reading := False, cl_waiting := Map.empty\<rparr>)"
    and "\<not> cl_running s" by (auto simp: run_end_def split: if_splits)
  then have "cl_queue s = []" by (simp add: inv(6))
  moreover have "n \<notin> ran (cl_waiting s)" if "length (cl_calls s) \<le> n" for n
    using that inv(4) [of _ n] by (auto simp: ran_def)
  ultimately show ?thesis
    using inv(5) by (intro calls_invI) (auto simp: u)
qed

lemma next_event_cases: "next_event s = Some (x, u) \<Longrightarrow> \<exists>evs. u = s\<lparr>cl_inbox := evs\<rparr>"
  by (auto simp: next_event_def intro: exI [of _ "cl_inbox s"] split: list.splits if_splits)

lemma calls_inv_step:
  assumes "calls_inv s" and "client_step j a s = Some u"
  shows "calls_inv u"
proof (cases a)
  case Drop_client
  with assms have "u = s\<lparr>cl_running := False\<rparr>" "cl_queue s = []"
    by (auto simp: client_drop_def split: if_splits)
  with assms(1) show ?thesis by (simp add: calls_inv_def)
next
  case Next_event
  with assms obtain evs where "u = s\<lparr>cl_inbox := evs\<rparr>"
    by (auto dest: next_event_cases)
  with assms(1) show ?thesis by (simp add: calls_inv_def)
next
  case (Call q)
  with assms(2) have "u = client_call q s" by simp
  with assms(1) show ?thesis by (simp add: calls_inv_call)
qed (use assms(2) calls_inv_send [OF assms(1)] calls_inv_read [OF assms(1)] calls_inv_end [OF assms(1)] in simp_all)

lemma calls_inv_reach: "client_reach j s u \<Longrightarrow> calls_inv s \<Longrightarrow> calls_inv u"
  by (induction rule: client_reach.induct) (auto intro: calls_inv_step)

lemma calls_inv_spawn: "calls_inv (client_spawn I room)"
  by (simp add: calls_inv_def client_spawn_def)

lemma replies_inv_spawn: "replies_inv j I (client_spawn I room)"
  by (auto simp: replies_inv_def client_spawn_def intro: exI [of _ "[]"])

lemma replies_invI:
  assumes "fst (read_frames I) = bs @ rest" and "cl_reading s \<longrightarrow> rest = fst (read_frames (cl_in s))"
    and "\<And>n r. cl_slots s n = Reply r \<Longrightarrow>
      n < length (cl_calls s) \<and> rs_id r = rq_id (cl_calls s ! n) \<and>
      Some (Response r) \<in> server_frame_from_slice j ` set bs"
  shows "replies_inv j I s"
  using assms unfolding replies_inv_def by blast

text \<open>A step that neither reads nor fills a slot with a reply.\<close>

lemma replies_inv_quiet:
  assumes "replies_inv j I s" and "cl_in u = cl_in s" and "cl_reading u \<longrightarrow> cl_reading s"
    and "cl_calls u = cl_calls s @ qs"
    and "\<And>n r. cl_slots u n = Reply r \<Longrightarrow> cl_slots s n = Reply r"
  shows "replies_inv j I u"
proof -
  from assms(1) obtain bs rest where I: "fst (read_frames I) = bs @ rest"
    and reading: "cl_reading s \<longrightarrow> rest = fst (read_frames (cl_in s))"
    and replies: "\<And>n r. cl_slots s n = Reply r \<Longrightarrow> n < length (cl_calls s) \<and> rs_id r = rq_id (cl_calls s ! n) \<and>
           Some (Response r) \<in> server_frame_from_slice j ` set bs"
    unfolding replies_inv_def by blast
  show ?thesis
  proof (rule replies_invI [OF I])
    show "cl_reading u \<longrightarrow> rest = fst (read_frames (cl_in u))"
      using assms(2,3) reading by simp
    fix n r assume "cl_slots u n = Reply r"
    from replies [OF assms(5) [OF this]]
    show "n < length (cl_calls u) \<and> rs_id r = rq_id (cl_calls u ! n) \<and>
        Some (Response r) \<in> server_frame_from_slice j ` set bs"
      by (simp add: assms(4) nth_append)
  qed
qed

lemma replies_inv_read:
  assumes "replies_inv j I s" and "calls_inv s" and "read_task j s = Some u"
  shows "replies_inv j I u"
proof -
  from assms(3) have "cl_reading s" by (auto simp: read_task_def split: if_splits)
  with assms(1) obtain bs where I: "fst (read_frames I) = bs @ fst (read_frames (cl_in s))"
    and replies: "\<And>n r. cl_slots s n = Reply r \<Longrightarrow> n < length (cl_calls s) \<and> rs_id r = rq_id (cl_calls s ! n) \<and>
           Some (Response r) \<in> server_frame_from_slice j ` set bs"
    unfolding replies_inv_def by blast
  show ?thesis
  proof (cases "read_frame (cl_in s)")
    case (Pair x i)
    show ?thesis
    proof (cases x)
      case (Inl e)
      with Pair assms(3) have "u = s\<lparr>cl_in := i, cl_reading := False\<rparr>"
        by (auto simp: read_task_def split: if_splits)
      with replies show ?thesis by (intro replies_invI [OF I]) simp_all
    next
      case (Inr b)
      with Pair have "fst (read_frames (cl_in s)) = b # fst (read_frames i)"
        by (simp add: read_frames.simps [of "cl_in s"] split: prod.split)
      with I have I': "fst (read_frames I) = (bs @ [b]) @ fst (read_frames i)" by simp
      have "cl_in u = i" "cl_calls u = cl_calls s"
        using assms(3) Pair Inr
        by (auto simp: read_task_def Let_def split: if_splits option.splits ipc_server_frame.splits)
      moreover have "n < length (cl_calls s) \<and> rs_id r = rq_id (cl_calls s ! n) \<and>
          Some (Response r) \<in> server_frame_from_slice j ` set (bs @ [b])"
        if "cl_slots u n = Reply r" for n r
      proof (cases "cl_slots s n = Reply r")
        case True
        then show ?thesis using replies [OF True] by auto
      next
        case False
        with that assms(3) Pair Inr have "server_frame_from_slice j b = Some (Response r)"
          "cl_waiting s (rs_id r) = Some n"
          by (auto simp: read_task_def Let_def split: if_splits option.splits ipc_server_frame.splits)
        with calls_invD(4) [OF assms(2), of "rs_id r" n] show ?thesis by (auto simp: image_iff)
      qed
      ultimately show ?thesis by (intro replies_invI [OF I']) simp_all
    qed
  qed
qed

lemma replies_inv_step:
  assumes "replies_inv j I s" and "calls_inv s" and "client_step j a s = Some u"
  shows "replies_inv j I u"
proof (cases a)
  case (Call q)
  with assms(3) show ?thesis
    by (intro replies_inv_quiet [OF assms(1), where qs = "[q]"])
      (auto simp: client_call_def Let_def split: if_splits)
next
  case Send_request
  with assms(3) have "run_send j s = Some u" by simp
  then show ?thesis
  proof (rule run_sendE)
    fix q n rest u'
    assume "u = u' \<or> u = drop_slots (snd ` set rest) u'" "cl_in u' = cl_in s" "cl_calls u' = cl_calls s"
      "cl_reading u' = cl_reading s"
      "cl_slots u' = (\<lambda>m. if cl_waiting s (rq_id q) = Some m then Disconnected else cl_slots s m)"
    then show ?thesis
      by (intro replies_inv_quiet [OF assms(1), where qs = "[]"]) (auto split: if_splits)
  qed
next
  case Receive
  with assms show ?thesis by (simp add: replies_inv_read)
next
  case End_run
  with assms(3) show ?thesis
    by (intro replies_inv_quiet [OF assms(1), where qs = "[]"]) (auto simp: run_end_def split: if_splits)
next
  case Drop_client
  with assms(3) show ?thesis
    by (intro replies_inv_quiet [OF assms(1), where qs = "[]"]) (auto simp: client_drop_def split: if_splits)
next
  case Next_event
  with assms(3) show ?thesis
    by (intro replies_inv_quiet [OF assms(1), where qs = "[]"]) (auto dest: next_event_cases)
qed

lemma replies_inv_reach:
  "client_reach j s u \<Longrightarrow> calls_inv s \<Longrightarrow> replies_inv j I s \<Longrightarrow> replies_inv j I u"
  by (induction rule: client_reach.induct) (auto intro: replies_inv_step calls_inv_reach)

lemma request_wire_append [simp]: "request_wire j (qs @ [q]) = request_wire j qs @ frame (the (request_to_vec j q))"
  by (simp add: request_wire_def)

lemma subseq_skip: "subseq (xs @ q # ys) zs \<Longrightarrow> subseq (xs @ ys) zs"
  by (metis list_emb_append_mono subseq_Cons' subseq_order.dual_order.trans subseq_order.order_refl)

lemma subseq_cut: "subseq (xs @ ys) zs \<Longrightarrow> subseq xs zs"
  by (metis append_Nil2 list_emb_append_mono list_emb_Nil subseq_order.dual_order.trans subseq_order.order_refl)

lemma sent_inv_send:
  assumes "sent_inv j s" and "run_send j s = Some u"
  shows "sent_inv j u"
proof -
  from assms(2) obtain q n rest where run: "cl_running s" and queue: "cl_queue s = (q, n) # rest"
    by (auto simp: run_send_def split: if_splits list.splits)
  from assms(1) run have out: "fst (cl_out s) = request_wire j (cl_sent s)"
    and ok: "list_all (sendable_request j) (cl_sent s)"
    and sub: "subseq (cl_sent s @ q # map fst rest) (cl_calls s)"
    by (auto simp: sent_inv_def queue)
  have subs: "subseq (cl_sent s @ map fst rest) (cl_calls s)" "subseq (cl_sent s) (cl_calls s)"
    "subseq (cl_sent s @ [q]) (cl_calls s)"
    using subseq_skip [OF sub] subseq_cut [of "cl_sent s @ [q]" "map fst rest"] sub
      subseq_cut [OF sub] by simp_all
  show ?thesis
  proof (cases "request_to_vec j q")
    case None
    with assms(2) run queue have "cl_running u" "cl_out u = cl_out s" "cl_sent u = cl_sent s"
      "cl_calls u = cl_calls s" "cl_queue u = rest"
      by (auto simp: run_send_def Let_def)
    with out ok subs show ?thesis by (simp add: sent_inv_def)
  next
    case (Some bs)
    obtain r w where w: "write_frame (cl_out s) bs = (r, w)"
      by (cases "write_frame (cl_out s) bs")
    have step: "cl_out u = w" "cl_calls u = cl_calls s"
      "case r of
         Inr x \<Rightarrow> cl_running u \<and> cl_sent u = cl_sent s @ [q] \<and> cl_queue u = rest
       | Inl e \<Rightarrow> \<not> cl_running u \<and> cl_queue u = [] \<and>
           cl_sent u = (case e of FProtocol pe \<Rightarrow> cl_sent s | _ \<Rightarrow> cl_sent s @ [q])"
      using assms(2) run queue Some w
      by (auto simp: run_send_def Let_def split: sum.splits framing_error.splits)
    have "write_frame (request_wire j (cl_sent s), snd (cl_out s)) bs = (r, w)"
      using w by (simp flip: out)
    from write_frame_cases [OF this] step out ok subs sub Some show ?thesis
      by (cases r) (auto simp: sent_inv_def sendable_request_def split: framing_error.splits)
  qed
qed

lemma sent_inv_step:
  assumes "sent_inv j s" and "client_step j a s = Some u"
  shows "sent_inv j u"
proof -
  have same: "sent_inv j u" if "cl_sent u = cl_sent s" "cl_queue u = cl_queue s" "cl_calls u = cl_calls s"
    "cl_out u = cl_out s" "cl_running u = cl_running s \<or> \<not> cl_running u"
    using assms(1) that by (auto simp: sent_inv_def)
  show ?thesis
  proof (cases a)
    case (Call q)
    with assms(2) have u: "u = client_call q s" by simp
    show ?thesis
    proof (cases "cl_running s")
      case True
      with assms(1) show ?thesis
        by (simp add: u sent_inv_def client_call_def Let_def)
          (metis append.assoc list_emb_append_mono subseq_order.order_refl)
    next
      case False
      with assms(1) show ?thesis
        by (auto simp: u sent_inv_def client_call_def Let_def intro: list_emb_append2)
    qed
  next
    case Send_request
    with assms show ?thesis by (simp add: sent_inv_send)
  next
    case Receive
    with assms(2) show ?thesis
      by (intro same) (auto simp: read_task_def Let_def
        split: if_splits prod.splits sum.splits option.splits ipc_server_frame.splits)
  next
    case End_run
    with assms(2) show ?thesis by (intro same) (auto simp: run_end_def split: if_splits)
  next
    case Drop_client
    with assms(2) show ?thesis by (intro same) (auto simp: client_drop_def split: if_splits)
  next
    case Next_event
    with assms(2) show ?thesis by (intro same) (auto dest: next_event_cases)
  qed
qed

lemma sent_inv_reach: "client_reach j s u \<Longrightarrow> sent_inv j s \<Longrightarrow> sent_inv j u"
  by (induction rule: client_reach.induct) (auto intro: sent_inv_step)

lemma sent_inv_spawn: "sent_inv j (client_spawn I room)"
  by (simp add: sent_inv_def client_spawn_def request_wire_def)

lemma sent_inv_prefix: "sent_inv j s \<Longrightarrow> prefix (fst (cl_out s)) (request_wire j (cl_sent s))"
  by (auto simp: sent_inv_def)

lemma sent_inv_subseq: "sent_inv j s \<Longrightarrow> subseq (cl_sent s) (cl_calls s)"
  using subseq_cut by (auto simp: sent_inv_def)

section \<open>Outcomes\<close>

lemma outcome_step:
  assumes "calls_inv s" and "client_step j a s = Some u" and "cl_slots s n \<noteq> Pending"
  shows "cl_slots u n = cl_slots s n"
proof -
  note inv = calls_invD [OF assms(1)]
  have waits: "cl_waiting s i \<noteq> Some n" for i
    using inv(4) [of i n] assms(3) by auto
  show ?thesis
  proof (cases a)
    case (Call q)
    have "n \<noteq> length (cl_calls s)" using inv(5) [of n] assms(3) by auto
    with Call assms(2) show ?thesis by (auto simp: client_call_def Let_def split: if_splits)
  next
    case Send_request
    with assms(2) have "run_send j s = Some u" by simp
    then show ?thesis
    proof (rule run_sendE)
      fix q m rest u'
      assume u: "u = u' \<or> u = drop_slots (snd ` set rest) u'" and queue: "cl_queue s = (q, m) # rest"
        and slots: "cl_slots u' = (\<lambda>m. if cl_waiting s (rq_id q) = Some m then Disconnected else cl_slots s m)"
      have "n \<notin> snd ` set rest"
        using inv(2) [of _ n] assms(3) queue by force
      with u slots waits show ?thesis by auto
    qed
  next
    case Receive
    with assms(2) waits show ?thesis
      by (auto simp: read_task_def Let_def split: if_splits prod.splits sum.splits option.splits ipc_server_frame.splits)
  next
    case End_run
    with assms(2) waits show ?thesis by (auto simp: run_end_def ran_def split: if_splits)
  next
    case Drop_client
    with assms(2) show ?thesis by (auto simp: client_drop_def split: if_splits)
  next
    case Next_event
    with assms(2) show ?thesis by (auto dest: next_event_cases)
  qed
qed

lemma outcome_reach:
  "client_reach j s u \<Longrightarrow> calls_inv s \<Longrightarrow> cl_slots s n \<noteq> Pending \<Longrightarrow> cl_slots u n = cl_slots s n"
proof (induction rule: client_reach.induct)
  case (client_start s)
  then show ?case by simp
next
  case (client_act s t a u)
  then have t: "cl_slots t n = cl_slots s n" by blast
  moreover have "calls_inv t" using calls_inv_reach client_act.hyps(1) client_act.prems(1) by blast
  ultimately show ?case
    using outcome_step client_act.hyps(2) client_act.prems(2) by metis
qed

text \<open>
  C16.  Every call gets at most one outcome, for good, and a reply is its own: it was read from the
  stream as one complete frame and carries the id of the request of this very call.  The bytes
  written are the frames of calls in the order they were made, the last perhaps cut off.
\<close>

theorem call_outcome:
  assumes "client_reach j (client_spawn I room) s"
  shows "(\<forall>n r. cl_slots s n = Reply r \<longrightarrow>
      n < length (cl_calls s) \<and> rs_id r = rq_id (cl_calls s ! n) \<and>
      Some (Response r) \<in> server_frame_from_slice j ` set (fst (read_frames I))) \<and>
    (\<forall>n t. client_reach j s t \<longrightarrow> cl_slots s n \<noteq> Pending \<longrightarrow> cl_slots t n = cl_slots s n) \<and>
    prefix (fst (cl_out s)) (request_wire j (cl_sent s)) \<and> subseq (cl_sent s) (cl_calls s)"
proof -
  have calls: "calls_inv s" using calls_inv_reach [OF assms calls_inv_spawn] .
  have "replies_inv j I s" using replies_inv_reach [OF assms calls_inv_spawn replies_inv_spawn] .
  then have "\<forall>n r. cl_slots s n = Reply r \<longrightarrow>
      n < length (cl_calls s) \<and> rs_id r = rq_id (cl_calls s ! n) \<and>
      Some (Response r) \<in> server_frame_from_slice j ` set (fst (read_frames I))"
    by (fastforce simp: replies_inv_def)
  moreover have sent: "sent_inv j s" using sent_inv_reach [OF assms sent_inv_spawn] .
  then have "prefix (fst (cl_out s)) (request_wire j (cl_sent s))" "subseq (cl_sent s) (cl_calls s)"
    using sent_inv_prefix sent_inv_subseq by blast+
  ultimately show ?thesis using outcome_reach [OF _ calls] by blast
qed

theorem call_outcome_witness:
  "case client_run tiny_codec [Call demo_request, Send_request, Receive] (client_spawn (frame [55]) None) of
     None \<Rightarrow> False
   | Some s \<Rightarrow> cl_slots s 0 = Reply demo_response \<and> rs_id demo_response = rq_id (cl_calls s ! 0) \<and>
       (\<forall>t. client_reach tiny_codec s t \<longrightarrow> cl_slots t 0 = Reply demo_response)"
proof -
  define as where "as = [Call demo_request, Send_request, Receive]"
  define s where "s = the (client_run tiny_codec as (client_spawn (frame [55]) None))"
  have run: "client_run tiny_codec as (client_spawn (frame [55]) None) = Some s"
    and reply: "cl_slots s 0 = Reply demo_response"
    by (simp_all add: s_def as_def client_spawn_def client_call_def run_send_def read_task_def demo_texts
        demo_frames(1,2) Let_def write_frame_unlimited MAX_IPC_FRAME_BYTES_def)
      (simp_all add: demo_request_def demo_response_def)
  have "client_reach tiny_codec (client_spawn (frame [55]) None) s"
    using client_run_reach [OF run client_start] .
  from call_outcome [OF this] reply show ?thesis
    by (simp add: run as_def [symmetric])
qed

text \<open>
  C30.  A call in progress is not told that the daemon closed the connection: once the reader has
  stopped, while the loop of the client runs and no request is queued, no step gives the call an
  outcome as long as nothing else is called on this client, so \<open>call\<close> waits on instead of
  returning \<open>Disconnected\<close>.  (A further call whose write fails ends the loop, and then the waiting
  call learns that the connection is gone.)
\<close>

theorem interrupted_call_hangs:
  assumes "client_reach j (client_spawn I room) s"
    and "\<not> cl_reading s" and "cl_running s" and "cl_queue s = []" and "cl_waiting s i = Some n"
    and "client_run j as s = Some t" and "\<forall>q. Call q \<notin> set as"
  shows "cl_slots t n = Pending \<and> cl_running t \<and> cl_waiting t i = Some n"
proof -
  have n: "n < length (cl_calls s)" "cl_slots s n = Pending"
    using calls_invD(4) [OF calls_inv_reach [OF assms(1) calls_inv_spawn] assms(5)] by auto
  have "\<exists>evs. t = s\<lparr>cl_inbox := evs\<rparr>"
    using assms(6,7)
  proof (induction as arbitrary: t rule: rev_induct)
    case Nil
    then show ?case by (intro exI [of _ "cl_inbox s"]) simp
  next
    case (snoc a as)
    have run: "client_run j (as @ [a]) s = Option.bind (client_run j as s) (client_step j a)" for s
      by (induction as arbitrary: s) (auto split: Option.bind_split)
    with snoc.prems(1) obtain u where "client_run j as s = Some u" and u: "client_step j a u = Some t"
      by (auto split: Option.bind_splits)
    with snoc.IH [of u] snoc.prems(2) obtain evs where "u = s\<lparr>cl_inbox := evs\<rparr>" by auto
    with u snoc.prems(2) assms(2-5) n show ?case
      by (cases a) (auto simp: run_send_def read_task_def run_end_def client_drop_def list_all_iff
          dest!: next_event_cases split: if_splits)
  qed
  with n assms(3,5) show ?thesis by auto
qed

lemma demo_client_run:
  "client_run tiny_codec [Call demo_request, Send_request, Receive] (client_spawn [] None) =
     Some \<lparr>cl_in = [], cl_out = (frame [49], None), cl_queue = [], cl_waiting = [7 \<mapsto> 0],
       cl_slots = (\<lambda>_. Pending), cl_inbox = [], cl_running = True, cl_reading = False,
       cl_calls = [demo_request], cl_sent = [demo_request]\<rparr>"
  by (simp add: client_spawn_def client_call_def run_send_def read_task_def demo_texts Let_def
      write_frame_unlimited MAX_IPC_FRAME_BYTES_def read_frame_Nil drop_slots_def fun_eq_iff)
    (simp add: demo_request_def)

theorem interrupted_call_hangs_witness:
  "case client_run tiny_codec [Call demo_request, Send_request, Receive] (client_spawn [] None) of
     None \<Rightarrow> False
   | Some s \<Rightarrow> next_event s = Some (None, s) \<and>
       (\<forall>as t. client_run tiny_codec as s = Some t \<longrightarrow> (\<forall>q. Call q \<notin> set as) \<longrightarrow> cl_slots t 0 = Pending)"
proof -
  have "client_reach tiny_codec (client_spawn [] None)
      \<lparr>cl_in = [], cl_out = (frame [49], None), cl_queue = [], cl_waiting = [7 \<mapsto> 0],
       cl_slots = (\<lambda>_. Pending), cl_inbox = [], cl_running = True, cl_reading = False,
       cl_calls = [demo_request], cl_sent = [demo_request]\<rparr>"
    using client_run_reach [OF demo_client_run client_start] .
  from interrupted_call_hangs [OF this, of 7 0] show ?thesis
    unfolding demo_client_run option.case by (simp add: next_event_def)
qed

end
