(* ===== verification/Lcp_Session.thy ===== *)
theory Lcp_Session
  imports Lcp_System Lcp_Server Lcp_Client
begin

text \<open>
  A client and the daemon's side of its connection, joined by two byte streams, with the daemon's
  dispatcher as the request handler: what a call of the CLI returns is what the dispatcher answered
  to that very request.  The contract between the connection loop and its handler (the trait
  \<open>RequestHandler\<close> of \<open>server.rs\<close>) is a locale; the dispatcher provides it.
\<close>

section \<open>Texts that survive the wire\<close>

text \<open>
  The documented behaviour of the JSON and UUID libraries that the connection relies on, for the
  values that are exchanged: a text is not empty and parses to the value it was made from.
\<close>

definition survives :: "json_codec \<Rightarrow> json set \<Rightarrow> bool" where
  "survives j V \<longleftrightarrow>
     (\<forall>u. jc_uuid_parse j (jc_uuid j u) = Some u) \<and>
     (\<forall>v \<in> V. \<forall>bs. jc_text j v = Some bs \<longrightarrow> bs \<noteq> [] \<and> jc_parse j bs = Some v)"

lemma survives_request:
  assumes "survives j (request_json j ` Q)" and "q \<in> Q" and "request_to_vec j q = Some bs"
  shows "bs \<noteq> []" and "request_from_slice j bs = Some q"
  using assms request_of_request_json [of j q]
  by (auto simp: survives_def request_to_vec_def request_from_slice_def)

lemma survives_frame:
  assumes "survives j (server_frame_json j ` F)" and "f \<in> F" and "server_frame_to_vec j f = Some bs"
  shows "bs \<noteq> []" and "server_frame_from_slice j bs = Some (reread f)"
  using assms server_frame_of_frame_json [of j f]
  by (auto simp: survives_def server_frame_to_vec_def server_frame_from_slice_def)

lemma survives_Un: "survives j (V \<union> W) \<longleftrightarrow> survives j V \<and> survives j W"
  by (auto simp: survives_def)

lemma prefix_subset: "prefix xs ys \<Longrightarrow> set xs \<subseteq> set ys"
  by (auto simp: prefix_def)

text \<open>What a reader gets from a cut stream of request frames, or of server frames.\<close>

lemma requests_read:
  assumes "survives j (request_json j ` set qs)" and "list_all (sendable_request j) qs"
    and "prefix r (request_wire j qs)" and "bs \<in> set (fst (read_frames r))"
  shows "\<exists>q \<in> set qs. request_from_slice j bs = Some q"
proof -
  have "list_all sendable (map (the \<circ> request_to_vec j) qs)"
    using assms(2) survives_request(1) [OF assms(1)]
    by (fastforce simp: list_all_iff sendable_request_def sendable_def)
  moreover have "prefix r (concat (map frame (map (the \<circ> request_to_vec j) qs)))"
    using assms(3) by (simp add: request_wire_def comp_def)
  ultimately have "bs \<in> set (map (the \<circ> request_to_vec j) qs)"
    using read_frames_cut assms(4) prefix_subset by blast
  then obtain q where "q \<in> set qs" "bs = the (request_to_vec j q)" by auto
  with assms(2) survives_request(2) [OF assms(1)] show ?thesis
    by (fastforce simp: list_all_iff sendable_request_def)
qed

lemma frames_read:
  assumes "survives j (server_frame_json j ` set fs)" and "list_all (fits j) fs"
    and "prefix r (wire j fs)" and "bs \<in> set (fst (read_frames r))"
  shows "\<exists>f \<in> set fs. server_frame_from_slice j bs = Some (reread f)"
proof -
  have "list_all sendable (map (payload j) fs)"
    using assms(2) survives_frame(1) [OF assms(1)]
    by (fastforce simp: list_all_iff fits_def sendable_def payload_def)
  moreover have "prefix r (concat (map frame (map (payload j) fs)))"
    using assms(3) by (simp add: wire_def comp_def)
  ultimately have "bs \<in> set (map (payload j) fs)"
    using read_frames_cut assms(4) prefix_subset by blast
  then obtain f where "f \<in> set fs" "bs = payload j f" by auto
  with assms(2) survives_frame(2) [OF assms(1)] show ?thesis
    by (fastforce simp: list_all_iff fits_def payload_def)
qed

lemma responses_of_mem: "r \<in> set (responses_of fs) \<longleftrightarrow> Response r \<in> set fs"
  by (induction fs) (auto split: ipc_server_frame.split)

lemma served_read:
  assumes "loop_inv j J s" and "(q, r) \<in> set (sv_served s)"
  shows "\<exists>bs. bs \<in> set (fst (read_frames J)) \<and> request_from_slice j bs = Some q"
proof -
  from assms(1) obtain qs rest where frames: "fst (read_frames J) = qs @ rest"
    and "map (request_from_slice j) qs = map Some (map fst (sv_served s) @ current (sv_loop s))"
    unfolding loop_inv_def by blast
  moreover from assms(2) have "Some q \<in> set (map Some (map fst (sv_served s) @ current (sv_loop s)))" by force
  ultimately have "Some q \<in> set (map (request_from_slice j) qs)" by simp
  then obtain b where "b \<in> set qs" "request_from_slice j b = Some q" by (metis imageE set_map)
  with frames show ?thesis by auto
qed

section \<open>The handler's contract\<close>

text \<open>\<open>answered_by q r\<close>: the handler may answer the request \<open>q\<close> with \<open>r\<close>.\<close>

locale request_handler =
  fixes answered_by :: "ipc_request \<Rightarrow> ipc_response \<Rightarrow> bool"
  assumes answer_id: "answered_by q r \<Longrightarrow> rs_id r = rq_id q"
begin

lemma reply_is_answer:
  assumes server: "server_reach j (server_new J sroom) s"
    and client: "client_reach j (client_spawn I croom) c"
    and up: "prefix J (fst (cl_out c))" and down: "prefix I (sv_written s)"
    and handled: "\<And>q r. (q, r) \<in> set (sv_served s) \<Longrightarrow> answered_by q r"
    and ids: "distinct (map rq_id (cl_calls c))"
    and codec: "survives j (request_json j ` set (cl_calls c) \<union> server_frame_json j ` set (sv_frames s))"
    and reply: "cl_slots c n = Reply r"
  shows "\<exists>r'. (cl_calls c ! n, r') \<in> set (sv_served s) \<and> answered_by (cl_calls c ! n) r' \<and>
    r = reread_response r'"
proof -
  have wire: "wire_inv j s" "loop_inv j J s"
    using wire_inv_reach [OF server wire_inv_new] loop_inv_reach [OF server loop_inv_new] .
  have sent: "sent_inv j c" and reply_inv: "replies_inv j I c"
    using sent_inv_reach [OF client sent_inv_spawn]
      replies_inv_reach [OF client calls_inv_spawn replies_inv_spawn] .
  have n: "n < length (cl_calls c)" "rs_id r = rq_id (cl_calls c ! n)"
    and "Some (Response r) \<in> server_frame_from_slice j ` set (fst (read_frames I))"
    using reply_inv reply by (fastforce simp: replies_inv_def)+
  then obtain bs where bs: "bs \<in> set (fst (read_frames I))" "server_frame_from_slice j bs = Some (Response r)"
    by (metis imageE)
  have "prefix I (wire j (sv_frames s))"
    using down wire_inv_prefix [OF wire(1)] prefix_order.trans by blast
  then obtain f where f: "f \<in> set (sv_frames s)" "reread f = Response r"
    using frames_read [of j "sv_frames s" I bs] bs wire(1) codec by (auto simp: survives_Un wire_inv_def)
  obtain r' where "f = Response r'" "r = reread_response r'"
    using f(2) by (cases f) simp_all
  then have r': "r = reread_response r'" "Response r' \<in> set (sv_frames s)"
    using f(1) by simp_all
  then have "r' \<in> set (map snd (sv_served s))"
    using wire(2) responses_of_mem [of r' "sv_frames s"]
    by (auto simp: loop_inv_def ended_def Let_def split: if_splits
        dest: arg_cong [where f = set] simp del: set_map)
  then obtain q where q: "(q, r') \<in> set (sv_served s)" by auto
  from served_read [OF wire(2) q] obtain bs'
    where bs': "bs' \<in> set (fst (read_frames J))" "request_from_slice j bs' = Some q"
    by blast
  have "prefix J (request_wire j (cl_sent c))"
    using up sent_inv_prefix [OF sent] by (rule prefix_order.trans)
  moreover have "set (cl_sent c) \<subseteq> set (cl_calls c)"
    using sent_inv_subseq [OF sent] by (auto simp: subseq_conv_nths dest: in_set_nthsD)
  ultimately have "q \<in> set (cl_calls c)"
    using requests_read [of j "cl_sent c" J bs'] bs' sent codec
    by (auto simp: survives_Un sent_inv_def survives_def)
  moreover have "rq_id q = rq_id (cl_calls c ! n)"
    using answer_id [OF handled [OF q]] n(2) r'(1) by (simp add: reread_response_def split: if_splits)
  ultimately have "q = cl_calls c ! n"
    using ids n(1) by (metis distinct_map inj_onD nth_mem)
  with q handled [OF q] r'(1) show ?thesis by blast
qed

end

text \<open>The responses a task can end with, over all its runs in any environment.\<close>

inductive can_return :: "task \<Rightarrow> ipc_response \<Rightarrow> bool" where
  returns_now: "can_return (Done (Some r)) r"
| returns_later: "estep t e w = Some (w', t', ts) \<Longrightarrow> can_return t' r \<Longrightarrow> can_return t r"

lemma can_return_always: "can_return t r \<Longrightarrow> always P Q h t \<Longrightarrow> \<exists>h'. Q h' (Some r)"
proof (induction arbitrary: h rule: can_return.induct)
  case (returns_now r)
  then show ?case by auto
next
  case (returns_later t e w w' t' ts r)
  from alwaysD(2) [OF returns_later.prems returns_later.hyps(1)] returns_later.IH show ?case by blast
qed

lemma handle_answered: "always any_lock (answered req) h (handle x pf req events)"
  by (simp add: handle_def answered_method)

lemma can_return_answers: "can_return (handle x pf q ch) r \<Longrightarrow> answers q r"
  using can_return_always [OF _ handle_answered] by fastforce

interpretation dispatcher: request_handler "\<lambda>q r. \<exists>ch. can_return (handle x pf q ch) r" for x pf
  by unfold_locales (use can_return_answers answers_sel in blast)

section \<open>End to end\<close>

definition hello_request :: ipc_request where
  "hello_request = sample_request HELLO (JObj [])"

definition hello_response :: ipc_response where
  "hello_response = ok_response hello_request
     (JObj [(''daemon_version'', JStr (x_pkg_version demo_externs)),
            (''ipc_protocol_version'', JInt (uint IPC_PROTOCOL_VERSION)),
            (''network_protocol_version'', JInt (uint NETWORK_PROTOCOL_VERSION))])"

definition hello_codec :: json_codec where
  "hello_codec = table_codec
     [request_json hex_codec hello_request \<mapsto> [49], response_json hex_codec hello_response \<mapsto> [55]]
     [[49] \<mapsto> request_json hex_codec hello_request, [55] \<mapsto> response_json hex_codec hello_response]"

text \<open>
  C9.  What a call of the CLI returns is an answer of the daemon's dispatcher to that very request:
  over any cut of the two streams, any interleaving of calls, responses and events, and whatever
  else the connection served, a reply in the slot of call \<open>n\<close> is the response the dispatcher gave
  to request \<open>n\<close>, read back; it has the request's id and either a result or an error.
\<close>

theorem call_returns_answer:
  assumes "server_reach j (server_new J sroom) s" and "client_reach j (client_spawn I croom) c"
    and "prefix J (fst (cl_out c))" and "prefix I (sv_written s)"
    and "\<And>q r. (q, r) \<in> set (sv_served s) \<Longrightarrow> \<exists>ch. can_return (handle x pf q ch) r"
    and "distinct (map rq_id (cl_calls c))"
    and "survives j (request_json j ` set (cl_calls c) \<union> server_frame_json j ` set (sv_frames s))"
    and "cl_slots c n = Reply r"
  shows "\<exists>r' ch. can_return (handle x pf (cl_calls c ! n) ch) r' \<and> answers (cl_calls c ! n) r' \<and>
    (cl_calls c ! n, r') \<in> set (sv_served s) \<and> r = reread_response r'"
  using dispatcher.reply_is_answer [OF assms] can_return_answers by blast

lemma hello_json: "request_json hello_codec q = request_json hex_codec q"
  "response_json hello_codec r = response_json hex_codec r"
  by (simp_all add: request_json_def response_json_def hello_codec_def) (simp_all add: table_codec_def)

lemma hello_reread: "reread_response hello_response = hello_response"
  by (simp add: reread_response_def hello_response_def ok_response_def)

lemma hello_texts:
  "request_to_vec hello_codec hello_request = Some [49]"
  "request_from_slice hello_codec [49] = Some hello_request"
  "server_frame_to_vec hello_codec (Response hello_response) = Some [55]"
  "server_frame_from_slice hello_codec [55] = Some (Response hello_response)"
proof -
  note distinct = demo_json_distinct demo_json_distinct [symmetric]
  show "request_to_vec hello_codec hello_request = Some [49]"
    "server_frame_to_vec hello_codec (Response hello_response) = Some [55]"
    using distinct by (simp_all add: request_to_vec_def server_frame_to_vec_def hello_json)
      (simp_all add: hello_codec_def)
  show "request_from_slice hello_codec [49] = Some hello_request"
    "server_frame_from_slice hello_codec [55] = Some (Response hello_response)"
    by (simp_all add: request_from_slice_def server_frame_from_slice_def hello_codec_def hello_reread)
qed

lemma hello_survives:
  "survives hello_codec (request_json hello_codec ` set [hello_request] \<union>
     server_frame_json hello_codec ` set [Response hello_response])"
  using demo_json_distinct by (auto simp: survives_def hello_json) (auto simp: hello_codec_def)

lemma hello_server:
  "server_run hello_codec [Read_request, Handled hello_response, Start_response, Write_chunk 5]
     (server_new (frame [49]) None) =
   Some \<lparr>sv_input = [], sv_written = frame [55], sv_room = None, sv_loop = L_read, sv_task = E_recv,
     sv_chan = [], sv_served = [(hello_request, hello_response)], sv_frames = [Response hello_response]\<rparr>"
  by (simp add: server_new_def server_step_defs writer_locked_def demo_frames hello_texts MAX_IPC_FRAME_BYTES_def)

lemma hello_client:
  "client_run hello_codec [Call hello_request, Send_request, Receive] (client_spawn (frame [55]) None) =
   Some \<lparr>cl_in = [], cl_out = (frame [49], None), cl_queue = [], cl_waiting = Map.empty,
     cl_slots = (\<lambda>n. if n = 0 then Reply hello_response else Pending), cl_inbox = [], cl_running = True,
     cl_reading = True, cl_calls = [hello_request], cl_sent = [hello_request]\<rparr>"
proof -
  have "rs_id hello_response = rq_id hello_request"
    by (simp add: hello_response_def ok_response_def)
  then show ?thesis
    by (auto simp: client_spawn_def client_call_def run_send_def read_task_def hello_texts demo_frames(1,2) Let_def
        write_frame_unlimited MAX_IPC_FRAME_BYTES_def drop_slots_def fun_eq_iff)
qed

theorem call_returns_answer_witness:
  "\<exists>r' ch. can_return (handle demo_externs MacOs hello_request ch) r' \<and> answers hello_request r' \<and>
     hello_response = reread_response r'"
proof -
  have "(handle demo_externs pf hello_request ch) = Done (Some hello_response)" for pf ch
    by (simp add: handle_def handle_method_def hello_request_def sample_request_def Let_def handle_hello_def reply_def
        hello_response_def)
  then have handled: "(q, r) \<in> set [(hello_request, hello_response)] \<Longrightarrow>
      \<exists>ch. can_return (handle demo_externs MacOs q ch) r" for q r
    by (auto intro: returns_now)
  show ?thesis
    using call_returns_answer [OF server_run_reach [OF hello_server reach_start]
      client_run_reach [OF hello_client client_start], of demo_externs MacOs 0 hello_response]
      handled hello_survives by simp blast
qed

end
