(* ===== verification/Lcp_Delivery.thy ===== *)
theory Lcp_Delivery
  imports Lcp_Texts Lcp_Session
begin

text \<open>
  Two machines.  The daemon of one runs \<open>handle_send_text\<close>, the daemon of the other serves the
  stream that this opens, and the network carries the bytes of the stream in order, perhaps not to
  the end.  Each side is a run of its task against any environment, with any interference of other
  tasks between its steps.  What is shown: a positive answer to \<open>send_text\<close> means that the other
  machine recorded that very text.
\<close>

section \<open>Runs and streams\<close>

text \<open>A run of one task; its log is newest first, tasks that it spawns run on their own.\<close>

inductive task_log :: "task \<Rightarrow> log \<Rightarrow> task \<Rightarrow> bool" for t where
  log_start: "task_log t [] t"
| log_step: "task_log t h u \<Longrightarrow> estep u e w = Some (w', u', ts) \<Longrightarrow> task_log t ((e, w, w') # h) u'"

lemma task_log_always:
  assumes "task_log t h u" and "always P Q [] t"
  shows "always P Q h u \<and> (\<forall>e k. h = e # k \<longrightarrow> P k e)"
  using assms(1)
proof (induction rule: task_log.induct)
  case log_start
  then show ?case using assms(2) by simp
next
  case (log_step h u e w w' u' ts)
  then show ?case using alwaysD(2) [OF _ log_step.hyps(2)] by auto
qed

text \<open>The bytes that were offered to a stream, and those that were read from it.\<close>

primrec written :: "stream \<Rightarrow> log \<Rightarrow> bytes" where
  "written s [] = []"
| "written s (e # h) =
     written s h @ (case fst e of Wrote s' bs r \<Rightarrow> if s' = s then bs else [] | _ \<Rightarrow> [])"

primrec got :: "stream \<Rightarrow> log \<Rightarrow> bytes" where
  "got s [] = []"
| "got s (e # h) =
     got s h @ (case fst e of
                  Got s' n r \<Rightarrow>
                    if s' = s then (case r of Some (Inr bs) \<Rightarrow> bs | _ \<Rightarrow> []) else []
                | _ \<Rightarrow> [])"

definition opened :: "log \<Rightarrow> stream set" where
  "opened h = {s. \<exists>c w w'. (Opened c (Inr s), w, w') \<in> set h}"

lemma opened_simps [simp]: "opened [] = {}"
  "opened ((e, w, w') # h) = (case e of Opened c (Inr s) \<Rightarrow> insert s (opened h) | _ \<Rightarrow> opened h)"
  by (auto simp: opened_def split: event.split sum.split)

text \<open>A frame: a header that announces the body, and the envelope the body holds.\<close>

definition frame_of :: "externs \<Rightarrow> bytes \<Rightarrow> bytes \<Rightarrow> network_envelope \<Rightarrow> bool" where
  "frame_of x hdr bd e \<longleftrightarrow>
     length hdr = FRAME_LENGTH_PREFIX_BYTES \<and> decode_length_prefix hdr = Inr (length bd) \<and>
     decode_body (x_de x) bd = Inr e"

text \<open>The frame that starts what was written is the one written.\<close>

lemma frame_of_written:
  assumes enc: "encode_framed ser e = Inr framed" and ok: "postcard_ok ser (x_de x) e"
    and frame: "frame_of x hdr bd e'" and pre: "prefix (hdr @ bd) framed"
  shows "e' = e"
proof -
  obtain bs where ser: "ser e = Inr bs" and len: "length bs \<le> MAX_WIRE_FRAME_BYTES"
      and framed: "framed = to_be_bytes (of_nat (length bs)) @ bs"
    using enc by (auto simp: encode_framed_Inr)
  have de: "bs \<noteq> []" "x_de x bs = Some e" using ok ser by (auto simp: postcard_ok_def)
  obtain rest where rest: "framed = hdr @ bd @ rest" using pre by (auto simp: prefix_def)
  have "length hdr = length (to_be_bytes (of_nat (length bs)))"
    using frame by (simp add: frame_of_def FRAME_LENGTH_PREFIX_BYTES_def)
  with rest framed have hdr: "hdr = to_be_bytes (of_nat (length bs))" and bd: "bs = bd @ rest"
    by (metis append_eq_append_conv)+
  have "length bd = length bs"
    using frame de len hdr by (simp add: frame_of_def net_frame.prefix_of_body)
  with bd have "bd = bs" by simp
  with frame de show ?thesis by (auto simp: frame_of_def decode_body_Inr)
qed

section \<open>The sender\<close>

text \<open>The whole traffic of a stream: the text went out, a positive acknowledgement came in.\<close>

definition exchanged :: "externs \<Rightarrow> uuid \<Rightarrow> string \<Rightarrow> stream \<Rightarrow> log \<Rightarrow> bool" where
  "exchanged x mid t s h \<longleftrightarrow>
     (\<exists>rid me now hdr bd e a.
        encode_framed (x_ser x) (text_envelope rid mid me now t) = Inr (written s h) \<and>
        got s h = hdr @ bd \<and> frame_of x hdr bd e \<and> body e = Ack a \<and> ap_accepted a)"

definition untouched :: "log \<Rightarrow> bool" where
  "untouched h \<longleftrightarrow> (\<forall>s. written s h = [] \<and> got s h = [])"

lemma untouched_simps [simp]: "untouched []"
  "untouched ((Locked env, w, w') # h) = untouched h" "untouched ((Fresh_uuid u, w, w') # h) = untouched h"
  "untouched ((Dialled a r1, w, w') # h) = untouched h" "untouched ((Opened c r2, w, w') # h) = untouched h"
  "untouched ((Clock n, w, w') # h) = untouched h"
  by (simp_all add: untouched_def)

lemma exchanged_locked [simp]: "exchanged x mid t s ((Locked env, w, w') # h) = exchanged x mid t s h"
  by (simp add: exchanged_def)

abbreviation any_step :: "log \<Rightarrow> entry \<Rightarrow> bool" where
  "any_step \<equiv> \<lambda>_ _. True"

lemma always_send_on_exchanged:
  assumes "untouched h"
    and k: "\<And>h' r. (r = Inr () \<Longrightarrow> \<exists>s\<in>opened h'. exchanged x mid t s h') \<Longrightarrow> always any_step Q h' (k r)"
  shows "always any_step Q h (send_on x c my_id mid t k)"
proof -
  have fail: "always any_step Q h' (k (Inl e))" for h' e by (rule k) simp
  have ack: "always any_step Q h' (k (ack_result (body e)))"
    if "decode_body (x_de x) bd = Inr e" "decode_length_prefix hdr = Inr (length bd)"
      "length hdr = FRAME_LENGTH_PREFIX_BYTES" "got s h' = hdr @ bd" "s \<in> opened h'"
      "encode_framed (x_ser x) (text_envelope rid mid my_id now t) = Inr (written s h')"
    for h' e s rid now hdr bd
  proof (rule k)
    assume "ack_result (body e) = Inr ()"
    then show "\<exists>s\<in>opened h'. exchanged x mid t s h'"
      using that unfolding ack_result_ok exchanged_def frame_of_def by blast
  qed
  show ?thesis
    using assms(1)
    by (auto simp: send_on_def write_envelope_def read_envelope_def always_simps untouched_def frame_of_def
        split: sum.split option.split intro!: fail ack)
qed

lemma always_send_text_exchanged:
  assumes "untouched h"
    and k: "\<And>h' r. (r = Inr () \<Longrightarrow> \<exists>s\<in>opened h'. exchanged x mid t s h') \<Longrightarrow> always any_step Q h' (k r)"
  shows "always any_step Q h (send_text x addr remote my_id mid t k)"
proof -
  have fail: "always any_step Q h' (k (Inl e))" for h' e by (rule k) simp
  have k': "always any_step Q h' (case r of
        Inl e \<Rightarrow> locked (lock_mark_offline remote) (\<lambda>_. k (Inl e))
      | Inr _ \<Rightarrow> k (Inr ()))"
    if "r = Inr () \<Longrightarrow> \<exists>s\<in>opened h'. exchanged x mid t s h'" for h' r
    using that by (cases r) (auto simp: always_locked intro!: k)
  show ?thesis
    using assms(1) unfolding send_text_def send_text_inner_def
    by (auto simp: always_reading always_locked always_simps split: option.split sum.split prod.split
        intro!: fail k' always_send_on_exchanged)
qed

text \<open>What a response to \<open>send_text\<close> says of the log when it is positive.\<close>

definition answer_ok :: "externs \<Rightarrow> ipc_request \<Rightarrow> log \<Rightarrow> ipc_response option \<Rightarrow> bool" where
  "answer_ok x req h r \<longleftrightarrow>
     (\<forall>rs. r = Some rs \<and> rs_ok rs \<longrightarrow>
        (\<exists>t mid s. get_str (rq_params req) ''text'' = Some t \<and> s \<in> opened h \<and> exchanged x mid t s h))"

lemma answer_ok_err [simp]: "answer_ok x req h (Some (err_response q c m))"
  by (simp add: answer_ok_def err_response_def response_err_def)

lemma always_handle_send_text: "always any_step (answer_ok x req) [] (handle_send_text x req)"
proof -
  have finish: "always any_step (answer_ok x req) h
      (locked (lock_finish_send x req eid mid r) reply)"
    if "get_str (rq_params req) ''text'' = Some t"
      "r = Inr () \<Longrightarrow> \<exists>s\<in>opened h. exchanged x mid t s h" for h r eid mid t
    using that
    by (cases r) (auto simp: always_locked reply_def lock_finish_send_def Let_def answer_ok_def err_response_def
        response_err_def)
  show ?thesis
    unfolding handle_send_text_def
    by (auto simp: always_reading always_locked always_simps reply_def
        split: option.split sum.split prod.split intro!: always_send_text_exchanged finish)
qed

section \<open>The receiver\<close>

text \<open>The first frame that the handler of a stream read.\<close>

definition first_frame :: "externs \<Rightarrow> stream \<Rightarrow> network_envelope \<Rightarrow> log \<Rightarrow> bool" where
  "first_frame x s e h \<longleftrightarrow>
     (\<exists>hdr bd. frame_of x hdr bd e \<and> prefix (hdr @ bd) (got s h))"

definition served_text :: "externs \<Rightarrow> string \<Rightarrow> stream \<Rightarrow> log \<Rightarrow> bool" where
  "served_text x remote s h \<longleftrightarrow>
     (written s h \<noteq> [] \<longrightarrow>
       (\<exists>e. first_frame x s e h \<and>
          (\<forall>p. body e = Text p \<longrightarrow>
             (\<exists>out. encode_framed (x_ser x) out = Inr (written s h) \<and>
                (\<forall>a. body out = Ack a \<longrightarrow> recorded x remote p h)))))"

lemma always_any:
  assumes "K h" and "\<And>h e. K h \<Longrightarrow> K (e # h)" and "\<And>h e. K h \<Longrightarrow> P h e"
  shows "always P (\<lambda>h r. True) h t"
  by (rule always_coind [where R = "\<lambda>h t. K h"]) (use assms in auto)

lemma first_frame_later: "first_frame x s e h \<Longrightarrow> first_frame x s e (ev # h)"
  unfolding first_frame_def got.simps by (meson prefix_order.trans prefixI)

abbreviation serves :: "externs \<Rightarrow> string \<Rightarrow> stream \<Rightarrow> log \<Rightarrow> task \<Rightarrow> bool" where
  "serves x remote s \<equiv> always (\<lambda>h e. served_text x remote s (e # h)) (\<lambda>h r. True)"

lemma serves_no_text:
  assumes "first_frame x s e h" and "\<And>p. body e \<noteq> Text p"
  shows "serves x remote s h t"
proof (rule always_any [where K = "first_frame x s e"])
  show "served_text x remote s (ev # h')" if "first_frame x s e h'" for h' ev
    using first_frame_later [OF that, of ev] assms(2) unfolding served_text_def by blast
qed (use assms first_frame_later in auto)

text \<open>An envelope may answer a text if it is no acknowledgement, or if the text is recorded.\<close>

definition may_answer ::
  "externs \<Rightarrow> string \<Rightarrow> network_envelope \<Rightarrow> network_envelope \<Rightarrow> log \<Rightarrow> bool" where
  "may_answer x remote i out h \<longleftrightarrow>
     (\<forall>p a. body i = Text p \<and> body out = Ack a \<longrightarrow> recorded x remote p h)"

lemma recorded_later: "recorded x remote p h \<Longrightarrow> recorded x remote p (ev # h)"
  by (auto simp: recorded_def)

lemma served_text_silent: "written s h = [] \<Longrightarrow> served_text x remote s h"
  by (simp add: served_text_def)

lemma served_text_answer:
  assumes "first_frame x s i h" and "may_answer x remote i out h"
    and "written s h = [] \<or> encode_framed (x_ser x) out = Inr (written s h)"
  shows "served_text x remote s h"
  using assms unfolding served_text_def may_answer_def by blast

lemma may_answer_later: "may_answer x remote i out h \<Longrightarrow> may_answer x remote i out (ev # h)"
  using recorded_later unfolding may_answer_def by blast

lemma serves_answer:
  assumes "written s h = []" and "first_frame x s i h" and "may_answer x remote i out h"
  shows "serves x remote s h (answer_with x s out res (\<lambda>_. Done None))"
    and "serves x remote s h (write_envelope x s out None (\<lambda>_. Finish s (Done None)))"
  using assms
  by (auto simp: answer_with_def write_envelope_def or_timeout_def always_simps
      split: sum.split option.split
      intro!: served_text_answer [of x s i _ remote out] first_frame_later may_answer_later)

lemma may_answer_simps [simp]:
  "may_answer x remote i (error_envelope rid c m) h"
  "(\<And>p. body i \<noteq> Text p) \<Longrightarrow> may_answer x remote i out h"
  "body i = Text p \<Longrightarrow> may_answer x remote i (ack_envelope rid mid)
     ((Locked env, w, fst (lock_record_incoming x remote l p env w)) # h)"
  by (auto simp: may_answer_def error_envelope_def envelope_new_def recorded_def)

lemma serves_text:
  assumes "written s h = []" and "first_frame x s i h" and "body i = Text p"
  shows "serves x remote s h (handle_text x remote rid p s (\<lambda>_. Done None))"
  unfolding handle_text_def
  using assms
  by (auto simp: always_reading always_locked split: option.split sum.split
      intro!: serves_answer [of s _ x i] first_frame_later served_text_silent)

lemma serves_message:
  assumes "written s h = []" and "first_frame x s i h"
  shows "serves x remote s h
    (case body i of
       Text p \<Rightarrow> handle_text x remote (request_id i) p s (\<lambda>_. Done None)
     | Ping \<Rightarrow> answer_with x s (envelope_new (request_id i) Pong) (Inr ()) (\<lambda>_. Done None)
     | PairRequest req \<Rightarrow> handle_pair_request x remote req s (\<lambda>_. Done None)
     | other \<Rightarrow>
         write_envelope x s
           (error_envelope (request_id i) ''unexpected_message''
              (''unexpected opening message: '' @ x_dbg_body x other)) None
           (\<lambda>_. Finish s (Done None)))"
  using assms
  by (auto split: network_body.split intro: serves_text serves_no_text [of x s i])

lemma serves_stream:
  assumes "got s h = []" and "written s h = []"
  shows "serves x remote s h (handle_incoming_stream x remote s (\<lambda>_. Done None))"
proof -
  have "serves x remote s h'
    (case body i of
       Text p \<Rightarrow> handle_text x remote (request_id i) p s (\<lambda>_. Done None)
     | Ping \<Rightarrow> answer_with x s (envelope_new (request_id i) Pong) (Inr ()) (\<lambda>_. Done None)
     | PairRequest req \<Rightarrow> handle_pair_request x remote req s (\<lambda>_. Done None)
     | other \<Rightarrow>
         write_envelope x s
           (error_envelope (request_id i) ''unexpected_message''
              (''unexpected opening message: '' @ x_dbg_body x other)) None
           (\<lambda>_. Finish s (Done None)))"
    if "written s h' = []" and "got s h' = hdr @ bd" and "frame_of x hdr bd i" for h' hdr bd i
    using that by (intro serves_message) (auto simp: first_frame_def)
  then show ?thesis
    unfolding handle_incoming_stream_def read_envelope_def
    using assms
    by (auto simp: always_simps or_timeout_def frame_of_def served_text_silent split: sum.split option.split)
qed

section \<open>Both machines\<close>

text \<open>
  The streams of the sender lead to the stream that the other machine serves: each side reads a
  beginning of what the other side wrote, and both sides decode what the other side encodes.
\<close>

definition linked :: "externs \<Rightarrow> log \<Rightarrow> externs \<Rightarrow> stream \<Rightarrow> log \<Rightarrow> bool" where
  "linked x h y s h' \<longleftrightarrow>
     (\<forall>s' \<in> opened h. prefix (got s h') (written s' h) \<and> prefix (got s' h) (written s h')) \<and>
     (\<forall>e. postcard_ok (x_ser x) (x_de y) e \<and> postcard_ok (x_ser y) (x_de x) e)"

text \<open>All that the sender wrote on one of its streams is the frame of a text with this id.\<close>

definition wrote_text :: "externs \<Rightarrow> string \<Rightarrow> uuid \<Rightarrow> log \<Rightarrow> bool" where
  "wrote_text x t i h \<longleftrightarrow>
     (\<exists>s \<in> opened h. \<exists>rid me now. encode_framed (x_ser x) (text_envelope rid i me now t) = Inr (written s h))"

lemma answered_text_recorded:
  assumes a: "task_log (handle_send_text x req) h (Done (Some rs))" and ok: "rs_ok rs"
    and b: "task_log (handle_incoming_stream y remote s (\<lambda>_. Done None)) h' u"
    and link: "linked x h y s h'"
  shows "\<exists>t p. get_str (rq_params req) ''text'' = Some t \<and> tp_text p = t \<and>
    wrote_text x t (tp_message_id p) h \<and> recorded y remote p h'"
proof -
  have "answer_ok x req h (Some rs)"
    using task_log_always [OF a always_handle_send_text] by simp
  with ok obtain t mid s' where t: "get_str (rq_params req) ''text'' = Some t"
      and s': "s' \<in> opened h" and ex: "exchanged x mid t s' h"
    by (auto simp: answer_ok_def)
  from ex obtain rid me now hdr bd e ap where
      out: "encode_framed (x_ser x) (text_envelope rid mid me now t) = Inr (written s' h)"
      and reply: "got s' h = hdr @ bd" "frame_of x hdr bd e" "body e = Ack ap"
    by (auto simp: exchanged_def)
  have ack: "prefix (hdr @ bd) (written s h')" and arr: "prefix (got s h') (written s' h)"
    using link s' reply(1) by (auto simp: linked_def)
  have "hdr \<noteq> []" using reply(2) by (auto simp: frame_of_def FRAME_LENGTH_PREFIX_BYTES_def)
  with ack have "written s h' \<noteq> []" by auto
  then have "h' \<noteq> []" by auto
  then have "served_text y remote s h'"
    using task_log_always [OF b serves_stream] by (auto simp: neq_Nil_conv)
  with \<open>written s h' \<noteq> []\<close> obtain i where i: "first_frame y s i h'"
      and served: "\<And>p. body i = Text p \<Longrightarrow> \<exists>out. encode_framed (x_ser y) out = Inr (written s h') \<and>
        (\<forall>a. body out = Ack a \<longrightarrow> recorded y remote p h')"
    by (auto simp: served_text_def)
  from i obtain hdr' bd' where "frame_of y hdr' bd' i" "prefix (hdr' @ bd') (written s' h)"
    unfolding first_frame_def using arr prefix_order.trans by blast
  with out link have i': "i = text_envelope rid mid me now t"
    by (intro frame_of_written [where x = y]) (auto simp: linked_def)
  obtain p where p: "body i = Text p" "tp_text p = t" "tp_message_id p = mid"
    unfolding i' text_envelope_def envelope_new_def by auto
  have "wrote_text x t (tp_message_id p) h"
    using s' out p(3) unfolding wrote_text_def by blast
  from served [OF p(1)] obtain out' where out': "encode_framed (x_ser y) out' = Inr (written s h')"
      and rec: "\<And>a. body out' = Ack a \<Longrightarrow> recorded y remote p h'" by blast
  have "e = out'"
    using out' reply(2) ack link by (intro frame_of_written [where x = x]) (auto simp: linked_def)
  with rec reply(3) t p(2) \<open>wrote_text x t (tp_message_id p) h\<close> show ?thesis by blast
qed

lemma dispatched_text_recorded:
  assumes "task_log (handle x pf req ev) h (Done (Some rs))" and "rq_method req = SEND_TEXT" and "rs_ok rs"
    and "task_log (handle_incoming_stream y remote s (\<lambda>_. Done None)) h' u" and "linked x h y s h'"
  shows "\<exists>t p. get_str (rq_params req) ''text'' = Some t \<and> tp_text p = t \<and>
    wrote_text x t (tp_message_id p) h \<and> recorded y remote p h'"
proof -
  have "handle x pf req ev = handle_send_text x req \<or>
      (\<exists>m. handle x pf req ev = reply (err_response req VERSION_MISMATCH m))"
    using assms(2) by (auto simp: handle_def handle_method_def Let_def)
  then show ?thesis
  proof
    assume "handle x pf req ev = handle_send_text x req"
    with assms show ?thesis by (intro answered_text_recorded) auto
  next
    assume "\<exists>m. handle x pf req ev = reply (err_response req VERSION_MISMATCH m)"
    then obtain m where m: "handle x pf req ev = Done (Some (err_response req VERSION_MISMATCH m))"
      by (auto simp: reply_def)
    have "always any_step (\<lambda>h r. r = Some (err_response req VERSION_MISMATCH m)) [] (handle x pf req ev)"
      by (simp add: m)
    then have "rs = err_response req VERSION_MISMATCH m"
      using task_log_always [OF assms(1)] by fastforce
    with assms(3) show ?thesis by (simp add: err_response_def response_err_def)
  qed
qed

text \<open>
  A logged step stored the text as the newest message of the sender's history, or found its id among
  those recorded from this sender and left the store as it was.
\<close>

definition text_arrived :: "externs \<Rightarrow> string \<Rightarrow> text_payload \<Rightarrow> log \<Rightarrow> bool" where
  "text_arrived x remote p h \<longleftrightarrow>
     (\<exists>env w w' label. (Locked env, w, w') \<in> set h \<and> w' = fst (lock_record_incoming x remote label p env w) \<and>
        (if dedup_contains (dedup_cache (st_conversations (app w))) (remote, tp_message_id p)
         then st_conversations (app w') = st_conversations (app w)
         else \<exists>m. stores_message remote m w w' \<and> sm_id m = tp_message_id p \<and> sm_text m = tp_text p))"

lemma recorded_arrived: "recorded x remote p h \<Longrightarrow> text_arrived x remote p h"
proof -
  assume "recorded x remote p h"
  then obtain env w label where e: "(Locked env, w, fst (lock_record_incoming x remote label p env w)) \<in> set h"
    by (auto simp: recorded_def)
  let ?w' = "fst (lock_record_incoming x remote label p env w)"
  have "if dedup_contains (dedup_cache (st_conversations (app w))) (remote, tp_message_id p)
      then st_conversations (app ?w') = st_conversations (app w)
      else \<exists>m. stores_message remote m w ?w' \<and> sm_id m = tp_message_id p \<and> sm_text m = tp_text p"
  proof (cases "dedup_contains (dedup_cache (st_conversations (app w))) (remote, tp_message_id p)")
    case True
    then show ?thesis using record_incoming_known [OF True, of x label env] by simp
  next
    case False
    from record_incoming_stores [OF False refl, of x label env] False show ?thesis by auto
  qed
  with e show ?thesis unfolding text_arrived_def by (intro exI conjI) (assumption | rule refl)+
qed

text \<open>
  C3.  A sent text arrives, end to end.  When \<open>lcp send\<close> ends with success, the given text was
  stored by the other machine: if every answer to the request \<open>send_text\<close> comes from the local
  daemon's dispatcher, as the connection between the two guarantees, and the streams that this run
  of the dispatcher opened lead to the daemon that served them, then the local daemon wrote the text
  under one id, and a logged step of the other one appended a message with exactly this
  text and this id to the history it keeps of the sender -- whatever else the two daemons, the clocks, the random numbers and the
  network did in between.  Only when the id was in that daemon's cache of ids recorded from this
  sender does the step leave the store as it is.
\<close>

theorem send_reaches_peer:
  assumes "exits (cli_main cx json (Send peer use_stdin arg)) acts SUCCESS"
    and "\<And>p rs. Called SEND_TEXT p (Some rs) \<in> set acts \<Longrightarrow>
      \<exists>req ev r. rq_method req = SEND_TEXT \<and> rq_params req = p \<and> rs = reread_response r \<and>
        task_log (handle x pf req ev) h (Done (Some r))"
    and "task_log (handle_incoming_stream y remote s (\<lambda>_. Done None)) h' u" and "linked x h y s h'"
  shows "\<exists>t p. text_given use_stdin arg acts t \<and> tp_text p = t \<and>
    wrote_text x t (tp_message_id p) h \<and> text_arrived y remote p h'"
proof -
  have acts: "sent_ok use_stdin arg acts SUCCESS"
      "\<And>xs a ys. acts = xs @ a # ys \<Longrightarrow> sends_given peer use_stdin arg ys a"
    using csafe_send_run assms(1) exits_safe does_safe by (fastforce simp: exits_def does_def)+
  from acts(1) obtain m q rs k v where k: "acts = Did_out m # Called SEND_TEXT q (Some rs) # k"
      and rs: "unwrap_response rs = Inr v"
    by (auto simp: sent_ok_def)
  have "sends_given peer use_stdin arg k (Called SEND_TEXT q (Some rs))"
    using acts(2) [of "[Did_out m]"] k by simp
  then obtain t where t: "text_given use_stdin arg k t"
      and q: "q = JObj [(''peer'', JStr peer), (''text'', JStr t)]"
    by (auto simp: sends_given_def)
  from assms(2) k obtain req ev r where req: "rq_method req = SEND_TEXT" "rq_params req = q"
      and r: "rs = reread_response r" and run: "task_log (handle x pf req ev) h (Done (Some r))"
    by fastforce
  have "rs_ok r" using rs r by (auto simp: unwrap_response_def reread_response_def split: if_splits)
  with dispatched_text_recorded [OF run req(1) _ assms(3,4)] obtain t' p where
      p: "get_str (rq_params req) ''text'' = Some t'" "tp_text p = t'"
        "wrote_text x t' (tp_message_id p) h" "recorded y remote p h'"
    by blast
  have "t' = t" using p(1) req(2) q by (simp add: get_str_def)
  moreover have "text_given use_stdin arg acts t"
    using text_given_later [OF t, of "[Did_out m, Called SEND_TEXT q (Some rs)]"] k by simp
  ultimately show ?thesis using p recorded_arrived by blast
qed

subsection \<open>One delivery\<close>

text \<open>Two machines whose codec knows one text and its acknowledgement.\<close>

definition hi_text :: network_envelope where
  "hi_text = text_envelope 12 11 ''aa'' 1000 ''hi''"

definition hi_ack :: network_envelope where
  "hi_ack = ack_envelope 12 11"

definition hi_externs :: externs where
  "hi_externs = demo_externs
     \<lparr>x_ser := (\<lambda>e. if e = hi_text then Inr [1] else if e = hi_ack then Inr [2] else Inl ''unknown''),
      x_de := (\<lambda>bs. if bs = [1] then Some hi_text else if bs = [2] then Some hi_ack else None)\<rparr>"

primrec run_log :: "task \<Rightarrow> log \<Rightarrow> (event \<times> world) list \<Rightarrow> (log \<times> task) option" where
  "run_log t h [] = Some (h, t)"
| "run_log t h (step # steps) =
     (case estep t (fst step) (snd step) of
        None \<Rightarrow> None
      | Some (w', t', ts) \<Rightarrow> run_log t' ((fst step, snd step, w') # h) steps)"

lemma run_log_task_log: "task_log t h u \<Longrightarrow> run_log u h steps = Some (h', u') \<Longrightarrow> task_log t h' u'"
  by (induction steps arbitrary: h u) (auto split: option.splits intro: log_step)

lemma run_log_worlds:
  "run_log u h steps = Some (h', u') \<Longrightarrow> (e, w, w') \<in> set h' \<Longrightarrow> (e, w, w') \<in> set h \<or> (e, w) \<in> set steps"
proof (induction steps arbitrary: h u)
  case (Cons a steps)
  then obtain w1 u1 where "run_log u1 ((fst a, snd a, w1) # h) steps = Some (h', u')"
    by (auto split: option.splits)
  from Cons.IH [OF this Cons.prems(2)] show ?case by (cases a) auto
qed simp

lemma run_log_events: "run_log u h steps = Some (h', u') \<Longrightarrow> map fst h' = rev (map fst steps) @ map fst h"
  by (induction steps arbitrary: h u) (auto split: option.splits)

definition hi_request :: ipc_request where
  "hi_request = sample_request SEND_TEXT (JObj [(''peer'', JStr ''ada''), (''text'', JStr ''hi'')])"

text \<open>Both tasks read, every step, the world in which the other machine is the only friend.\<close>

definition at_home :: "string \<Rightarrow> string \<Rightarrow> event list \<Rightarrow> (event \<times> world) list" where
  "at_home a eid = map (\<lambda>e. (e, map_config (\<lambda>c. c\<lparr>trusted_peers := [sample_peer a eid]\<rparr>) sample_world))"

definition hi_sending :: "event list" where
  "hi_sending =
     [Locked sample_env, Fresh_uuid 11, Locked sample_env, Locked sample_env, Dialled ''bb'' (Some (Inr (1, ''bb''))),
      Locked sample_env, Opened 1 (Inr 5), Fresh_uuid 12, Clock 1000,
      Wrote 5 (to_be_bytes 1 @ [1]) (Some (Inr ())), Finished 5,
      Got 5 4 (Some (Inr (to_be_bytes 1))), Got 5 1 (Some (Inr [2])), Locked sample_env]"

definition hi_serving :: "event list" where
  "hi_serving =
     [Got 3 4 (Some (Inr (to_be_bytes 1))), Got 3 1 (Some (Inr [1])), Locked sample_env, Locked sample_env,
      Wrote 3 (to_be_bytes 1 @ [2]) (Some (Inr ())), Finished 3]"

lemma hi_codec [simp]:
  "encode_framed (x_ser hi_externs) (text_envelope 12 11 ''aa'' 1000 ''hi'') = Inr (to_be_bytes 1 @ [1])"
  "encode_framed (x_ser hi_externs) (ack_envelope 12 11) = Inr (to_be_bytes 1 @ [2])"
  "decode_body (x_de hi_externs) [1] = Inr hi_text" "decode_body (x_de hi_externs) [2] = Inr hi_ack"
  by (simp_all add: net_frame.check_Inr_iff encode_framed_def decode_body_Inr MAX_WIRE_FRAME_BYTES_def
      hi_externs_def hi_text_def hi_ack_def text_envelope_def ack_envelope_def envelope_new_def)

lemma hi_postcard: "postcard_ok (x_ser hi_externs) (x_de hi_externs) e"
  by (simp add: postcard_ok_def hi_externs_def)

lemma hi_bodies:
  "body hi_text = Text \<lparr>tp_message_id = 11, tp_sender_endpoint_id = ''aa'', tp_sent_at_unix_ms = 1000, tp_text = ''hi''\<rparr>"
  "body hi_ack = Ack \<lparr>ap_message_id = 11, ap_accepted = True, ap_error_code = None\<rparr>" "request_id hi_text = 12"
  by (simp_all add: hi_text_def hi_ack_def text_envelope_def ack_envelope_def envelope_new_def)

lemma hi_addr: "x_key_addr hi_externs eid = Some eid" "x_public hi_externs k = ''aa''"
  "x_uuid_text hi_externs u = ''u7''"
  by (simp_all add: hi_externs_def demo_externs_def)

lemma hi_sent:
  "\<exists>h. run_log (handle hi_externs pf hi_request ev) [] (at_home ''ada'' ''bb'' hi_sending) =
     Some (h, Done (Some (ok_response hi_request (JObj [(''message_id'', JStr ''u7'')]))))"
  by (simp add: hi_sending_def at_home_def handle_def handle_method_def hi_request_def sample_request_def Let_def
      handle_send_text_def get_str_def validate_text_len_def MAX_TEXT_BYTES_def send_target_def resolve_peer_def
      resolve_identifier_def eq_ignore_ascii_case_def sample_world_def app_state_new_def sample_config_def config_default_def
      send_text_def send_text_inner_def send_on_def cached_for_def cached_connection_def write_envelope_def
      read_envelope_def FRAME_LENGTH_PREFIX_BYTES_def hi_bodies identity_endpoint_id_def find_alias_case_insensitive_def lock_finish_send_def reply_def
      hi_addr)

lemma hi_served:
  "\<exists>h. run_log (handle_incoming_stream hi_externs ''aa'' 3 (\<lambda>_. Done None)) []
     (at_home ''eve'' ''aa'' hi_serving) = Some (h, Done None)"
  by (simp add: hi_serving_def at_home_def handle_incoming_stream_def read_envelope_def FRAME_LENGTH_PREFIX_BYTES_def
      or_timeout_def hi_bodies handle_text_def trusted_alias_def validate_text_len_def MAX_TEXT_BYTES_def
      answer_with_def write_envelope_def sample_world_def app_state_new_def sample_config_def config_default_def)

definition hi_sent_log :: log where
  "hi_sent_log =
     fst (the (run_log (handle hi_externs MacOs hi_request 0) [] (at_home ''ada'' ''bb'' hi_sending)))"

definition hi_served_log :: log where
  "hi_served_log =
     fst (the (run_log (handle_incoming_stream hi_externs ''aa'' 3 (\<lambda>_. Done None)) []
       (at_home ''eve'' ''aa'' hi_serving)))"

lemma run_log_the:
  assumes "\<exists>h. run_log t [] steps = Some (h, u)"
  shows "task_log t (fst (the (run_log t [] steps))) u"
    and "map fst (fst (the (run_log t [] steps))) = rev (map fst steps)"
    and "(e, w, w') \<in> set (fst (the (run_log t [] steps))) \<Longrightarrow> (e, w) \<in> set steps"
  using assms run_log_task_log [OF log_start] run_log_events [of t "[]"] run_log_worlds [of t "[]"] by fastforce+

lemmas hi_runs = run_log_the(1) [OF hi_sent, of MacOs 0, folded hi_sent_log_def]
  run_log_the(1) [OF hi_served, folded hi_served_log_def]

lemma at_home_events [simp]: "map fst (at_home a eid es) = es"
  by (simp add: at_home_def comp_def)

lemmas hi_events = run_log_the(2) [OF hi_sent, of MacOs 0, folded hi_sent_log_def, unfolded at_home_events]
  run_log_the(2) [OF hi_served, folded hi_served_log_def, unfolded at_home_events]

text \<open>What a log says of its streams is said by its events.\<close>

lemma traffic_events:
  assumes "map fst h = map fst h'"
  shows "written s h = written s h'" and "got s h = got s h'" and "opened h = opened h'"
proof -
  have "written s h = concat (map (\<lambda>e. case e of Wrote s' bs r \<Rightarrow> if s' = s then bs else [] | _ \<Rightarrow> [])
      (rev (map fst h)))" for h :: log
    by (induction h) simp_all
  with assms show "written s h = written s h'" by simp
  have "got s h = concat (map (\<lambda>e. case e of
        Got s' n r \<Rightarrow> if s' = s then (case r of Some (Inr bs) \<Rightarrow> bs | _ \<Rightarrow> []) else []
      | _ \<Rightarrow> []) (rev (map fst h)))" for h :: log
    by (induction h) simp_all
  with assms show "got s h = got s h'" by simp
  have "opened h = {s. \<exists>c. Opened c (Inr s) \<in> set (map fst h)}" for h :: log
    by (auto simp: opened_def image_iff) (metis fst_conv, blast)
  with assms show "opened h = opened h'" by (simp only:)
qed

lemma hi_linked: "linked hi_externs hi_sent_log hi_externs 3 hi_served_log"
proof -
  let ?events = "map (\<lambda>e. (e, sample_world, sample_world))"
  have sent: "map fst hi_sent_log = map fst (?events (rev hi_sending))"
    and served: "map fst hi_served_log = map fst (?events (rev hi_serving))"
    by (simp_all add: hi_events comp_def)
  show ?thesis
    unfolding linked_def traffic_events [OF sent] traffic_events [OF served]
    by (simp add: hi_sending_def hi_serving_def hi_postcard)
qed

definition hi_acts :: "act list" where
  "hi_acts =
     [Got_stdin (MAX_TEXT_BYTES + 1) (Inr [104, 105]), Connected (Inr ()),
      Called SEND_TEXT (JObj [(''peer'', JStr ''ada''), (''text'', JStr ''hi'')])
        (Some (ok_response hi_request (JObj [(''message_id'', JStr ''u7'')]))),
      Did_out (''Sent to '' @ ''ada'' @ ''.'' @ nl)]"

lemma hi_acts_exits: "exits (cli_main plain_env False (Send ''ada'' True None)) (rev hi_acts) SUCCESS"
proof -
  have "map char_of [104, 105 :: nat] = ''hi''" by code_simp
  then have "script 30 hi_acts (cli_main plain_env False (Send ''ada'' True None))
      (cli_main plain_env False (Send ''ada'' True None)) = Some (Exit SUCCESS)"
    by (simp add: hi_acts_def send_run_def read_stdin_capped_def send_this_def cli_defs Let_def
        script_numeral MAX_TEXT_BYTES_def ok_response_def response_ok_def unwrap_response_def)
  from script_exits [OF this] show ?thesis .
qed

text \<open>The receiving daemon has an empty store, so what arrives is stored.\<close>

lemma hi_stored:
  assumes "text_arrived hi_externs ''aa'' p hi_served_log"
  shows "\<exists>env w w' m. (Locked env, w, w') \<in> set hi_served_log \<and> sm_text m = tp_text p \<and>
    messages_for (st_conversations (app w')) ''aa'' = [m]"
proof -
  obtain env w w' label where e: "(Locked env, w, w') \<in> set hi_served_log"
      and a: "if dedup_contains (dedup_cache (st_conversations (app w))) (''aa'', tp_message_id p)
         then st_conversations (app w') = st_conversations (app w)
         else \<exists>m. stores_message ''aa'' m w w' \<and> sm_id m = tp_message_id p \<and> sm_text m = tp_text p"
    using assms unfolding text_arrived_def by (elim exE conjE)
  have "(Locked env, w) \<in> set (at_home ''eve'' ''aa'' hi_serving)"
    using e run_log_the(3) [OF hi_served] unfolding hi_served_log_def by blast
  then have "st_conversations (app w) = store_new 100"
    by (auto simp: at_home_def sample_world_def app_state_new_def sample_config_def config_default_def
        DEFAULT_HISTORY_LIMIT_def)
  with a have "\<exists>m. sm_text m = tp_text p \<and> messages_for (st_conversations (app w')) ''aa'' = [m]"
    by (auto simp: store_new_def dedup_new_def dedup_contains_def stores_message_def messages_for_def Let_def)
  with e show ?thesis by blast
qed

theorem send_reaches_peer_witness:
  "\<exists>t env w w' m. text_given True None (rev hi_acts) t \<and>
     (Locked env, w, w') \<in> set hi_served_log \<and> sm_text m = t \<and>
     messages_for (st_conversations (app w')) ''aa'' = [m]"
proof -
  have "\<exists>t p. text_given True None (rev hi_acts) t \<and> tp_text p = t \<and>
      wrote_text hi_externs t (tp_message_id p) hi_sent_log \<and> text_arrived hi_externs ''aa'' p hi_served_log"
  proof (rule send_reaches_peer [OF hi_acts_exits _ hi_runs(2) hi_linked])
    fix p rs
    assume "Called SEND_TEXT p (Some rs) \<in> set (rev hi_acts)"
    then have "p = rq_params hi_request" and "rs = ok_response hi_request (JObj [(''message_id'', JStr ''u7'')])"
      by (auto simp: hi_acts_def hi_request_def sample_request_def)
    moreover have "reread_response (ok_response q (JObj kvs)) = ok_response q (JObj kvs)" for q kvs
      by (simp add: reread_response_def ok_response_def response_ok_def)
    moreover have "rq_method hi_request = SEND_TEXT" by (simp add: hi_request_def sample_request_def)
    ultimately show "\<exists>req ev r. rq_method req = SEND_TEXT \<and> rq_params req = p \<and> rs = reread_response r \<and>
        task_log (handle hi_externs MacOs req ev) hi_sent_log (Done (Some r))"
      using hi_runs(1) by metis
  qed
  then obtain t p where t: "text_given True None (rev hi_acts) t" "tp_text p = t" "text_arrived hi_externs ''aa'' p hi_served_log"
    by (elim exE conjE)
  obtain env w w' m where "(Locked env, w, w') \<in> set hi_served_log" "sm_text m = tp_text p"
      "messages_for (st_conversations (app w')) ''aa'' = [m]"
    using hi_stored [OF t(3)] by (elim exE conjE)
  with t(1,2) show ?thesis
    by blast
qed

end
