(* ===== verification/Lcp_Forms.thy ===== *)
theory Lcp_Forms
  imports Lcp_System
begin

text \<open>
  The form of the records in memory: what the types of \<open>conversation.rs\<close> and \<open>connection.rs\<close> leave
  open and every operation keeps.  A stored message is filed under its own peer, an incoming one has
  a receive sequence and an outgoing one has none; an entry of the connection registry has a
  connection exactly when it says online.  One more instance of the rules for every step of the
  daemon.
\<close>

section \<open>Well-formed records\<close>

definition message_form :: "string \<Rightarrow> stored_message \<Rightarrow> bool" where
  "message_form p m \<longleftrightarrow>
     sm_peer_id m = p \<and>
     (case sm_direction m of
        Incoming \<Rightarrow> sm_receive_sequence m \<noteq> None \<and> sm_status m \<noteq> Sending
      | Outgoing \<Rightarrow> sm_receive_sequence m = None \<and> sm_sender_label m = ''You'' \<and> sm_status m \<noteq> Received)"

definition store_form :: "conversation_store \<Rightarrow> bool" where
  "store_form s \<longleftrightarrow>
     (\<forall>p. \<forall>m \<in> set (messages_for s p). message_form p m) \<and>
     (\<forall>p i. latest_global s = Some (p, i) \<longrightarrow> latest_of s p = Some i)"

definition runtime_form :: "peer_runtime_state \<Rightarrow> bool" where
  "runtime_form st \<longleftrightarrow>
     prs_path st = UnknownPath \<and>
     prs_status st = (if prs_connection st = None then Offline else Online)"

definition registry_form :: "connection_registry \<Rightarrow> bool" where
  "registry_form r \<longleftrightarrow> (\<forall>e st. r e = Some st \<longrightarrow> runtime_form st)"

definition formed :: "world \<Rightarrow> bool" where
  "formed w \<longleftrightarrow> store_form (st_conversations (app w)) \<and> registry_form (peer_connections (app w))"

text \<open>What no operation changes.\<close>

definition fixed :: "world \<Rightarrow> local_identity \<times> instant" where
  "fixed w = (identity (app w), started_at (app w))"

section \<open>The operations keep it\<close>

lemma set_push_bounded: "set (push_bounded ms m l) \<subseteq> insert m (set ms)"
  using set_drop_subset [of _ "ms @ [m]"] by (auto simp: push_bounded_drop simp del: drop_append)

lemma store_form_new: "store_form (store_new l)"
  by (simp add: store_form_def store_new_def messages_for_def)

lemma store_form_incoming:
  assumes "store_form s"
  shows "store_form (fst (record_incoming s p label i sent_at received_at t))"
proof (cases "dedup_contains (dedup_cache s) (p, i)")
  case True
  then show ?thesis using assms by (simp add: record_incoming_dup)
next
  case False
  let ?s = "fst (record_incoming s p label i sent_at received_at t)"
  have "message_form q m" if "m \<in> set (messages_for ?s q)" for q m
    using that assms set_push_bounded unfolding messages_for_record_incoming [OF False]
    by (fastforce simp: store_form_def message_form_def split: if_splits)
  moreover have "latest_global ?s = Some (p, i)" and "latest_of ?s p = Some i"
    using global_step(1) [OF False] latest_of_step(1) [OF False] by simp_all
  ultimately show ?thesis by (simp add: store_form_def)
qed

lemma store_form_outgoing:
  assumes "store_form s" and "st \<noteq> Received"
  shows "store_form (fst (record_outgoing s p i t st now))"
proof -
  let ?s = "fst (record_outgoing s p i t st now)"
  have "message_form q m" if "m \<in> set (messages_for ?s q)" for q m
    using that assms set_push_bounded unfolding messages_for_record_outgoing
    by (fastforce simp: store_form_def message_form_def record_outgoing_def Let_def split: if_splits)
  moreover have "latest_global ?s = latest_global s" and "latest_of ?s q = latest_of s q" for q
    using global_step(2) latest_of_step(2) by simp_all
  ultimately show ?thesis using assms(1) by (simp add: store_form_def)
qed

lemma store_form_update:
  assumes "store_form s" and "st \<noteq> Received" and "st \<noteq> Sending"
  shows "store_form (update_outgoing_status s p i st)"
proof -
  let ?s = "update_outgoing_status s p i st"
  have upd: "message_form q y" if "\<forall>m \<in> set ms. message_form q m"
    "y \<in> set (update_first (\<lambda>m. sm_id m = i) (\<lambda>m. m\<lparr>sm_status := st\<rparr>) ms)" for q y ms
    using that assms(2,3) by (induction ms) (auto simp: message_form_def split: if_splits direction.splits)
  have "message_form q m" if "m \<in> set (messages_for ?s q)" for q m
    using that assms(1) upd [of "messages_for s p" p] by (auto simp: messages_for_update store_form_def split: if_splits)
  moreover have "latest_global ?s = latest_global s" and "latest_of ?s q = latest_of s q" for q
    using global_step(3) latest_of_step(3) by simp_all
  ultimately show ?thesis using assms(1) by (simp add: store_form_def)
qed

lemma store_form_limit: "store_form s \<Longrightarrow> store_form (set_history_limit s l)"
  using global_step(4) latest_of_step(4) by (simp add: store_form_def)

lemma registry_form_ops:
  assumes "registry_form r"
  shows "registry_form (mark_online r e c)" "registry_form (mark_offline r e)"
    "registry_form (fst (close_and_forget r e))"
  using assms
  by (auto simp: registry_form_def runtime_form_def mark_online_def mark_offline_def close_and_forget_def
      runtime_entry_def runtime_default_def split: option.splits)

section \<open>Every step of the daemon keeps it\<close>

text \<open>A step keeps the form, and it keeps the identity and the start time.\<close>

definition keeps_form :: "world \<Rightarrow> world \<Rightarrow> bool" where
  "keeps_form w w' \<longleftrightarrow> (formed w \<longrightarrow> formed w') \<and> fixed w' = fixed w"

lemma keeps_formI:
  assumes "identity (app w') = identity (app w)" and "started_at (app w') = started_at (app w)"
    and "store_form (st_conversations (app w)) \<Longrightarrow> store_form (st_conversations (app w'))"
    and "registry_form (peer_connections (app w)) \<Longrightarrow> registry_form (peer_connections (app w'))"
  shows "keeps_form w w'"
  using assms by (simp add: keeps_form_def fixed_def formed_def)

lemma broadcast_rest [simp]:
  "identity (app (broadcast_event env name payload w)) = identity (app w)"
  "started_at (app (broadcast_event env name payload w)) = started_at (app w)"
  "peer_connections (app (broadcast_event env name payload w)) = peer_connections (app w)"
  by (simp_all add: broadcast_event_def Let_def)

lemma keeps_marks:
  "keeps_form w (fst (lock_mark_online e c env w))" "keeps_form w (fst (lock_mark_offline e env w))"
  by (intro keeps_formI; simp add: lock_mark_online_def lock_mark_offline_def broadcast_peer_status_def
      registry_form_ops split: prod.split)+

lemma message_sections_rest:
  "identity (app (fst (lock_record_incoming x e label p env w))) = identity (app w)"
  "started_at (app (fst (lock_record_incoming x e label p env w))) = started_at (app w)"
  "peer_connections (app (fst (lock_record_incoming x e label p env w))) = peer_connections (app w)"
  "identity (app (fst (lock_record_sending x e mid t env w))) = identity (app w)"
  "started_at (app (fst (lock_record_sending x e mid t env w))) = started_at (app w)"
  "peer_connections (app (fst (lock_record_sending x e mid t env w))) = peer_connections (app w)"
  "identity (app (fst (lock_finish_send x req e mid r env w))) = identity (app w)"
  "started_at (app (fst (lock_finish_send x req e mid r env w))) = started_at (app w)"
  "peer_connections (app (fst (lock_finish_send x req e mid r env w))) = peer_connections (app w)"
  by (simp_all add: lock_record_incoming_def lock_record_sending_def lock_finish_send_def Let_def
      split: prod.split option.split record_outcome.split)

lemma keeps_messages:
  "keeps_form w (fst (lock_record_incoming x e label p env w))"
  "keeps_form w (fst (lock_record_sending x e mid t env w))"
  "keeps_form w (fst (lock_finish_send x req e mid r env w))"
  by (rule keeps_formI; simp add: message_sections_rest lock_message_sel store_form_incoming store_form_outgoing
      store_form_update split: sum.split)+

lemma registry_form_forget:
  "registry_form r \<Longrightarrow> close_and_forget r e = (r', c) \<Longrightarrow> registry_form r'"
  using registry_form_ops(3) [of r e] by simp

lemma keeps_requests:
  "keeps_form w (fst (lock_set_config x req key v env w))"
  "keeps_form w (fst (lock_reset_config x req env w))"
  "keeps_form w (fst (lock_rename_peer x req ident a env w))"
  "keeps_form w (fst (lock_unpair x req ident env w))"
  by (rule keeps_formI;
      auto simp: section_sel store_form_limit lock_set_config_def lock_reset_config_def
        lock_rename_peer_def lock_unpair_def save_config_eq Let_def dest: registry_form_forget
        split: prod.split sum.split option.split)+

lemma keeps_pairing:
  "keeps_form w (fst (lock_push_invite secret ttl text env w))"
  "keeps_form w (fst (lock_cancel_invite req env w))"
  "keeps_form w (fst (lock_take_decision pid env w))"
  "keeps_form w (fst (lock_subscribe req events env w))"
  "keeps_form w (fst (lock_check_invite now sec env w))"
  "keeps_form w (fst (lock_pending_inviter x pid joiner preq vs ch env w))"
  "keeps_form w (fst (lock_pending_joiner pid inviter dec vs ch env w))"
  "keeps_form w (fst (finish_pairing x pid peer dn dv consumed outcome env w))"
  by (rule keeps_formI;
      auto simp: lock_push_invite_def lock_cancel_invite_def lock_take_decision_def lock_subscribe_def
        add_subscriber_def lock_check_invite_def lock_pending_inviter_def lock_pending_joiner_def
        finish_pairing_def save_config_eq Let_def split: prod.split sum.split option.split bool.split)+

interpretation forms: daemon_rule keeps_form x "\<lambda>ch b. True" for x
  by unfold_locales (simp_all add: keeps_marks keeps_messages keeps_requests keeps_pairing,
      simp_all add: keeps_form_def formed_def fixed_def)

section \<open>Properties\<close>

text \<open>What the registry says of a peer depends on whether it holds a connection, open or closed.\<close>

definition presence :: "connection_registry \<Rightarrow> string \<Rightarrow> peer_status" where
  "presence r e =
     (case r e of
        None \<Rightarrow> UnknownStatus
      | Some st \<Rightarrow> if prs_connection st = None then Offline else Online)"

lemma status_presence: "registry_form r \<Longrightarrow> status_of closed r e = (presence r e, UnknownPath)"
  by (auto simp: registry_form_def runtime_form_def status_of_def presence_def has_open_def split: option.split)

lemma formed_start: "app w = app_state_new i c now \<Longrightarrow> formed w"
  by (simp add: formed_def app_state_new_def store_form_new registry_form_def)

text \<open>
  C10.  The records in memory keep their form.  From the start of the daemon, in every reachable state:
  every stored message is filed under its own peer; an incoming one has a receive sequence and
  never the status of one being sent; an outgoing one has neither a sequence nor the status
  received, and is labelled as the user's own; the globally latest message is the latest of its
  peer; the identity and the start time are those of the start.  A registry entry says online
  exactly when it holds a connection -- so the reported status never depends on whether that
  connection has closed, a peer that went away is reported online until a send to it fails, and the
  reported path is always unknown.
\<close>

theorem records_formed:
  assumes "app w0 = app_state_new i c now" and "reachable (daemon_tasks x pf allowed) w0 p"
  shows "formed (fst p) \<and> identity (app (fst p)) = i \<and> started_at (app (fst p)) = now \<and>
    (\<forall>closed e. status_of closed (peer_connections (app (fst p))) e =
       (presence (peer_connections (app (fst p))) e, UnknownPath))"
proof -
  have "formed (fst p) \<and> fixed (fst p) = fixed w0"
  proof (rule reachable_inv [where good = "\<lambda>w. formed w \<and> fixed w = fixed w0", OF assms(2)])
    show "always (\<lambda>h (e, w, w'). formed w \<and> fixed w = fixed w0 \<longrightarrow> formed w' \<and> fixed w' = fixed w0)
        (\<lambda>_ _. True) [] t" if "t \<in> daemon_tasks x pf allowed" for t
      by (rule always_mono [OF forms.daemon_tasks_keep [OF that]]) (auto simp: keeps_form_def)
  qed (simp add: formed_start [OF assms(1)])
  then show ?thesis
    using assms(1) status_presence by (simp add: formed_def fixed_def app_state_new_def)
qed

text \<open>A friend connects.\<close>

definition friend_config :: config where
  "friend_config = sample_config\<lparr>trusted_peers := [sample_peer ''ada'' ''bb'']\<rparr>"

definition friend_world :: world where
  "friend_world = sample_world\<lparr>app := app_state_new \<lparr>secret_key = replicate 32 7\<rparr> friend_config 0\<rparr>"

lemma friend_connects:
  "\<exists>w' us. run_schedule [(0, Locked sample_env), (0, Locked sample_env)] (friend_world, [accept demo_externs ''bb'' 1]) =
       Some (w', us) \<and> presence (peer_connections (app w')) ''bb'' = Online"
  by (simp add: accept_def accept_info_def friend_world_def friend_config_def is_trusted_def lock_accept_def
      app_state_new_def should_keep_inbound_def cached_connection_def presence_def mark_online_def)

theorem records_formed_witness:
  "\<exists>p. reachable (daemon_tasks demo_externs MacOs (\<lambda>_. True)) friend_world p \<and> formed (fst p) \<and>
     status_of (\<lambda>_. True) (peer_connections (app (fst p))) ''bb'' = (Online, UnknownPath)"
proof -
  let ?starts = "daemon_tasks demo_externs MacOs (\<lambda>_. True)"
  obtain w' us where run: "run_schedule [(0, Locked sample_env), (0, Locked sample_env)]
        (friend_world, map snd (map (\<lambda>t. ([] :: log, t)) [accept demo_externs ''bb'' 1])) = Some (w', us)"
      and online: "presence (peer_connections (app w')) ''bb'' = Online"
    using friend_connects by auto
  have "reachable ?starts friend_world (friend_world, map (\<lambda>t. ([], t)) [accept demo_externs ''bb'' 1])"
    by (rule reachable_starts) (auto simp: daemon_tasks_def)
  from run_schedule_reachable [OF this run] obtain ts where p: "reachable ?starts friend_world (w', ts)" by blast
  have "app friend_world = app_state_new \<lparr>secret_key = replicate 32 7\<rparr> friend_config 0"
    by (simp add: friend_world_def)
  from records_formed [OF this p] online p show ?thesis by (intro exI [of _ "(w', ts)"]) simp
qed

end
