(* ===== verification/Lcp_Origin.thy ===== *)
theory Lcp_Origin
  imports Lcp_Delivery Lcp_Forms
begin

text \<open>
  Where a text comes from, on the receiving machine: every stored message was recorded by a step
  that is in the log of some task, and what \<open>lcp copy\<close> puts on the clipboard is the text of such a
  message.
\<close>

section \<open>Steps that change the stored messages\<close>

text \<open>What a request can do to them; it cannot record an incoming message.\<close>

definition stores_locally :: "world \<Rightarrow> world \<Rightarrow> bool" where
  "stores_locally w w' \<longleftrightarrow>
     same_conversations w w' \<or>
     (\<exists>e i t now. st_conversations (app w') =
        fst (record_outgoing (st_conversations (app w)) e i t Sending now)) \<or>
     (\<exists>e i st. st_conversations (app w') = update_outgoing_status (st_conversations (app w)) e i st) \<or>
     (\<exists>l. st_conversations (app w') = set_history_limit (st_conversations (app w)) l)"

lemma stores_same [simp]: "st_conversations (app w') = st_conversations (app w) \<Longrightarrow> stores_locally w w'"
  by (simp add: stores_locally_def same_conversations_def)

lemma stores_limit:
  "st_conversations (app w') \<in> range (set_history_limit (st_conversations (app w))) \<Longrightarrow> stores_locally w w'"
  by (auto simp: stores_locally_def)

lemma stores_outgoing:
  "st_conversations (app w') = fst (record_outgoing (st_conversations (app w)) e i t Sending now) \<Longrightarrow>
     stores_locally w w'"
  "st_conversations (app w') = update_outgoing_status (st_conversations (app w)) e i st \<Longrightarrow> stores_locally w w'"
  unfolding stores_locally_def by blast+

lemma stores_config:
  "stores_locally w (fst (lock_set_config x req key v env w))"
  "stores_locally w (fst (lock_reset_config x req env w))"
proof -
  obtain c r where "set_by_key (st_config (app w)) key v = (c, r)" by fastforce
  then show "stores_locally w (fst (lock_set_config x req key v env w))"
    by (cases "r = Inr () \<and> saves_ok env w c \<and> key = ''history.limit_per_peer''")
      (auto simp: lock_set_config_sel intro: stores_limit)
  show "stores_locally w (fst (lock_reset_config x req env w))"
    by (rule stores_limit) (simp add: lock_reset_config_sel)
qed

interpretation stores: dispatch_rule stores_locally x "\<lambda>ch b. True" for x
  by unfold_locales (simp_all add: stores_config stores_outgoing(1) [OF lock_message_sel(2)] stores_outgoing(2) [OF lock_message_sel(5)]
      section_sel)

interpretation stores_talk: handshake_rule stores_locally x "\<lambda>ch b. True" for x
  by unfold_locales (simp_all add: section_sel)

lemma stores_handle: "always (\<lambda>h (e, w, w'). stores_locally w w') (\<lambda>_ _. True) h (handle x pf req ev)"
proof (rule stores.ok_always(1), rule stores.ok_dispatch)
  show "stores.ok (handle_join_invite x req)"
    by (auto simp: handle_join_invite_def split: option.split sum.split prod.split
        intro!: stores_talk.ok_join_pairing)
qed simp_all

text \<open>Any task: a request, or a connection that was authenticated as one of the endpoints \<open>A\<close>.\<close>

definition tasks_from :: "externs \<Rightarrow> platform \<Rightarrow> string set \<Rightarrow> task set" where
  "tasks_from x pf A =
     {t. (\<exists>remote \<in> A. \<exists>c. t = accept x remote c) \<or> (\<exists>req ev. t = handle x pf req ev)}"

definition message_rule :: "externs \<Rightarrow> string set \<Rightarrow> log \<Rightarrow> lock_env \<Rightarrow> world \<Rightarrow> world \<Rightarrow> bool" where
  "message_rule x A h env w w' \<longleftrightarrow> stores_locally w w' \<or> (\<exists>remote \<in> A. text_rule x remote h env w w')"

lemma tasks_from_rule:
  assumes "t \<in> tasks_from x pf A"
  shows "always (on_lock (message_rule x A)) (\<lambda>_ _. True) [] t"
proof -
  from assms consider remote c where "remote \<in> A" "t = accept x remote c" | req ev where "t = handle x pf req ev"
    by (auto simp: tasks_from_def)
  then show ?thesis
  proof cases
    case 1
    have "always (on_lock (text_rule x remote)) (\<lambda>_ _. True) [] (accept x remote c)"
      unfolding accept_def accept_streams_def
      by (auto simp: always_reading always_locked always_simps split: prod.split
          intro!: always_Accept_loop always_handle_incoming_stream)
    then show ?thesis
      unfolding 1 by (rule always_mono) (use 1 in \<open>auto simp: on_lock_def message_rule_def split: event.splits\<close>)
  next
    case 2
    show ?thesis
      unfolding 2
      by (rule always_mono [OF stores_handle]) (auto simp: on_lock_def message_rule_def split: event.splits)
  qed
qed

section \<open>The origin of a message\<close>

text \<open>
  An arrival: the step that recorded the text, before which it was read from a stream and the endpoint
  was seen as a trusted peer with the label of the message.  A departure: the step that recorded a text as being
  sent.
\<close>

definition arrival :: "externs \<Rightarrow> string \<Rightarrow> stored_message \<Rightarrow> log \<Rightarrow> entry \<Rightarrow> bool" where
  "arrival x e m h ent \<longleftrightarrow>
     (case ent of (ev, w, w') \<Rightarrow>
        \<exists>s i p now. received x s i h \<and> body i = Text p \<and> length (tp_text p) \<le> MAX_TEXT_BYTES \<and>
          seen_trusted e (sm_sender_label m) h \<and>
          sm_id m = tp_message_id p \<and> sm_text m = tp_text p \<and>
          st_conversations (app w') =
            fst (record_incoming (st_conversations (app w)) e (sm_sender_label m) (tp_message_id p)
              (tp_sent_at_unix_ms p) now (tp_text p)))"

definition departure :: "string \<Rightarrow> stored_message \<Rightarrow> log \<Rightarrow> entry \<Rightarrow> bool" where
  "departure e m h ent \<longleftrightarrow>
     (case ent of (ev, w, w') \<Rightarrow>
        \<exists>now. st_conversations (app w') =
          fst (record_outgoing (st_conversations (app w)) e (sm_id m) (sm_text m) Sending now))"

definition origin :: "externs \<Rightarrow> string set \<Rightarrow> string \<Rightarrow> stored_message \<Rightarrow> log \<Rightarrow> entry \<Rightarrow> bool" where
  "origin x A e m h ent \<longleftrightarrow>
     (case sm_direction m of
        Incoming \<Rightarrow> e \<in> A \<and> arrival x e m h ent
      | Outgoing \<Rightarrow> departure e m h ent)"

text \<open>A message in the store, whatever its status has become.\<close>

definition holds_message :: "string \<Rightarrow> stored_message \<Rightarrow> world \<Rightarrow> bool" where
  "holds_message e m w \<longleftrightarrow>
     (\<exists>m' \<in> set (messages_for (st_conversations (app w)) e). m'\<lparr>sm_status := sm_status m\<rparr> = m)"

lemma holds_incoming:
  assumes "st_conversations (app w') = fst (record_incoming (st_conversations (app w)) r l i sent_at now t)"
    and "\<not> holds_message e m w" and "holds_message e m w'"
  shows "e = r \<and> sm_direction m = Incoming \<and> sm_id m = i \<and> sm_text m = t \<and> sm_sender_label m = l"
proof (cases "dedup_contains (dedup_cache (st_conversations (app w))) (r, i)")
  case True
  with assms show ?thesis by (simp add: record_incoming_dup holds_message_def)
next
  case False
  from assms(3) obtain m' where m': "m' \<in> set (messages_for (st_conversations (app w')) e)"
      and m: "m'\<lparr>sm_status := sm_status m\<rparr> = m"
    by (auto simp: holds_message_def)
  from m'[unfolded assms(1) messages_for_record_incoming [OF False]] assms(2) m
  have "e = r" and new: "m' = \<lparr>sm_id = i, sm_peer_id = r, sm_direction = Incoming, sm_sender_label = l,
      sm_text = t, sm_sent_at_unix_ms = sent_at, sm_received_at_unix_ms = now,
      sm_receive_sequence = Some (next_receive_sequence (st_conversations (app w))), sm_status = Received\<rparr>"
    using set_push_bounded by (fastforce simp: holds_message_def split: if_splits)+
  with m show ?thesis by (metis stored_message.select_convs(1,3-5) stored_message.simps)
qed

lemma holds_local:
  assumes "stores_locally w w'" and "\<not> holds_message e m w" and "holds_message e m w'"
  shows "sm_direction m = Outgoing \<and> departure e m h (ev, w, w')"
proof -
  let ?s = "st_conversations (app w)" and ?s' = "st_conversations (app w')"
  from assms(3) obtain m' where m': "m' \<in> set (messages_for ?s' e)" and m: "m'\<lparr>sm_status := sm_status m\<rparr> = m"
    by (auto simp: holds_message_def)
  have not_new: "y\<lparr>sm_status := sm_status m\<rparr> \<noteq> m" if "y \<in> set (messages_for ?s e)" for y
    using assms(2) that by (auto simp: holds_message_def)
  have upd: "\<exists>y \<in> set ms. y\<lparr>sm_status := sm_status m\<rparr> = z\<lparr>sm_status := sm_status m\<rparr>"
    if "z \<in> set (update_first (\<lambda>m. sm_id m = i) (\<lambda>m. m\<lparr>sm_status := st\<rparr>) ms)" for z i st ms
    using that by (induction ms) (auto split: if_splits)
  from assms(1) consider "?s' = ?s" | f i t now where "?s' = fst (record_outgoing ?s f i t Sending now)"
    | f i st where "?s' = update_outgoing_status ?s f i st" | l where "?s' = set_history_limit ?s l"
    unfolding stores_locally_def same_conversations_def by blast
  then show ?thesis
  proof cases
    case (2 f i t now)
    from m'[unfolded 2 messages_for_record_outgoing] not_new m
    have f: "e = f" and new: "m' = snd (record_outgoing ?s f i t Sending now)"
      using set_push_bounded by (fastforce split: if_splits)+
    have "sm_direction m' = Outgoing" "sm_id m' = i" "sm_text m' = t"
      by (simp_all add: new record_outgoing_def Let_def)
    then have "sm_direction m = Outgoing" "sm_id m = i" "sm_text m = t"
      using m by (metis stored_message.simps(1,3,5) stored_message.surjective stored_message.update_convs(9))+
    with 2 f show ?thesis by (auto simp: departure_def)
  next
    case (3 f i st)
    from m' upd [of m' i st "messages_for ?s f"] not_new m show ?thesis
      by (auto simp: 3 messages_for_update split: if_splits)
  qed (use m' m not_new in auto)
qed

lemma message_cause:
  assumes "estep t ev w = Some (w', t', us)" and "on_lock (message_rule x A) h (ev, w, w')"
    and "\<not> holds_message e m w" and "holds_message e m w'"
  shows "origin x A e m h (ev, w, w')"
proof -
  have "app w' \<noteq> app w" using assms(3,4) by (auto simp: holds_message_def)
  with estep_app [OF assms(1)] assms(2) obtain env where "message_rule x A h env w w'" by auto
  then consider "stores_locally w w'" | remote s i p label where "remote \<in> A" "received x s i h" "body i = Text p"
      "length (tp_text p) \<le> MAX_TEXT_BYTES" "seen_trusted remote label h"
      "st_conversations (app w') = fst (record_incoming (st_conversations (app w)) remote label (tp_message_id p)
         (tp_sent_at_unix_ms p) (le_unix_ms env) (tp_text p))"
    unfolding message_rule_def text_rule_def using stores_same same_conversations_def by blast
  then show ?thesis
  proof cases
    case 1
    from holds_local [OF this assms(3,4)] show ?thesis by (simp add: origin_def)
  next
    case 2
    from holds_incoming [OF 2(6) assms(3,4)] 2 show ?thesis by (auto simp: origin_def arrival_def)
  qed
qed

text \<open>
  Every message in the store of a running daemon has an origin: an incoming one arrived on a
  connection that was authenticated as its peer, an outgoing one departed from this machine.
\<close>

lemma message_origin:
  assumes "reachable (tasks_from x pf A) w0 p" and "app w0 = app_state_new i c now"
    and "m \<in> set (messages_for (st_conversations (app (fst p))) e)"
  shows "logged p (origin x A e m)"
proof -
  have held: "holds_message e m (fst p)" using assms(3) by (force simp: holds_message_def)
  have "holds_message e m w0 \<or> logged p (origin x A e m)"
  proof (rule reachable_cause [where F = "holds_message e m", OF assms(1) _ _ held])
    show "always (on_lock (message_rule x A)) (\<lambda>_ _. True) [] t" if "t \<in> tasks_from x pf A" for t
      using that by (rule tasks_from_rule)
  qed (rule message_cause)
  moreover have "\<not> holds_message e m w0"
    by (simp add: assms(2) holds_message_def app_state_new_def store_new_def messages_for_def)
  ultimately show ?thesis by blast
qed

section \<open>What the clipboard receives\<close>

text \<open>What a positive response to \<open>get_latest_incoming\<close> says: it was read from the store.\<close>

definition answer_stored :: "externs \<Rightarrow> log \<Rightarrow> ipc_response option \<Rightarrow> bool" where
  "answer_stored x h r \<longleftrightarrow>
     (\<forall>rs. r = Some rs \<and> rs_ok rs \<longrightarrow>
        (\<exists>env w e m. (Locked env, w, w) \<in> set h \<and> m \<in> set (messages_for (st_conversations (app w)) e) \<and>
           rs_result rs = Some (message_json x m)))"

lemma find_mem: "find P xs = Some y \<Longrightarrow> y \<in> set xs"
  by (auto simp: find_Some_iff)

lemma latest_stored:
  "latest_incoming_for s e = Some m \<Longrightarrow> m \<in> set (messages_for s e)"
  "latest_incoming_global s = Some m \<Longrightarrow> m \<in> set (messages_for s (fst (the (latest_global s))))"
  by (auto simp: latest_incoming_for_def latest_incoming_global_def messages_for_def split: option.splits
      dest: find_mem)

lemma always_latest:
  assumes "rq_method req = GET_LATEST_INCOMING"
  shows "always any_step (answer_stored x) [] (handle x pf req ev)"
proof -
  have "answer_stored x [(Locked env, w, w)] (Some (latest_response x req env w))" for env w
    using latest_stored
    by (fastforce simp: answer_stored_def latest_response_def ok_response_def response_ok_def err_response_def
        response_err_def Let_def split: option.splits sum.splits)
  moreover have "answer_stored x [] (Some (err_response req v msg))" for v msg
    by (simp add: answer_stored_def err_response_def response_err_def)
  ultimately show ?thesis
    using assms
    by (simp add: handle_def handle_method_def handle_get_latest_incoming_def Let_def always_reading reply_def)
qed

section \<open>Properties\<close>

text \<open>
  C4.  A copied text has a known origin, end to end.  Suppose \<open>lcp copy\<close> writes \<open>t\<close> to the clipboard, and
  every answer to its request is one that the daemon's dispatcher gave, each of its steps in a
  state that the daemon reached from its start with the connections of the endpoints \<open>A\<close> and
  any requests interleaved.  Then \<open>t\<close> is the text of a message in the store of such a state.  If it
  is an incoming one, it is filed under an endpoint of \<open>A\<close>, and some logged step recorded exactly this
  text, of at most 5 MiB, after it was read from a stream and that endpoint was seen as a trusted
  peer with the label of the message.  If it is an outgoing one (a peer may have reused its id), a
  logged step of this machine recorded the text as being sent.  So an endpoint outside \<open>A\<close>, or one
  that was not trusted, puts nothing on the clipboard.
\<close>

theorem copied_text_origin:
  assumes "does (cli_main cx json (Copy peer False inc)) (xs @ Clipboard_written t r # ys)"
    and "app w0 = app_state_new i c now"
    and "\<And>q rs. Called GET_LATEST_INCOMING q (Some rs) \<in> set ys \<Longrightarrow>
      \<exists>req ev a h. rq_method req = GET_LATEST_INCOMING \<and> rs = reread_response a \<and>
        task_log (handle x pf req ev) h (Done (Some a)) \<and>
        (\<forall>(e, w, w') \<in> set h. \<exists>us. reachable (tasks_from x pf A) w0 (w, us))"
  shows "\<exists>p e m. reachable (tasks_from x pf A) w0 p \<and> m \<in> set (messages_for (st_conversations (app (fst p))) e) \<and>
    sm_text m = t \<and> logged p (origin x A e m)"
proof -
  have "clip_source (Copy peer False inc) ys t"
    using does_safe [OF assms(1) command_clips refl] by simp
  then obtain q rs v h' where ys: "ys = Called GET_LATEST_INCOMING q (Some rs) # h'"
      and rs: "unwrap_response rs = Inr v" and t: "t = str_field v ''text'' []"
    by (auto simp: clip_source_def has_text_def)
  then have "Called GET_LATEST_INCOMING q (Some rs) \<in> set ys" by simp
  from assms(3) [OF this] obtain req ev a h where
      req: "rq_method req = GET_LATEST_INCOMING" and a: "rs = reread_response a"
      and run: "task_log (handle x pf req ev) h (Done (Some a))"
      and "\<forall>(e, w, w') \<in> set h. \<exists>us. reachable (tasks_from x pf A) w0 (w, us)"
    by blast
  then have reached: "\<exists>us. reachable (tasks_from x pf A) w0 (w, us)" if "(e, w, w') \<in> set h" for e w w'
    using that by blast
  have "rs_ok a" using rs a by (auto simp: unwrap_response_def reread_response_def split: if_splits)
  moreover have "answer_stored x h (Some a)"
    using task_log_always [OF run always_latest [OF req]] by simp
  ultimately obtain env w e m where w: "(Locked env, w, w) \<in> set h"
      and m: "m \<in> set (messages_for (st_conversations (app w)) e)" "rs_result a = Some (message_json x m)"
    by (auto simp: answer_stored_def)
  have "v = message_json x m"
    using rs a m(2) \<open>rs_ok a\<close> by (simp add: unwrap_response_def reread_response_def message_json_def)
  then have said: "sm_text m = t"
    by (simp add: t message_json_def str_field_def get_str_def)
  from reached [OF w] obtain us where p: "reachable (tasks_from x pf A) w0 (w, us)" ..
  with message_origin [OF p assms(2)] m(1) said show ?thesis by (metis fst_conv)
qed

subsection \<open>One arrival\<close>

text \<open>The friend of \<open>Lcp_Forms\<close> connects and sends the text of \<open>Lcp_Delivery\<close>; it is copied.\<close>

definition arriving :: "(nat \<times> event) list" where
  "arriving =
     [(0, Locked sample_env), (0, Locked sample_env), (0, Accepted_stream 1 (Some 3)),
      (1, Got 3 4 (Some (Inr (to_be_bytes 1)))), (1, Got 3 1 (Some (Inr [1]))),
      (1, Locked sample_env), (1, Locked sample_env)]"

lemma first_incoming:
  assumes "0 < l"
  shows "\<exists>m. latest_incoming_global (fst (record_incoming (store_new l) e a i sent_at now t)) = Some m \<and> sm_text m = t"
  using assms
  by (simp add: latest_incoming_global_def record_incoming_def store_new_def dedup_contains_def dedup_new_def
      push_bounded_def entry_or_default_def conversation_default_def Let_def)

lemma sample_limit: "0 < unat (limit_per_peer (history_cfg sample_config))"
  by (simp add: sample_config_def config_default_def DEFAULT_HISTORY_LIMIT_def)

lemma hi_arrives:
  "\<exists>w' us. run_schedule arriving (friend_world, [accept hi_externs ''bb'' 1]) = Some (w', us) \<and>
     (\<exists>m. latest_incoming_global (st_conversations (app w')) = Some m \<and> sm_text m = ''hi'')"
  by (simp add: arriving_def accept_def accept_info_def friend_world_def friend_config_def is_trusted_def
      lock_accept_def app_state_new_def should_keep_inbound_def cached_connection_def accept_streams_def
      handle_incoming_stream_def read_envelope_def FRAME_LENGTH_PREFIX_BYTES_def or_timeout_def hi_bodies
      handle_text_def trusted_alias_def validate_text_len_def MAX_TEXT_BYTES_def
      first_incoming sample_limit)

definition latest_request :: ipc_request where
  "latest_request = sample_request GET_LATEST_INCOMING (JObj [])"

lemma latest_answered:
  assumes "latest_incoming_global (st_conversations (app w)) = Some m"
  shows "task_log (handle x pf latest_request ev) [(Locked sample_env, w, w)]
    (Done (Some (ok_response latest_request (message_json x m))))"
proof (rule log_step [OF log_start])
  show "estep (handle x pf latest_request ev) (Locked sample_env) w =
      Some (w, Done (Some (ok_response latest_request (message_json x m))), [])"
    using assms
    by (simp add: handle_def handle_method_def latest_request_def sample_request_def Let_def
        handle_get_latest_incoming_def latest_response_def get_str_def reply_def)
qed

definition copying :: "ipc_response \<Rightarrow> act list" where
  "copying rs =
     [Connected (Inr ()), Called GET_LATEST_INCOMING (JObj []) (Some rs), Clipboard_written ''hi'' (Inr ())]"

lemma copying_does:
  assumes "sm_text m = ''hi''"
  shows "does (cli_main plain_env False (Copy None False False))
    ([] @ Clipboard_written ''hi'' (Inr ()) # rev (butlast (copying (ok_response q (message_json x m)))))"
proof -
  have "str_field (message_json x m) ''text'' d = ''hi''" for d
    using assms by (simp add: message_json_def str_field_def get_str_def)
  then have "script 30 (copying (ok_response q (message_json x m))) (cli_main plain_env False (Copy None False False))
      (cli_main plain_env False (Copy None False False)) \<noteq> None"
    by (simp add: copying_def copy_run_def cli_defs peer_params_def script_numeral unwrap_response_def
        ok_response_def response_ok_def)
  from script_does [OF this] show ?thesis by (simp add: copying_def)
qed

theorem copied_text_origin_witness:
  "\<exists>p e m. reachable (tasks_from hi_externs MacOs {''bb''}) friend_world p \<and>
     m \<in> set (messages_for (st_conversations (app (fst p))) e) \<and> sm_text m = ''hi'' \<and>
     logged p (origin hi_externs {''bb''} e m)"
proof -
  let ?tasks = "tasks_from hi_externs MacOs {''bb''}" and ?pool = "map (\<lambda>t. ([] :: log, t)) [accept hi_externs ''bb'' 1]"
  obtain w us m where run: "run_schedule arriving (friend_world, map snd ?pool) = Some (w, us)"
      and m: "latest_incoming_global (st_conversations (app w)) = Some m" "sm_text m = ''hi''"
    using hi_arrives by auto
  have "reachable ?tasks friend_world (friend_world, ?pool)"
    by (rule reachable_starts) (auto simp: tasks_from_def)
  from run_schedule_reachable [OF this run] have reached: "\<exists>us. reachable ?tasks friend_world (w, us)" by blast
  have start: "app friend_world = app_state_new \<lparr>secret_key = replicate 32 7\<rparr> friend_config 0"
    by (simp add: friend_world_def)
  show ?thesis
  proof (rule copied_text_origin [OF copying_does [OF m(2), of latest_request hi_externs] start])
    fix q rs
    assume "Called GET_LATEST_INCOMING q (Some rs) \<in>
      set (rev (butlast (copying (ok_response latest_request (message_json hi_externs m)))))"
    then have rs: "rs = ok_response latest_request (message_json hi_externs m)"
      by (simp add: copying_def)
    then have "rs = reread_response rs"
      by (simp add: reread_response_def ok_response_def response_ok_def message_json_def)
    with latest_answered [OF m(1), of hi_externs MacOs 0, folded rs] reached
    show "\<exists>req ev a h. rq_method req = GET_LATEST_INCOMING \<and> rs = reread_response a \<and>
        task_log (handle hi_externs MacOs req ev) h (Done (Some a)) \<and>
        (\<forall>(e, w, w') \<in> set h. \<exists>us. reachable ?tasks friend_world (w, us))"
      by (intro exI [of _ latest_request] exI [of _ 0] exI [of _ rs] exI [of _ "[(Locked sample_env, w, w)]"])
        (simp add: latest_request_def sample_request_def)
  qed
qed

end
