(* ===== verification/Lcp_Exit.thy ===== *)
theory Lcp_Exit
  imports Lcp_Texts Lcp_Lifecycle Lcp_Daemon
begin

text \<open>
  The exit codes of \<open>lcp\<close>: what an error answer of the daemon becomes, when \<open>pair\<close>, \<open>doctor\<close> and the
  \<open>daemon\<close> commands report success.
\<close>

abbreviation any_act :: "act list \<Rightarrow> act \<Rightarrow> bool" where
  "any_act \<equiv> \<lambda>_ _. True"

section \<open>Errors of the daemon\<close>

definition documented :: "int \<Rightarrow> bool" where
  "documented n \<longleftrightarrow> 0 \<le> n \<and> n \<le> 10 \<or> n = INTERRUPTED"

text \<open>The exit code of a command whose request was answered with an error.\<close>

definition error_exit :: "command \<Rightarrow> ipc_error \<Rightarrow> int" where
  "error_exit cmd e =
     (case cmd of
        Peers None \<Rightarrow> GENERAL_ERROR
      | Config_list \<Rightarrow> GENERAL_ERROR
      | Config_reset _ \<Rightarrow> GENERAL_ERROR
      | Config_get _ \<Rightarrow> INVALID_ARGS
      | Config_set _ _ \<Rightarrow> INVALID_ARGS
      | _ \<Rightarrow> exit_code_for e)"

definition exit_ok :: "command \<Rightarrow> act list \<Rightarrow> int \<Rightarrow> bool" where
  "exit_ok cmd h n \<longleftrightarrow>
     documented n \<and>
     (\<forall>s m p rs k e. h = Did_err s # Called m p (Some rs) # k \<and> unwrap_response rs = Inl e \<longrightarrow>
        n = error_exit cmd e \<and> s = ''Error: '' @ err_message e @ nl)"

text \<open>The last action is not an error answer.\<close>

definition calm :: "act list \<Rightarrow> bool" where
  "calm h \<longleftrightarrow> (\<forall>m p rs k e. h = Called m p (Some rs) # k \<longrightarrow> unwrap_response rs \<noteq> Inl e)"

lemma documented_simps [simp]: "documented 0" "documented 1" "documented SUCCESS"
  "documented GENERAL_ERROR" "documented INVALID_ARGS" "documented DAEMON_UNAVAILABLE"
  "documented PAIRING_FAILURE" "documented LIMIT_EXCEEDED_CODE" "documented INTERRUPTED"
  "documented (exit_code_for e)"
  by (simp_all add: documented_def exit_codes exit_code_for_def Let_def)

lemma calm_simps [simp]: "calm []" "calm (Did_out s # h)" "calm (Did_err s # h)" "calm (Called m p None # h)"
  "calm (Got_event ev # h)" "calm (Got_stdin k b # h)" "calm (Clipboard_read c # h)"
  "calm (Clipboard_written s w # h)" "calm (Connected w # h)" "calm (Spawned_daemon w # h)"
  "calm (Slept k # h)" "calm (Time k # h)" "calm (Is_terminal q # h)" "calm (Got_line l # h)"
  "calm (Picked z # h)" "calm (Wrote_stdout s w # h)" "calm (Autostart_set q w # h)"
  "unwrap_response rs = Inr v \<Longrightarrow> calm (Called m p (Some rs) # h)"
  by (auto simp: calm_def)

lemma calm_connecting [simp]: "list_all connecting h' \<Longrightarrow> calm h \<Longrightarrow> calm (h' @ h)"
  by (cases h') (auto simp: calm_def)

lemma calm_connecting_Nil [simp]: "list_all connecting h' \<Longrightarrow> calm h'"
  using calm_connecting [of h' "[]"] by simp

lemma exit_err [simp]: "documented n \<Longrightarrow> calm h \<Longrightarrow> exit_ok cmd (Did_err s # h) n"
  by (auto simp: exit_ok_def calm_def)

lemma exit_out: "documented n \<Longrightarrow> (\<And>s k. h \<noteq> Did_err s # k) \<Longrightarrow> exit_ok cmd h n"
  by (auto simp: exit_ok_def)

lemma exit_simps [simp]:
  "documented n \<Longrightarrow> exit_ok cmd (Did_out s # h) n" "documented n \<Longrightarrow> exit_ok cmd (Printed v # h) n"
  "documented n \<Longrightarrow> exit_ok cmd (Wrote_stdout s w # h) n" "documented n \<Longrightarrow> exit_ok cmd (Picked z # h) n"
  by (simp_all add: exit_out)

lemma exit_report:
  "unwrap_response rs = Inl e \<Longrightarrow> n = error_exit cmd e \<Longrightarrow> documented n \<Longrightarrow>
   exit_ok cmd (Did_err (''Error: '' @ err_message e @ nl) # Called m p (Some rs) # h) n"
  by (simp add: exit_ok_def)

lemmas exit_report_simp [simp] = exit_report [simplified]

lemma exit_prints:
  assumes "prints g" and "\<And>s k. h \<noteq> Did_err s # k" and "documented n"
  shows "csafe any_act (exit_ok cmd) (g (Exit n)) I h"
proof (rule printsD [OF assms(1)])
  fix h'
  assume "list_all printed h'"
  then show "csafe any_act (exit_ok cmd) (Exit n) I (h' @ h)"
    using assms by (cases h') (auto simp: printed_def intro!: exit_out)
qed simp

lemma exit_foldr:
  assumes "\<And>v. prints (f v)" and "\<And>s k. h \<noteq> Did_err s # k" and "documented n"
  shows "csafe any_act (exit_ok cmd) (foldr f vs (Exit n)) I h"
  by (rule exit_prints [OF prints_foldr]) (use assms in auto)

lemma exit_connect:
  assumes "calm h" and "\<And>h'. calm h' \<Longrightarrow> csafe any_act (exit_ok cmd) c I h'"
  shows "csafe any_act (exit_ok cmd) (with_daemon c) I h"
  by (rule csafe_with_daemon) (use assms in \<open>auto simp: Let_def\<close>)

abbreviation finishes :: "command \<Rightarrow> cli \<Rightarrow> bool" where
  "finishes cmd c \<equiv> csafe any_act (exit_ok cmd) c (\<lambda>_. False) []"

lemma ends_status: "finishes Status (status_run json)"
  unfolding status_run_def
  by (rule csafe_connect) (auto simp: Let_def error_exit_def split: sum.splits)

lemma ends_queries:
  "finishes (Peers None) (peers_run json)" "finishes (Peers (Some (peer, a))) (peers_rename peer a)"
  "finishes (Config_get key) (config_get x key json)" "finishes (Config_set key v) (config_set key v)"
  "finishes (Copy who False inc) (copy_run who)" "finishes (Fetch who) (fetch_run who json)"
  unfolding peers_run_def peers_rename_def config_get_def config_set_def copy_run_def fetch_run_def
  by (auto simp: Let_def error_exit_def split: sum.splits
      intro!: exit_connect exit_foldr prints_println prints_id)

lemma ends_list: "finishes Config_list (config_list x json)"
  unfolding config_list_def
  by (auto simp: Let_def error_exit_def split: sum.splits intro!: exit_connect exit_foldr prints_skip)

lemma ends_removals: "finishes (Unpair peer yes) (unpair_run x peer yes)"
  "finishes (Config_reset yes) (config_reset x yes json)"
  unfolding unpair_run_def config_reset_def
  by (auto simp: Let_def error_exit_def split: sum.splits intro!: exit_connect)

lemma ends_send: "finishes (Send peer s t) (send_run peer s t)"
proof -
  have "csafe any_act (exit_ok (Send peer s t)) (send_this peer t') I h" if "calm h" for t' h I
    using that
    by (auto simp: send_this_def Let_def error_exit_def split: sum.splits intro!: exit_connect)
  then show ?thesis
    by (cases s; cases t) (auto simp: send_run_def read_stdin_capped_def split: sum.splits)
qed

lemma ends_pick:
  assumes "\<And>e. error_exit cmd e = exit_code_for e"
  shows "finishes cmd (pick_run who inc)"
  unfolding pick_run_def using assms
  by (auto simp: Let_def pick_outcome_run_def split: sum.splits pick_outcome.splits intro!: exit_connect)

lemma ends_result: "csafe any_act (exit_ok cmd) (pairing_result r v) I h"
  by (simp add: pairing_result_def Let_def)

lemma ends_invite: "finishes (Invite ttl nc) (invite_run x ttl nc)"
proof -
  have "csafe any_act (exit_ok c) (invite_wait x) I h" for c I h
    unfolding invite_wait_def
    by (auto simp: Let_def lost_connection_def ends_result split: option.splits
        intro!: exI [of _ "\<lambda>_. True"])
  then show ?thesis
    unfolding invite_run_def
    by (auto simp: Let_def error_exit_def split: sum.splits intro!: exit_connect)
qed

lemma ends_pair: "finishes (Pair ticket) (pair_run x ticket)"
proof -
  have "csafe any_act (exit_ok c) (pair_wait i) I h" for c i I h
    unfolding pair_wait_def
    by (auto simp: lost_connection_def ends_result split: option.splits intro!: exI [of _ "\<lambda>_. True"])
  then show ?thesis
    unfolding pair_run_def
    by (auto simp: Let_def error_exit_def split: sum.splits intro!: exit_connect)
qed

lemma ends_retry:
  assumes "\<And>h'. csafe any_act (exit_ok cmd) c I h'" and "\<And>h'. calm h' \<Longrightarrow> csafe any_act (exit_ok cmd) g I h'"
    and "calm h"
  shows "csafe any_act (exit_ok cmd) (retry_connect n d c g) I h"
  by (rule csafe_retry [where J = "\<lambda>_ h. calm h"]) (use assms in auto)

lemma ends_start: "csafe any_act (exit_ok cmd) daemon_start I h"
  by (auto simp: daemon_start_def Let_def intro!: ends_retry split: sum.splits)

lemma ends_stop:
  assumes "\<And>h' n J. exit_ok cmd h' n \<Longrightarrow> csafe any_act (exit_ok cmd) (k n) J h'"
  shows "csafe any_act (exit_ok cmd) (stop_then k) I h"
  using assms
  by (auto simp: stop_then_def wait_until_unreachable_def split: sum.splits intro!: exI [of _ "\<lambda>_. True"])

lemma ends_daemon:
  "finishes Daemon_status daemon_status" "finishes Daemon_start daemon_start" "finishes Daemon_stop daemon_stop"
  "finishes Daemon_restart daemon_restart" "finishes Daemon_install daemon_install"
  "finishes Daemon_uninstall daemon_uninstall"
  unfolding daemon_status_def daemon_stop_def daemon_restart_def daemon_install_def
    daemon_uninstall_def
  by (auto simp: Let_def ends_start split: sum.splits intro!: ends_stop)

section \<open>Doctor\<close>

text \<open>What \<open>doctor\<close> may do once it has its checks: print.\<close>

definition shows_only :: "act list \<Rightarrow> bool" where
  "shows_only k \<longleftrightarrow> (\<exists>v. k = [Printed v]) \<or> list_all printed k"

lemma csafe_doctor_report:
  assumes "\<And>k. shows_only k \<Longrightarrow>
    Q (k @ h) (if u then DAEMON_UNAVAILABLE
               else if \<exists>c\<in>set cs. get_str c ''severity'' = Some ''error'' then GENERAL_ERROR else SUCCESS)"
  shows "csafe any_act Q (doctor_report json u cs) I h"
proof (cases json)
  case True
  show ?thesis using assms [of "[Printed (JArr cs)]"] True by (simp add: doctor_report_def shows_only_def)
next
  case False
  show ?thesis
    unfolding doctor_report_def Let_def if_not_P [OF False]
    by (rule printsD [OF prints_foldr [OF prints_check]]) (use assms in \<open>auto simp: shows_only_def\<close>)
qed

text \<open>The answer to \<open>run_diagnostics\<close> reports no error.\<close>

definition healthy :: "ipc_response option \<Rightarrow> bool" where
  "healthy r \<longleftrightarrow>
     (\<exists>rs v. r = Some rs \<and> unwrap_response rs = Inr v \<and>
        (\<forall>c \<in> set (unwrap_or (as_array v) []). get_str c ''severity'' \<noteq> Some ''error''))"

definition doctor_ends :: "act list \<Rightarrow> int \<Rightarrow> bool" where
  "doctor_ends h n \<longleftrightarrow>
     (\<exists>k. shows_only k \<and>
        ((\<exists>e. h = k @ [Connected (Inl e)]) \<and> n = DAEMON_UNAVAILABLE \<or>
         (\<exists>s r. h = k @ [Called RUN_DIAGNOSTICS (JObj []) r, Connected (Inr s)] \<and>
            n = (if healthy r then SUCCESS else GENERAL_ERROR))))"

lemma check_severity [simp]: "get_str (check i s t d a) ''severity'' = Some s"
  by (simp add: check_def)

lemma daemon_checks_error:
  "(\<exists>c\<in>set (daemon_checks r). get_str c ''severity'' = Some ''error'') \<longleftrightarrow> \<not> healthy r"
  by (auto simp: daemon_checks_def healthy_def split: option.splits sum.splits)

lemma doctor_safe: "csafe any_act doctor_ends (doctor_run json) (\<lambda>_. False) []"
proof -
  have down: "shows_only k \<Longrightarrow> doctor_ends (k @ [Connected (Inl e)]) DAEMON_UNAVAILABLE" for k e
    unfolding doctor_ends_def by blast
  have up: "shows_only k \<Longrightarrow> doctor_ends (k @ [Called RUN_DIAGNOSTICS (JObj []) r, Connected (Inr s)])
      (if healthy r then SUCCESS else GENERAL_ERROR)" for k r s
    unfolding doctor_ends_def by blast
  have "csafe any_act doctor_ends (doctor_report json True cs) (\<lambda>_. False) [Connected (Inl e)]" for cs e
    by (rule csafe_doctor_report) (simp add: down)
  moreover have "csafe any_act doctor_ends (doctor_report json False (daemon_checks r)) (\<lambda>_. False)
      [Called RUN_DIAGNOSTICS (JObj []) r, Connected (Inr s)]" for r s
    by (rule csafe_doctor_report) (use up [of _ r s] in \<open>cases "healthy r"; simp add: daemon_checks_error\<close>)
  ultimately show ?thesis
    unfolding doctor_run_def by (simp split: sum.split)
qed

lemma healthy_daemon:
  "healthy (Some (ok_response q (JArr (map diagnostic_json rs)))) \<longleftrightarrow>
     (\<forall>d \<in> set rs. dr_severity d \<noteq> SevError)"
proof -
  have "get_str (diagnostic_json d) ''severity'' = Some ''error'' \<longleftrightarrow> dr_severity d = SevError" for d
    by (cases "dr_severity d") (simp_all add: diagnostic_json_def)
  then show ?thesis by (simp add: healthy_def unwrap_response_def ok_response_def response_ok_def)
qed

text \<open>
  \<open>lcp doctor\<close> changes nothing and its exit code tells exactly what it found: after a single
  attempt to connect it ends with 6 when the daemon was not reachable; else it asks
  \<open>run_diagnostics\<close> once and ends with 0 when the answer has no check of severity error, with 1 when
  it has one, is an error itself or never came.  For an answer of the daemon's own
  \<open>run_diagnostics\<close> that means: 0 exactly when none of its checks is an error.
\<close>

theorem doctor_exit_code:
  assumes "exits (cli_main x json Doctor) h n"
  shows "doctor_ends h n \<and>
    (\<forall>k q rs s. h = k @ [Called RUN_DIAGNOSTICS (JObj []) (Some (ok_response q (JArr (map diagnostic_json rs)))),
        Connected (Inr s)] \<longrightarrow>
       (n = SUCCESS \<longleftrightarrow> (\<forall>d \<in> set rs. dr_severity d \<noteq> SevError)))"
proof -
  have ends: "doctor_ends h n"
    using exits_safe [OF _ doctor_safe] assms by simp
  have "n = (if healthy r then SUCCESS else GENERAL_ERROR)"
    if "h = k @ [Called RUN_DIAGNOSTICS (JObj []) r, Connected (Inr s)]" for k r s
    using ends that unfolding doctor_ends_def by auto
  with ends show ?thesis
    by (auto simp: healthy_daemon SUCCESS_def GENERAL_ERROR_def split: if_splits)
qed

lemma doctor_script_exits:
  "exits (cli_main plain_env True Doctor)
     (rev [Connected (Inl ''refused''),
        Printed (JArr [check ''daemon_running'' ''error'' ''lanclipd is not reachable'' ''refused''
          (Some ''Run `lcp daemon start`.'')])]) DAEMON_UNAVAILABLE"
  by (rule script_exits [where n = 30])
    (simp add: doctor_run_def doctor_report_def Let_def script_numeral)

lemma doctor_exit_code_witness:
  "doctor_ends
     (rev [Connected (Inl ''refused''),
        Printed (JArr [check ''daemon_running'' ''error'' ''lanclipd is not reachable'' ''refused''
          (Some ''Run `lcp daemon start`.'')])]) DAEMON_UNAVAILABLE"
  using doctor_exit_code [OF doctor_script_exits] by blast

lemma ends_doctor: "finishes Doctor (doctor_run json)"
proof -
  have "exit_ok c (k @ h) n" if "shows_only k" "\<And>s k. h \<noteq> Did_err s # k" "documented n" for c k h n
    using that by (cases k) (auto simp: shows_only_def printed_def intro!: exit_out)
  then have "csafe any_act (exit_ok c) (doctor_report json u cs) I h"
    if "\<And>s k. h \<noteq> Did_err s # k" for c u cs I h
    by (rule csafe_doctor_report) (use that in simp_all)
  then show ?thesis unfolding doctor_run_def by (simp split: sum.split)
qed

lemma command_ends: "finishes cmd (cli_main x json cmd)"
  by (cases "(x, json, cmd)" rule: cli_main.cases)
    (simp_all add: ends_status ends_queries ends_list ends_removals ends_send ends_pick ends_invite
       ends_pair ends_daemon ends_doctor error_exit_def)

text \<open>
  The exit codes as a table of plain texts and numbers: the code of the daemon's error and the
  number that reports it.
\<close>

definition code_table :: "(string \<times> int) list" where
  "code_table =
     [(''invalid_params'', 2), (''peer_not_found'', 3), (''peer_ambiguous'', 3), (''peer_offline'', 4),
      (''no_message'', 5), (''pairing_failed'', 7), (''limit_exceeded'', 8), (''version_mismatch'', 9),
      (''credential_store_failure'', 10)]"

definition reported_code :: "command \<Rightarrow> ipc_error \<Rightarrow> int" where
  "reported_code cmd e =
     (case cmd of
        Peers None \<Rightarrow> 1 | Config_list \<Rightarrow> 1 | Config_reset _ \<Rightarrow> 1
      | Config_get _ \<Rightarrow> 2 | Config_set _ _ \<Rightarrow> 2
      | _ \<Rightarrow> (case map_of code_table (err_code e) of Some n \<Rightarrow> n | None \<Rightarrow> 1))"

lemma exit_code_table: "exit_code_for e = (case map_of code_table (err_code e) of Some n \<Rightarrow> n | None \<Rightarrow> 1)"
  by (simp add: exit_code_for_def code_table_def exit_codes Let_def)

lemma error_exit_reported: "error_exit cmd e = reported_code cmd e"
  by (simp add: error_exit_def reported_code_def exit_code_table exit_codes split: command.split option.split)

text \<open>
  C24.  Every command that gets to its end ends with a code from 0 to 10 or with 130, and when the daemon
  answered its last request with an error and the command reports it, the code is the one that
  the table names for this error (1 for any other) -- except that the listing \<open>peers\<close>,
  \<open>config list\<close> and \<open>config reset\<close> always end with 1 and \<open>config get\<close> and
  \<open>config set\<close> always with 2 -- and the line on the standard error is the daemon's message.  (Printing
  is taken to work: a closed standard output makes \<open>println!\<close> panic with 101.)
\<close>

theorem error_exit_codes:
  assumes "exits (cli_main x json cmd) h n"
  shows "(n = 130 \<or> 0 \<le> n \<and> n \<le> 10) \<and>
    (\<forall>s m p rs k e. h = Did_err s # Called m p (Some rs) # k \<and> unwrap_response rs = Inl e \<longrightarrow>
       n = reported_code cmd e \<and> s = ''Error: '' @ err_message e @ nl)"
proof -
  have "exit_ok cmd h n" using exits_safe [OF assms command_ends] .
  then show ?thesis unfolding exit_ok_def documented_def error_exit_reported exit_codes by blast
qed

definition offline_error :: ipc_error where
  "offline_error = \<lparr>err_code = PEER_OFFLINE, err_message = ''offline''\<rparr>"

definition offline_answer :: ipc_response where
  "offline_answer = \<lparr>rs_ipc_version = IPC_PROTOCOL_VERSION, rs_id = 0, rs_ok = False, rs_result = None,
     rs_error = Some offline_error\<rparr>"

lemma unwrap_offline: "unwrap_response offline_answer = Inl offline_error"
  by (simp add: unwrap_response_def offline_answer_def)

lemma send_failed_exits:
  "exits (cli_main plain_env False (Send ''ada'' False (Some ''hi'')))
     [Did_err (''Error: offline'' @ nl),
      Called SEND_TEXT (JObj [(''peer'', JStr ''ada''), (''text'', JStr ''hi'')]) (Some offline_answer),
      Connected (Inr ())] PEER_OFFLINE_CODE"
proof -
  have "exits (cli_main plain_env False (Send ''ada'' False (Some ''hi'')))
     (rev [Connected (Inr ()),
        Called SEND_TEXT (JObj [(''peer'', JStr ''ada''), (''text'', JStr ''hi'')]) (Some offline_answer),
        Did_err (''Error: offline'' @ nl)]) PEER_OFFLINE_CODE"
    by (rule script_exits [where n = 30])
      (simp add: send_run_def send_this_def cli_defs unwrap_offline offline_error_def
         exit_code_for_def Let_def MAX_TEXT_BYTES_def script_numeral)
  then show ?thesis by simp
qed

theorem error_exit_codes_witness:
  "PEER_OFFLINE_CODE = 4 \<and> reported_code (Send ''ada'' False (Some ''hi'')) offline_error = 4 \<and>
   reported_code (Config_get ''user.name'') offline_error = 2"
proof -
  have "reported_code (Send ''ada'' False (Some ''hi'')) offline_error = 4"
    by (simp add: reported_code_def code_table_def offline_error_def)
  moreover have "PEER_OFFLINE_CODE = reported_code (Send ''ada'' False (Some ''hi'')) offline_error"
    using error_exit_codes [OF send_failed_exits] unwrap_offline by auto
  moreover have "reported_code (Config_get ''user.name'') offline_error = 2"
    by (simp add: reported_code_def)
  ultimately show ?thesis by simp
qed

section \<open>Pairing\<close>

text \<open>
  Pairing \<open>i\<close> was confirmed with success, and the event that ended the wait says that it is paired;
  or the user declined and the daemon accepted that.
\<close>

definition pair_ends :: "act list \<Rightarrow> int \<Rightarrow> bool" where
  "pair_ends h n \<longleftrightarrow>
     (n = SUCCESS \<longrightarrow>
       (\<exists>s p rs v k. h = Did_out s # Called REJECT_PAIRING p (Some rs) # k \<and> unwrap_response rs = Inr v) \<or>
       (\<exists>s i ev rs v k. h = Did_out s # Got_event (Some ev) # k \<and> ev_event ev = PAIRING_UPDATED \<and>
          get_str (ev_payload ev) ''pairing_id'' = Some i \<and>
          get_str (ev_payload ev) ''status'' = Some ''paired'' \<and>
          Called CONFIRM_PAIRING (pairing_params i) (Some rs) \<in> set k \<and> unwrap_response rs = Inr v))"

lemma pair_ends_failed [simp]: "n \<noteq> SUCCESS \<Longrightarrow> pair_ends h n"
  by (simp add: pair_ends_def)

lemma failure_codes [simp]: "PAIRING_FAILURE \<noteq> SUCCESS" "DAEMON_UNAVAILABLE \<noteq> SUCCESS"
  by (simp_all add: exit_codes)

lemma pair_wait_safe:
  assumes "Called CONFIRM_PAIRING (pairing_params i) (Some rs) \<in> set h" and "unwrap_response rs = Inr v"
  shows "csafe any_act pair_ends (pair_wait i) I h"
proof -
  have "pair_ends (Did_out s # Got_event (Some ev) # k) SUCCESS"
    if "ev_event ev = PAIRING_UPDATED" "get_str (ev_payload ev) ''pairing_id'' = Some i"
      "str_field (ev_payload ev) ''status'' [] = ''paired''"
      "Called CONFIRM_PAIRING (pairing_params i) (Some rs) \<in> set k" for s ev k
  proof -
    from that(3) have "get_str (ev_payload ev) ''status'' = Some ''paired''"
      by (cases "get_str (ev_payload ev) ''status''") (auto simp: str_field_def)
    with that assms(2) show ?thesis unfolding pair_ends_def by blast
  qed
  then show ?thesis
    unfolding pair_wait_def
    by (auto simp: lost_connection_def pairing_result_def Let_def split: option.splits
        intro!: exI [of _ "\<lambda>h. Called CONFIRM_PAIRING (pairing_params i) (Some rs) \<in> set h"] assms(1))
qed

lemma pair_safe: "csafe any_act pair_ends (pair_run x ticket) (\<lambda>_. False) []"
proof -
  have rejected: "pair_ends (Did_out s # Called REJECT_PAIRING p (Some rs) # k) SUCCESS"
    if "unwrap_response rs = Inr v" for s p rs v k
    using that unfolding pair_ends_def by blast
  show ?thesis
    unfolding pair_run_def
    by (rule csafe_with_daemon)
      (auto simp: Let_def rejected split: sum.splits intro!: pair_wait_safe)
qed

text \<open>
  \<open>lcp pair\<close> reports success only when the daemon accepted the confirmation of the pairing that was
  joined and then announced that this very pairing is paired, or when the user declined and the
  daemon accepted the rejection; events of other pairings cannot end it.
\<close>

theorem pair_success:
  assumes "exits (cli_main x json (Pair ticket)) h SUCCESS"
  shows "(\<exists>s p rs v k. h = Did_out s # Called REJECT_PAIRING p (Some rs) # k \<and> unwrap_response rs = Inr v) \<or>
    (\<exists>s i ev rs v k. h = Did_out s # Got_event (Some ev) # k \<and> ev_event ev = PAIRING_UPDATED \<and>
       get_str (ev_payload ev) ''pairing_id'' = Some i \<and>
       get_str (ev_payload ev) ''status'' = Some ''paired'' \<and>
       Called CONFIRM_PAIRING (pairing_params i) (Some rs) \<in> set k \<and> unwrap_response rs = Inr v)"
proof -
  have "pair_ends h SUCCESS" using exits_safe [OF _ pair_safe] assms by simp
  then show ?thesis unfolding pair_ends_def by blast
qed

definition paired_event :: ipc_event where
  "paired_event = \<lparr>ev_ipc_version = IPC_PROTOCOL_VERSION, ev_event = PAIRING_UPDATED,
     ev_payload = JObj [(''pairing_id'', JStr ''7''), (''status'', JStr ''paired'')]\<rparr>"

definition paired_script :: "act list" where
  "paired_script = pair_script @ [Got_event (Some paired_event), Did_out (''Paired with peer.'' @ nl)]"

lemma paired_event_fields [simp]: "ev_event paired_event = PAIRING_UPDATED"
  "get_str (ev_payload paired_event) ''pairing_id'' = Some ''7''"
  "str_field (ev_payload paired_event) ''status'' d = ''paired''"
  "str_field (ev_payload paired_event) ''alias'' d = d"
  by (simp_all add: paired_event_def str_field_def)

lemma paired_script_exits: "exits (cli_main plain_env False (Pair ''t'')) (rev paired_script) SUCCESS"
  by (rule script_exits [where n = 30])
    (simp add: paired_script_def pair_script_def pair_run_def cli_defs decide_def pair_wait_def
       pairing_result_def Let_def script_numeral)

lemma pair_success_witness:
  "(\<exists>s p rs v k. rev paired_script = Did_out s # Called REJECT_PAIRING p (Some rs) # k \<and>
      unwrap_response rs = Inr v) \<or>
    (\<exists>s i ev rs v k. rev paired_script = Did_out s # Got_event (Some ev) # k \<and>
       ev_event ev = PAIRING_UPDATED \<and> get_str (ev_payload ev) ''pairing_id'' = Some i \<and>
       get_str (ev_payload ev) ''status'' = Some ''paired'' \<and>
       Called CONFIRM_PAIRING (pairing_params i) (Some rs) \<in> set k \<and> unwrap_response rs = Inr v)"
  by (rule pair_success [OF paired_script_exits])

section \<open>Starting and stopping the daemon\<close>

text \<open>Success of a \<open>daemon\<close> command was checked by the attempt to connect just before.\<close>

definition daemon_ends :: "bool \<Rightarrow> act list \<Rightarrow> int \<Rightarrow> bool" where
  "daemon_ends up h n \<longleftrightarrow>
     n \<in> {SUCCESS, GENERAL_ERROR, DAEMON_UNAVAILABLE} \<and>
     (n = SUCCESS \<longrightarrow> (\<exists>s r k. h = Did_out s # Connected r # k \<and> (up \<longleftrightarrow> r = Inr ())))"

lemma daemon_ends_failed [simp]: "daemon_ends up h GENERAL_ERROR" "daemon_ends up h DAEMON_UNAVAILABLE"
  "daemon_ends up h 1"
  by (simp_all add: daemon_ends_def exit_codes)

lemma daemon_ends_ok [simp]: "daemon_ends True (Did_out s # Connected (Inr ()) # k) SUCCESS"
  "daemon_ends False (Did_out s # Connected (Inl e) # k) SUCCESS"
  by (auto simp: daemon_ends_def)

lemma start_safe: "csafe any_act (daemon_ends True) daemon_start I h"
  by (auto simp: daemon_start_def Let_def split: sum.splits
      intro!: csafe_retry [where J = "\<lambda>_ _. True"])

lemma stop_safe:
  assumes "\<And>h' s e J. csafe any_act Q (k SUCCESS) J (Did_out s # Connected (Inl e) # h')"
    and "\<And>h' J. csafe any_act Q (k GENERAL_ERROR) J h'"
  shows "csafe any_act Q (stop_then k) I h"
  using assms
  by (auto simp: stop_then_def wait_until_unreachable_def split: sum.splits intro!: exI [of _ "\<lambda>_. True"])

lemma daemon_safe:
  "csafe any_act (daemon_ends True) daemon_start (\<lambda>_. False) []"
  "csafe any_act (daemon_ends False) daemon_stop (\<lambda>_. False) []"
  "csafe any_act (daemon_ends True) daemon_restart (\<lambda>_. False) []"
  unfolding daemon_stop_def daemon_restart_def
  by (auto simp: start_safe GENERAL_ERROR_def [symmetric] split: sum.splits intro!: stop_safe)

text \<open>
  \<open>daemon start\<close>, \<open>stop\<close> and \<open>restart\<close> report what they have just checked: success of \<open>start\<close> and
  \<open>restart\<close> means that the last thing done was an attempt to connect that worked, success of \<open>stop\<close>
  that it failed.  Other endings have the general code or the one for an unavailable daemon.
\<close>

theorem daemon_commands_checked:
  assumes "exits (cli_main x json cmd) h n" and "cmd \<in> {Daemon_start, Daemon_stop, Daemon_restart}"
  shows "n \<in> {SUCCESS, GENERAL_ERROR, DAEMON_UNAVAILABLE} \<and>
    (n = SUCCESS \<longrightarrow>
      (\<exists>s r k. h = Did_out s # Connected r # k \<and> (cmd \<noteq> Daemon_stop \<longleftrightarrow> r = Inr ())))"
proof -
  have "daemon_ends (cmd \<noteq> Daemon_stop) h n"
    using assms exits_safe [OF _ daemon_safe(1)] exits_safe [OF _ daemon_safe(2)]
      exits_safe [OF _ daemon_safe(3)] by auto
  then show ?thesis unfolding daemon_ends_def .
qed

definition stop_script :: "act list" where
  "stop_script =
     [Connected (Inr ()), Called SHUTDOWN (JObj []) None, Time 10, Time 11, Connected (Inr ()), Slept 100,
      Time 120, Connected (Inl ''refused''), Did_out (''lanclipd stopped.'' @ nl)]"

lemma stop_script_exits: "exits (cli_main plain_env False Daemon_stop) (rev stop_script) SUCCESS"
  by (rule script_exits [where n = 30])
    (simp add: stop_script_def daemon_stop_def stop_then_def wait_until_unreachable_def println_def
       script_numeral)

lemma daemon_commands_checked_witness:
  "\<exists>s e k. rev stop_script = Did_out s # Connected (Inl e) # k"
  using daemon_commands_checked [OF stop_script_exits] by (force simp: stop_script_def)

end
