(* ===== verification/Lcp_Announce.thy ===== *)
theory Lcp_Announce
  imports Lcp_System Lcp_Exit
begin

text \<open>
  The events of the daemon tell the truth: one that says that a pairing is paired is queued only by
  the step that stored the peer, and one that says that a message was received only by the step
  that stored the message, in the history of the peer that the event names.  With what \<open>lcp pair\<close> waits for, its success means that the daemon of
  the machine stored the peer.
\<close>

section \<open>What an event claims\<close>

definition says_paired :: "ipc_event \<Rightarrow> bool" where
  "says_paired ev \<longleftrightarrow>
     ev_event ev = PAIRING_UPDATED \<and> get_str (ev_payload ev) ''status'' = Some ''paired''"

definition stored_peer :: "world \<Rightarrow> world \<Rightarrow> ipc_event \<Rightarrow> bool" where
  "stored_peer w w' ev \<longleftrightarrow>
     (\<exists>p. trusted_of w' = trusted_of w @ [p] \<and> get_str (ev_payload ev) ''alias'' = Some (peer_alias p))"

definition stored_message_of :: "externs \<Rightarrow> world \<Rightarrow> world \<Rightarrow> ipc_event \<Rightarrow> bool" where
  "stored_message_of x w w' ev \<longleftrightarrow>
     (\<exists>e m. stores_message e m w w' \<and> get_str (ev_payload ev) ''peer_id'' = Some e \<and>
        get_str (ev_payload ev) ''message_id'' = Some (x_uuid_text x (sm_id m)) \<and>
        get_str (ev_payload ev) ''sender_label'' = Some (sm_sender_label m))"

text \<open>Four of the declared events have no sender.\<close>

definition sent_events :: "string set" where
  "sent_events = set ipc_events - {DAEMON_READY, INVITE_EXPIRED, CONFIG_UPDATED, DIAGNOSTIC_UPDATED}"

lemma event_names [simp]:
  "PEER_UPDATED \<in> sent_events" "MESSAGE_RECEIVED \<in> sent_events" "MESSAGE_UPDATED \<in> sent_events"
  "PAIRING_REQUESTED \<in> sent_events" "PAIRING_UPDATED \<in> sent_events"
  by (simp_all add: sent_events_def ipc_events_def)

definition truthful :: "externs \<Rightarrow> world \<Rightarrow> world \<Rightarrow> ipc_event \<Rightarrow> bool" where
  "truthful x w w' ev \<longleftrightarrow>
     ev_ipc_version ev = IPC_PROTOCOL_VERSION \<and> ev_event ev \<in> sent_events \<and>
     (says_paired ev \<longrightarrow> stored_peer w w' ev) \<and>
     (ev_event ev = MESSAGE_RECEIVED \<longrightarrow> stored_message_of x w w' ev)"

text \<open>A step queues only truthful events, after those that were queued.\<close>

definition announces :: "externs \<Rightarrow> world \<Rightarrow> world \<Rightarrow> bool" where
  "announces x w w' \<longleftrightarrow> (\<exists>evs. outbox w' = outbox w @ evs \<and> (\<forall>ev \<in> set evs. truthful x w w' (snd ev)))"

lemma announces_silent: "outbox w' = outbox w \<Longrightarrow> announces x w w'"
  by (simp add: announces_def)

lemma outbox_broadcast:
  "\<exists>chs. outbox (broadcast_event env name payload w) =
     outbox w @ map (\<lambda>ch. (ch, \<lparr>ev_ipc_version = IPC_PROTOCOL_VERSION, ev_event = name, ev_payload = payload\<rparr>)) chs"
  by (auto simp: broadcast_event_def Let_def)

lemma announces_broadcast:
  assumes "outbox w1 = outbox w"
    and "truthful x w (broadcast_event env name payload w1)
      \<lparr>ev_ipc_version = IPC_PROTOCOL_VERSION, ev_event = name, ev_payload = payload\<rparr>"
  shows "announces x w (broadcast_event env name payload w1)"
  using assms outbox_broadcast [of env name payload w1] by (auto simp: announces_def)

lemma truthful_other:
  "name \<noteq> PAIRING_UPDATED \<Longrightarrow> name \<noteq> MESSAGE_RECEIVED \<Longrightarrow> name \<in> sent_events \<Longrightarrow>
   truthful x w w' \<lparr>ev_ipc_version = IPC_PROTOCOL_VERSION, ev_event = name, ev_payload = p\<rparr>"
  by (simp add: truthful_def says_paired_def)

lemma announces_other [simp]:
  "outbox w1 = outbox w \<Longrightarrow> name \<noteq> PAIRING_UPDATED \<Longrightarrow> name \<noteq> MESSAGE_RECEIVED \<Longrightarrow> name \<in> sent_events \<Longrightarrow>
   announces x w (broadcast_event env name payload w1)"
  by (intro announces_broadcast truthful_other)

text \<open>The steps that queue no event, or one that claims neither.\<close>

lemma announces_peer_status: "outbox w1 = outbox w \<Longrightarrow> announces x w (broadcast_peer_status env e w1)"
  by (auto simp: broadcast_peer_status_def split: prod.split)

lemma announces_marks:
  "announces x w (fst (lock_mark_online e c env w))" "announces x w (fst (lock_mark_offline e env w))"
  by (simp_all add: lock_mark_online_def lock_mark_offline_def announces_peer_status)

lemma announces_messages:
  "announces x w (fst (lock_record_sending x e mid t env w))"
  "announces x w (fst (lock_finish_send x req e mid r env w))"
  by (auto simp: lock_record_sending_def lock_finish_send_def Let_def split: prod.split option.split
      intro: announces_silent)

lemma announces_requests:
  "announces x w (fst (lock_set_config x req key v env w))"
  "announces x w (fst (lock_reset_config x req env w))"
  "announces x w (fst (lock_rename_peer x req ident a env w))"
  "announces x w (fst (lock_unpair x req ident env w))"
  "announces x w (fst (lock_push_invite secret ttl t env w))"
  "announces x w (fst (lock_cancel_invite req env w))"
  "announces x w (fst (lock_take_decision pid env w))"
  "announces x w (fst (lock_subscribe req events env w))"
  "announces x w (fst (lock_check_invite now secret env w))"
  by (auto simp: lock_set_config_def lock_reset_config_def lock_rename_peer_def lock_unpair_def
      lock_push_invite_def lock_cancel_invite_def lock_take_decision_def lock_subscribe_def
      lock_check_invite_def save_config_eq Let_def
      split: prod.split sum.split option.split intro: announces_silent)

lemma announces_pending:
  "announces x w (fst (lock_pending_inviter x pid joiner req vs ch env w))"
  "announces x w (fst (lock_pending_joiner pid inviter dec vs ch env w))"
  by (simp_all add: lock_pending_inviter_def lock_pending_joiner_def announces_silent)

text \<open>The two steps whose events make a claim.\<close>

lemma announces_record_incoming: "announces x w (fst (lock_record_incoming x e label p env w))"
proof (cases "dedup_contains (dedup_cache (st_conversations (app w))) (e, tp_message_id p)")
  case True
  then show ?thesis by (simp add: lock_record_incoming_def record_incoming_dup announces_silent)
next
  case False
  obtain cs where r: "record_incoming (st_conversations (app w)) e label (tp_message_id p)
      (tp_sent_at_unix_ms p) (le_unix_ms env) (tp_text p) = (cs, Accepted)"
    using False by (simp add: record_incoming_def Let_def)
  obtain m where m: "stores_message e m w (fst (lock_record_incoming x e label p env w))"
      "sm_id m = tp_message_id p" "sm_sender_label m = label"
    using record_incoming_stores [OF False refl, of x label env] by blast
  show ?thesis
    unfolding lock_record_incoming_def r
    by (simp add: Let_def, rule announces_broadcast, simp)
      (use m in \<open>auto simp: lock_record_incoming_def r Let_def truthful_def says_paired_def stored_message_of_def get_str_def\<close>)
qed

lemma announces_finish_pairing: "announces x w (fst (finish_pairing x pid peer dn dv sec outcome env w))"
proof (cases "outcome = Inr True")
  case True
  obtain peers a where add: "add_trusted_peer (trusted_of w) peer dn dv (le_rfc3339 env)
      (x_uuid_text x (le_uuid env)) = (peers, a)" by fastforce
  then have "\<exists>p. peers = trusted_of w @ [p] \<and> a = peer_alias p"
    by (auto simp: add_trusted_peer_def Let_def)
  with True add show ?thesis
    by (cases sec) (auto simp: finish_pairing_def Let_def truthful_def stored_peer_def pairing_updated_json_def
        get_str_def save_config_eq intro!: announces_broadcast)
next
  case False
  then show ?thesis
    by (cases sec; cases outcome; auto simp: finish_pairing_def Let_def truthful_def says_paired_def
        pairing_updated_json_def get_str_def split: bool.split intro!: announces_broadcast)
qed

interpretation announcing: daemon_rule "announces x" x "\<lambda>ch b. True" for x
  by unfold_locales
    (simp_all add: announces_marks announces_messages announces_requests announces_pending
      announces_record_incoming announces_finish_pairing announces_silent opened_channel_def sent_decision_def)

section \<open>What the queue of events says of the past\<close>

text \<open>The step that queued an event.\<close>

definition queued_step :: "externs \<Rightarrow> nat \<times> ipc_event \<Rightarrow> log \<Rightarrow> entry \<Rightarrow> bool" where
  "queued_step x ev h ent \<longleftrightarrow>
     (case ent of (e, w, w') \<Rightarrow> truthful x w w' (snd ev) \<and> (\<exists>evs. outbox w' = outbox w @ evs \<and> ev \<in> set evs))"

lemma reachable_queued:
  assumes "reachable (daemon_tasks x pf admits) w0 p" and "ev \<in> set (outbox (fst p))"
  shows "ev \<in> set (outbox w0) \<or> logged p (queued_step x ev)"
proof (rule reachable_cause [where F = "\<lambda>w. ev \<in> set (outbox w)", OF assms(1) _ _ assms(2)])
  show "always (\<lambda>h (e, w, w'). announces x w w') (\<lambda>_ _. True) [] t" if "t \<in> daemon_tasks x pf admits" for t
    using that by (rule announcing.daemon_tasks_keep) simp_all
qed (auto simp: announces_def queued_step_def)

text \<open>
  The peer that a step stored was trusted before, or both sides have confirmed: the rule of trust
  holds in every log.
\<close>

definition paired_step :: "externs \<Rightarrow> ipc_event \<Rightarrow> log \<Rightarrow> entry \<Rightarrow> bool" where
  "paired_step x ev h ent \<longleftrightarrow>
     (case ent of (e, w, w') \<Rightarrow>
        \<exists>tp. trusted_of w' = trusted_of w @ [tp] \<and> get_str (ev_payload ev) ''alias'' = Some (peer_alias tp) \<and>
          (both_confirmed x h \<or> is_trusted (trusted_of w) (endpoint_id tp)))"

lemma queued_paired:
  assumes p: "reachable (daemon_tasks x pf admits) w0 p" and "logged p (queued_step x (ch, ev))"
    and "says_paired ev"
  shows "logged p (\<lambda>h ent. queued_step x (ch, ev) h ent \<and> paired_step x ev h ent)"
proof -
  obtain h t h1 e w w' h2 where ht: "(h, t) \<in> set (snd p)" and h: "h = h1 @ (e, w, w') # h2"
      and q: "queued_step x (ch, ev) h2 (e, w, w')"
    using assms(2) by (auto simp: logged_def)
  from q assms(3) obtain tp where tp: "trusted_of w' = trusted_of w @ [tp]"
      "get_str (ev_payload ev) ''alias'' = Some (peer_alias tp)"
    by (auto simp: queued_step_def truthful_def stored_peer_def)
  obtain q0 u t' us where "estep u e w = Some (w', t', us)"
    using reachable_entries [OF p ht, of e w w'] h by auto
  then obtain env where e: "e = Locked env"
    using estep_app tp(1) by fastforce
  have "log_sat (on_lock (trust_rule x paired_by)) h"
    using p daemon_tasks_trust ht by (rule reachable_logs)
  from log_sat_split [OF this [unfolded h]] have "trust_rule x paired_by h2 env w w'"
    by (simp add: e)
  then have "both_confirmed x h2 \<or> is_trusted (trusted_of w) (endpoint_id tp)"
    using tp(1) by (cases "endpoint_id tp \<in> endpoint_id ` set (trusted_of w)")
      (auto simp: trust_rule_def newly_trusted_def is_trusted_def list_ex_iff)
  with tp have "paired_step x ev h2 (e, w, w')" by (auto simp: paired_step_def)
  with ht h q show ?thesis unfolding logged_def by blast
qed

section \<open>Properties\<close>

text \<open>
  C11.  Events tell the truth.  In every reachable state of the daemon, each event in the queue of a
  subscriber was there at the start or was queued by a logged step, and is one of five of the nine
  events that the protocol declares.  If it says that a message was received, the step that queued
  it appended a message with the id, the peer and the label of the event to the history of that
  peer; if it says that a pairing is paired, the step that queued it stored the peer with the alias
  the event names, after both sides had confirmed, unless the peer was trusted before.
\<close>

theorem events_truthful:
  assumes "reachable (daemon_tasks x pf admits) w0 p" and "(ch, ev) \<in> set (outbox (fst p))"
    and "(ch, ev) \<notin> set (outbox w0)"
  shows "ev_ipc_version ev = IPC_PROTOCOL_VERSION \<and> ev_event ev \<in> sent_events \<and>
    (\<exists>(h, t) \<in> set (snd p). \<exists>later_steps e w w' before.
    h = later_steps @ (e, w, w') # before \<and>
    (\<exists>evs. outbox w' = outbox w @ evs \<and> (ch, ev) \<in> set evs) \<and>
    (says_paired ev \<longrightarrow> paired_step x ev before (e, w, w')) \<and>
    (ev_event ev = MESSAGE_RECEIVED \<longrightarrow> stored_message_of x w w' ev))"
proof -
  have queued: "logged p (queued_step x (ch, ev))"
    using reachable_queued [OF assms(1,2)] assms(3) by blast
  have "logged p (\<lambda>before ent. queued_step x (ch, ev) before ent \<and>
      (says_paired ev \<longrightarrow> paired_step x ev before ent))"
    using queued queued_paired [OF assms(1) queued] by (cases "says_paired ev") simp_all
  then have "logged p (\<lambda>before (e, w, w'). (\<exists>evs. outbox w' = outbox w @ evs \<and> (ch, ev) \<in> set evs) \<and>
      (says_paired ev \<longrightarrow> paired_step x ev before (e, w, w')) \<and>
      (ev_event ev = MESSAGE_RECEIVED \<longrightarrow> stored_message_of x w w' ev))"
    unfolding logged_def queued_step_def truthful_def by fastforce
  moreover have "ev_ipc_version ev = IPC_PROTOCOL_VERSION \<and> ev_event ev \<in> sent_events"
    using queued by (auto simp: logged_def queued_step_def truthful_def)
  ultimately show ?thesis unfolding logged_def split_paired_Ex by (simp only: prod.case simp_thms)
qed

text \<open>
  C7.  Pairing, end to end.  When \<open>lcp pair\<close> ends with success and the user did not decline, the
  daemon of this machine stored a peer: if the events that the command received were queued by its
  daemon, some logged step appended a record to the trusted peers, before which the local yes was
  received and both confirmations were exchanged, unless that endpoint was trusted before.
\<close>

theorem pair_means_trusted:
  assumes "exits (cli_main cx json (Pair ticket)) acts SUCCESS"
    and "\<And>q rs. Called REJECT_PAIRING q rs \<notin> set acts"
    and "reachable (daemon_tasks x pf admits) w0 p" and "outbox w0 = []"
    and "\<And>ev. Got_event (Some ev) \<in> set acts \<Longrightarrow> \<exists>ch. (ch, ev) \<in> set (outbox (fst p))"
  shows "\<exists>(h, t) \<in> set (snd p). \<exists>later_steps e w w' before tp.
    h = later_steps @ (e, w, w') # before \<and> trusted_of w' = trusted_of w @ [tp] \<and>
    (both_confirmed x before \<or> is_trusted (trusted_of w) (endpoint_id tp))"
proof -
  have "pair_ends acts SUCCESS"
    using exits_safe [OF _ pair_safe] assms(1) by simp
  with assms(2) obtain ev where ev: "Got_event (Some ev) \<in> set acts" "says_paired ev"
    unfolding pair_ends_def says_paired_def by fastforce
  from assms(5) [OF ev(1)] obtain ch where "(ch, ev) \<in> set (outbox (fst p))" ..
  with reachable_queued [OF assms(3)] assms(4) have "logged p (queued_step x (ch, ev))" by fastforce
  from queued_paired [OF assms(3) this ev(2)]
  have "logged p (\<lambda>before (e, w, w'). \<exists>tp. trusted_of w' = trusted_of w @ [tp] \<and>
      (both_confirmed x before \<or> is_trusted (trusted_of w) (endpoint_id tp)))"
    unfolding logged_def paired_step_def by fastforce
  then show ?thesis unfolding logged_def split_paired_Ex by (simp only: prod.case) blast
qed

section \<open>One pairing\<close>

text \<open>The demonstration of \<open>Lcp_System\<close> with a subscribed client.\<close>

definition watched_world :: world where
  "watched_world = demo_world\<lparr>app := (app demo_world)\<lparr>subscribers := [5]\<rparr>\<rparr>"

definition u7_event :: ipc_event where
  "u7_event = \<lparr>ev_ipc_version = IPC_PROTOCOL_VERSION, ev_event = PAIRING_UPDATED,
     ev_payload = pairing_updated_json demo_externs 7 ''paired'' [(''alias'', JStr ''Bob'')]\<rparr>"

lemma watched_sel [simp]:
  "trusted_of watched_world = []" "oneshots watched_world = (\<lambda>_. Waiting)" "next_oneshot watched_world = 0"
  "active_invites (app watched_world) = active_invites (app demo_world)"
  "pending_pairings (app watched_world) = Map.empty" "subscribers (app watched_world) = [5]" "outbox watched_world = []"
  by (simp_all add: watched_world_def) (simp add: demo_world_def sample_world_def)

lemma bob: "\<exists>ps. add_trusted_peer [] ''bb'' ''Bob'' ''PC'' now u = (ps, ''Bob'')"
proof -
  have "unique_alias [] ''Bob'' u = ''Bob''" by code_simp
  then show ?thesis by (simp add: add_trusted_peer_def Let_def)
qed

lemma finish_pairing_queues:
  assumes "ch \<in> set (subscribers (app w))" and "le_alive env ch"
    and "add_trusted_peer (trusted_of w) peer dn dv (le_rfc3339 env) (x_uuid_text x (le_uuid env)) = (ps, a)"
  shows "(ch, \<lparr>ev_ipc_version = IPC_PROTOCOL_VERSION, ev_event = PAIRING_UPDATED,
      ev_payload = pairing_updated_json x pid ''paired'' [(''alias'', JStr a)]\<rparr>) \<in>
    set (outbox (fst (finish_pairing x pid peer dn dv sec (Inr True) env w)))"
  using assms by (cases sec) (auto simp: finish_pairing_def Let_def broadcast_event_def save_config_eq)

lemma watched_pairs:
  "\<exists>w' us. run_schedule demo_schedule (watched_world, demo_tasks pf) = Some (w', us) \<and>
     (5, u7_event) \<in> set (outbox w')"
proof -
  obtain ps where "add_trusted_peer [] ''bb'' ''Bob'' ''PC'' (le_rfc3339 sample_env) (x_uuid_text demo_externs (le_uuid sample_env)) = (ps, ''Bob'')"
    using bob by blast
  then show ?thesis
    by (simp add: demo_run, unfold u7_event_def, intro finish_pairing_queues)
      (simp_all add: broadcast_event_def sample_env_def)
qed

lemma watched_reachable:
  "\<exists>p. reachable (daemon_tasks demo_externs MacOs (\<lambda>_. True)) watched_world p \<and> (5, u7_event) \<in> set (outbox (fst p))"
proof -
  obtain w' us where run: "run_schedule demo_schedule (watched_world, demo_tasks MacOs) = Some (w', us)"
      and ev: "(5, u7_event) \<in> set (outbox w')"
    using watched_pairs by blast
  have "run_schedule demo_schedule (watched_world, map snd (map (\<lambda>t. ([], t)) (demo_tasks MacOs))) = Some (w', us)"
    using run by (simp add: o_def)
  from run_schedule_reachable [OF reachable_starts [OF demo_tasks_allowed] this] ev show ?thesis by auto
qed

lemma u7_paired: "says_paired u7_event"
  by (simp add: says_paired_def u7_event_def pairing_updated_json_def get_str_def)

theorem events_truthful_witness:
  "\<exists>p. reachable (daemon_tasks demo_externs MacOs (\<lambda>_. True)) watched_world p \<and> (5, u7_event) \<in> set (outbox (fst p)) \<and>
     (\<exists>(h, t) \<in> set (snd p). \<exists>h1 e w w' before.
        h = h1 @ (e, w, w') # before \<and> (\<exists>evs. outbox w' = outbox w @ evs \<and> (5, u7_event) \<in> set evs) \<and>
        paired_step demo_externs u7_event before (e, w, w'))"
proof -
  obtain p where p: "reachable (daemon_tasks demo_externs MacOs (\<lambda>_. True)) watched_world p"
      and ev: "(5, u7_event) \<in> set (outbox (fst p))"
    using watched_reachable by blast
  have "(5, u7_event) \<notin> set (outbox watched_world)" by simp
  from events_truthful [OF p ev this] u7_paired
  have "\<exists>(h, t) \<in> set (snd p). \<exists>h1 e w w' before.
      h = h1 @ (e, w, w') # before \<and> (\<exists>evs. outbox w' = outbox w @ evs \<and> (5, u7_event) \<in> set evs) \<and>
      paired_step demo_externs u7_event before (e, w, w')" by fastforce
  with p ev show ?thesis by blast
qed

definition u7_answer :: json where
  "u7_answer = JObj [(''pairing_id'', JStr ''u7''), (''verification_string'', JStr ''oak'')]"

definition watched_script :: "act list" where
  "watched_script =
     [Connected (Inr ()), Called SUBSCRIBE (JObj []) (Some (ok_answer JNull)),
      Called JOIN_INVITE (JObj [(''ticket'', JStr ''t'')]) (Some (ok_answer u7_answer)),
      Did_out (verification_line ''oak'' @ nl), Did_out match_prompt, Got_line (Some ''y''),
      Called CONFIRM_PAIRING (pairing_params ''u7'') (Some (ok_answer JNull)),
      Got_event (Some u7_event), Did_out (''Paired with Bob.'' @ nl)]"

lemma u7_fields [simp]: "ev_event u7_event = PAIRING_UPDATED"
  "get_str (ev_payload u7_event) ''pairing_id'' = Some ''u7''"
  "str_field (ev_payload u7_event) ''status'' d = ''paired''"
  "str_field (ev_payload u7_event) ''alias'' d = ''Bob''"
  "str_field u7_answer ''pairing_id'' d = ''u7''" "str_field u7_answer ''verification_string'' d = ''oak''"
  by (simp_all add: u7_event_def u7_answer_def pairing_updated_json_def get_str_def str_field_def demo_externs_def)

lemma watched_script_exits: "exits (cli_main plain_env False (Pair ''t'')) (rev watched_script) SUCCESS"
  by (rule script_exits [where n = 30])
    (simp add: watched_script_def pair_run_def cli_defs decide_def pair_wait_def pairing_result_def Let_def
       script_numeral)

lemma pair_means_trusted_witness:
  "\<exists>p. reachable (daemon_tasks demo_externs MacOs (\<lambda>_. True)) watched_world p \<and>
     (\<exists>(h, t) \<in> set (snd p). \<exists>h1 e w w' before tp.
        h = h1 @ (e, w, w') # before \<and> trusted_of w' = trusted_of w @ [tp] \<and>
        (both_confirmed demo_externs before \<or> is_trusted (trusted_of w) (endpoint_id tp)))"
proof -
  obtain p where p: "reachable (daemon_tasks demo_externs MacOs (\<lambda>_. True)) watched_world p"
      and ev: "(5, u7_event) \<in> set (outbox (fst p))"
    using watched_reachable by blast
  have "Called REJECT_PAIRING q rs \<notin> set (rev watched_script)" for q rs
    by (simp add: watched_script_def)
  moreover have "\<exists>ch. (ch, e) \<in> set (outbox (fst p))" if "Got_event (Some e) \<in> set (rev watched_script)" for e
    using that ev by (auto simp: watched_script_def)
  ultimately show ?thesis
    using pair_means_trusted [OF watched_script_exits _ p watched_sel(7)] p
    by (intro exI [of _ p] conjI) blast+
qed

end
