(* ===== verification/Lcp_Startup.thy ===== *)
theory Lcp_Startup
  imports Lcp_Diagnostics
begin

text \<open>
  Starting and stopping daemons on one machine: the local socket (\<open>lcp-ipc/src/unix.rs\<close>) and \<open>main\<close>
  of \<open>lanclipd/src/main.rs\<close>.  Binding is a sequence of system calls, so two daemons that start at
  the same time can interleave; each call may also fail.  The log file, the Iroh endpoint (whether
  binding it fails is an argument) and the router are outside.
\<close>

section \<open>The socket\<close>

text \<open>\<open>default_socket_path\<close>\<close>

definition default_socket_path :: "(string \<Rightarrow> string option) \<Rightarrow> string option \<Rightarrow> string + string" where
  "default_socket_path env config_dir =
     (case env ''LCP_PROFILE_DIR'' of
        Some dir \<Rightarrow> Inr (path_join dir ''lanclipd.sock'')
      | None \<Rightarrow>
          (case config_dir of
             None \<Rightarrow> Inl ''could not determine platform config directory''
           | Some base \<Rightarrow> Inr (path_join (path_join base ''lcp'') ''lanclipd.sock'')))"

text \<open>
  The files of the socket's directory, and the processes that are running.  A process listens on
  the socket that it bound as long as it runs; its file stays until somebody removes it.
\<close>

datatype node = Socket_of nat | Other_file

record machine =
  nodes :: "string \<Rightarrow> node option"
  running :: "nat set"

datatype sock_error = AddrInUse | SockIo string

definition listening :: "machine \<Rightarrow> string \<Rightarrow> bool" where
  "listening m path \<longleftrightarrow> (case nodes m path of Some (Socket_of p) \<Rightarrow> p \<in> running m | _ \<Rightarrow> False)"

text \<open>
  The calls of \<open>bind\<close>, in the order of the code; \<open>fault\<close> is the error with which the next call
  fails.
\<close>

datatype bind_pc =
    At_exists | At_connect | At_remove | At_mkdir | At_bind | At_chmod
  | Bound
  | Bind_failed sock_error

fun bind_step :: "nat \<Rightarrow> string \<Rightarrow> string option \<Rightarrow> bind_pc \<Rightarrow> machine \<Rightarrow> bind_pc \<times> machine" where
  "bind_step me path fault At_exists m =
     (if fault = None \<and> nodes m path \<noteq> None then At_connect else At_mkdir, m)"
| "bind_step me path fault At_connect m =
     (if fault = None \<and> listening m path then Bind_failed AddrInUse else At_remove, m)"
| "bind_step me path fault At_remove m =
     (case fault of
        Some e \<Rightarrow> (Bind_failed (SockIo e), m)
      | None \<Rightarrow>
          if nodes m path = None then (Bind_failed (SockIo ''not found''), m)
          else (At_mkdir, m\<lparr>nodes := (nodes m)(path := None)\<rparr>))"
| "bind_step me path fault At_mkdir m =
     (case fault of Some e \<Rightarrow> (Bind_failed (SockIo e), m) | None \<Rightarrow> (At_bind, m))"
| "bind_step me path fault At_bind m =
     (case fault of
        Some e \<Rightarrow> (Bind_failed (SockIo e), m)
      | None \<Rightarrow>
          if nodes m path \<noteq> None then (Bind_failed AddrInUse, m)
          else (At_chmod, m\<lparr>nodes := (nodes m)(path \<mapsto> Socket_of me)\<rparr>))"
| "bind_step me path fault At_chmod m =
     (case fault of Some e \<Rightarrow> (Bind_failed (SockIo e), m) | None \<Rightarrow> (Bound, m))"
| "bind_step me path fault Bound m = (Bound, m)"
| "bind_step me path fault (Bind_failed e) m = (Bind_failed e, m)"

fun over :: "bind_pc \<Rightarrow> bool" where
  "over Bound = True"
| "over (Bind_failed e) = True"
| "over _ = False"

text \<open>\<open>bind\<close> by one process alone: at most six calls; \<open>faults pc\<close> is the fault of the call at \<open>pc\<close>.\<close>

primrec bind_from ::
  "nat \<Rightarrow> nat \<Rightarrow> string \<Rightarrow> (bind_pc \<Rightarrow> string option) \<Rightarrow> bind_pc \<Rightarrow> machine \<Rightarrow> bind_pc \<times> machine" where
  "bind_from 0 me path faults pc m = (pc, m)"
| "bind_from (Suc k) me path faults pc m =
     (if over pc then (pc, m)
      else case bind_step me path (faults pc) pc m of (pc1, m1) \<Rightarrow> bind_from k me path faults pc1 m1)"

definition socket_bind ::
  "nat \<Rightarrow> string \<Rightarrow> (bind_pc \<Rightarrow> string option) \<Rightarrow> machine \<Rightarrow> machine \<times> (sock_error + unit)" where
  "socket_bind me path faults m =
     (case bind_from 6 me path faults At_exists m of
        (Bind_failed e, m1) \<Rightarrow> (m1, Inl e)
      | (_, m1) \<Rightarrow> (m1, Inr ()))"

definition socket_connect :: "string \<Rightarrow> string option \<Rightarrow> machine \<Rightarrow> bool" where
  "socket_connect path fault m \<longleftrightarrow> fault = None \<and> listening m path"

text \<open>Two processes that bind at the same time: each entry of a schedule says who makes the next call.\<close>

fun race :: "string \<Rightarrow> nat \<Rightarrow> nat \<Rightarrow> bool list \<Rightarrow> bind_pc \<times> bind_pc \<times> machine \<Rightarrow> bind_pc \<times> bind_pc \<times> machine" where
  "race path a b [] s = s"
| "race path a b (x # xs) (pa, pb, m) =
     race path a b xs
       (if x then (case bind_step a path None pa m of (pc, m1) \<Rightarrow> (pc, pb, m1))
        else (case bind_step b path None pb m of (pc, m1) \<Rightarrow> (pa, pc, m1)))"

section \<open>Start and shutdown\<close>

datatype start_error =
    Start_logs string
  | Start_config config_error
  | Start_identity identity_error
  | Start_endpoint string
  | Start_socket_path string
  | Start_socket sock_error
  | Start_pipe string

datatype start_outcome = Started app_state string | Already_running | Start_failed start_error

record start_env =
  se_os :: os_env
  se_macos :: bool
  se_base_dirs :: "(string \<times> string) option"
  se_logs_fault :: "string option"
  se_parse :: "bytes \<Rightarrow> string + config"
  se_hash_hex :: "string \<Rightarrow> string"
  se_generated :: bytes
  se_endpoint :: "string option"
  se_now :: instant
  se_bind_faults :: "bind_pc \<Rightarrow> string option"

record host =
  ho_disk :: fs
  ho_secrets :: credential_store
  ho_machine :: machine

text \<open>\<open>init_logging\<close>: only its directory can fail; what is logged is not modelled.\<close>

definition init_logging :: "start_env \<Rightarrow> start_error + string" where
  "init_logging env =
     (case logs_dir (se_macos env) (os_var (se_os env)) (se_base_dirs env) of
        Inl e \<Rightarrow> Inl (Start_config e)
      | Inr dir \<Rightarrow>
          (case se_logs_fault env of Some e \<Rightarrow> Inl (Start_logs e) | None \<Rightarrow> Inr dir))"

text \<open>The steps of \<open>main\<close> before the local connections, which are the same on every platform.\<close>

definition daemon_prepare :: "start_env \<Rightarrow> host \<Rightarrow> host \<times> (start_error + app_state)" where
  "daemon_prepare env h =
     (case init_logging env of
        Inl e \<Rightarrow> (h, Inl e)
      | Inr _ \<Rightarrow>
          (case load_or_create (se_parse env) (se_os env) (ho_disk h) of
             (d, Inl e) \<Rightarrow> (h\<lparr>ho_disk := d\<rparr>, Inl (Start_config e))
           | (d, Inr c) \<Rightarrow>
               (case identity_load_or_create (keyring_account (os_var (se_os env)) (se_hash_hex env))
                       (se_generated env) (trusted_peers c \<noteq> []) (ho_secrets h) of
                  (cs, Inl e) \<Rightarrow> (h\<lparr>ho_disk := d, ho_secrets := cs\<rparr>, Inl (Start_identity e))
                | (cs, Inr ident) \<Rightarrow>
                    (h\<lparr>ho_disk := d, ho_secrets := cs\<rparr>,
                     case se_endpoint env of
                       Some e \<Rightarrow> Inl (Start_endpoint e)
                     | None \<Rightarrow> Inr (app_state_new ident c (se_now env))))))"

definition daemon_main :: "start_env \<Rightarrow> nat \<Rightarrow> host \<Rightarrow> host \<times> start_outcome" where
  "daemon_main env me h =
     (case daemon_prepare env h of
        (h1, Inl e) \<Rightarrow> (h1, Start_failed e)
      | (h1, Inr st) \<Rightarrow>
          (case default_socket_path (os_var (se_os env)) (os_config_dir (se_os env)) of
             Inl e \<Rightarrow> (h1, Start_failed (Start_socket_path e))
           | Inr path \<Rightarrow>
               (case socket_bind me path (se_bind_faults env) (ho_machine h1) of
                  (m, Inl AddrInUse) \<Rightarrow> (h1\<lparr>ho_machine := m\<rparr>, Already_running)
                | (m, Inl e) \<Rightarrow> (h1\<lparr>ho_machine := m\<rparr>, Start_failed (Start_socket e))
                | (m, Inr _) \<Rightarrow>
                    (h1\<lparr>ho_machine := m\<lparr>running := insert me (running m)\<rparr>\<rparr>, Started st path))))"

text \<open>The end of \<open>main\<close>: the socket file is removed (a failure is ignored), then the process exits.\<close>

definition remove_socket :: "string \<Rightarrow> string option \<Rightarrow> machine \<Rightarrow> machine" where
  "remove_socket path fault m = (if fault = None then m\<lparr>nodes := (nodes m)(path := None)\<rparr> else m)"

definition process_exit :: "nat \<Rightarrow> machine \<Rightarrow> machine" where
  "process_exit me m = m\<lparr>running := running m - {me}\<rparr>"

definition daemon_shutdown :: "string \<Rightarrow> string option \<Rightarrow> nat \<Rightarrow> host \<Rightarrow> host" where
  "daemon_shutdown path fault me h =
     h\<lparr>ho_machine := process_exit me (remove_socket path fault (ho_machine h))\<rparr>"

section \<open>What binding does\<close>

definition clear_path :: "string \<Rightarrow> machine \<Rightarrow> machine" where
  "clear_path path m = m\<lparr>nodes := (nodes m)(path := None)\<rparr>"

definition claim_path :: "nat \<Rightarrow> string \<Rightarrow> machine \<Rightarrow> machine" where
  "claim_path me path m = m\<lparr>nodes := (nodes m)(path \<mapsto> Socket_of me)\<rparr>"

lemma six: "(6::nat) = Suc (Suc (Suc (Suc (Suc (Suc 0)))))"
  by simp

lemma bind_over [simp]:
  "bind_from k me path faults Bound m = (Bound, m)"
  "bind_from k me path faults (Bind_failed e) m = (Bind_failed e, m)"
  by (cases k; simp)+

lemma socket_bind_free:
  assumes "nodes m path = None"
  shows "socket_bind me path faults m =
    (case (faults At_mkdir, faults At_bind, faults At_chmod) of
       (None, None, None) \<Rightarrow> (claim_path me path m, Inr ())
     | (Some e, _, _) \<Rightarrow> (m, Inl (SockIo e))
     | (None, Some e, _) \<Rightarrow> (m, Inl (SockIo e))
     | (None, None, Some e) \<Rightarrow> (claim_path me path m, Inl (SockIo e)))"
  using assms
  by (cases "faults At_mkdir"; cases "faults At_bind"; cases "faults At_chmod";
      simp add: socket_bind_def six claim_path_def)

lemma socket_bind_live:
  "listening m path \<Longrightarrow> faults At_exists = None \<Longrightarrow> faults At_connect = None \<Longrightarrow>
   socket_bind me path faults m = (m, Inl AddrInUse)"
  by (simp add: socket_bind_def six listening_def split: option.splits)

lemma socket_bind_stale:
  assumes "nodes m path \<noteq> None" and "faults At_exists = None"
    and "\<not> listening m path \<or> faults At_connect \<noteq> None"
  shows "socket_bind me path faults m =
    (case faults At_remove of
       Some e \<Rightarrow> (m, Inl (SockIo e))
     | None \<Rightarrow> socket_bind me path faults (clear_path path m))"
proof -
  have connect: "bind_step me path (faults At_connect) At_connect m = (At_remove, m)"
    using assms(3) by auto
  obtain nd where node: "nodes m path = Some nd" using assms(1) by blast
  show ?thesis
  proof (cases "faults At_remove")
    case None
    have "nodes (clear_path path m) path = None" by (simp add: clear_path_def)
    then show ?thesis
      using assms(2) node None
      by (simp add: socket_bind_free)
        (cases "faults At_mkdir"; cases "faults At_bind"; cases "faults At_chmod";
          simp add: socket_bind_def six connect claim_path_def clear_path_def del: bind_step.simps(2))
  next
    case (Some e)
    then show ?thesis
      using assms(1,2) by (simp add: socket_bind_def six connect del: bind_step.simps(2))
  qed
qed

lemma socket_bind_unseen:
  assumes "nodes m path \<noteq> None" and "faults At_exists \<noteq> None"
  shows "\<exists>e. socket_bind me path faults m = (m, Inl e)"
proof -
  obtain e where "faults At_exists = Some e" using assms(2) by blast
  with assms(1) show ?thesis
    by (cases "faults At_mkdir"; cases "faults At_bind"; simp add: socket_bind_def six)
qed

lemma claim_clear [simp]:
  "nodes (claim_path me path m) = (nodes m)(path \<mapsto> Socket_of me)" "running (claim_path me path m) = running m"
  "nodes (clear_path path m) = (nodes m)(path := None)" "running (clear_path path m) = running m"
  by (simp_all add: claim_path_def clear_path_def)

lemma socket_bind_elsewhere: "q \<noteq> path \<Longrightarrow> nodes (fst (socket_bind me path faults m)) q = nodes m q"
proof (cases "nodes m path = None")
  case True
  then show "q \<noteq> path \<Longrightarrow> ?thesis" by (simp add: socket_bind_free split: option.split)
next
  case False
  assume q: "q \<noteq> path"
  consider "faults At_exists \<noteq> None" | "faults At_exists = None" "listening m path" "faults At_connect = None"
    | "faults At_exists = None" "\<not> listening m path \<or> faults At_connect \<noteq> None" by blast
  then show ?thesis
    using False q
    by cases (use socket_bind_unseen [of m path faults me] in \<open>auto simp: socket_bind_live socket_bind_stale
        socket_bind_free split: option.split\<close>)
qed

lemma socket_bind_running: "running (fst (socket_bind me path faults m)) = running m"
proof (cases "nodes m path = None")
  case True
  then show ?thesis by (simp add: socket_bind_free split: option.split)
next
  case False
  consider "faults At_exists \<noteq> None" | "faults At_exists = None" "listening m path" "faults At_connect = None"
    | "faults At_exists = None" "\<not> listening m path \<or> faults At_connect \<noteq> None" by blast
  then show ?thesis
    using False
    by cases (use socket_bind_unseen [of m path faults me] in \<open>auto simp: socket_bind_live socket_bind_stale
        socket_bind_free split: option.split\<close>)
qed

lemma socket_bind_outcome:
  "case socket_bind me path faults m of (m', r) \<Rightarrow>
     running m' = running m \<and> (\<forall>q. q \<noteq> path \<longrightarrow> nodes m' q = nodes m q) \<and>
     (listening m path \<and> faults At_exists = None \<and> faults At_connect = None \<longrightarrow> m' = m \<and> r = Inl AddrInUse) \<and>
     (case r of
        Inr _ \<Rightarrow> nodes m' path = Some (Socket_of me) \<and> (listening m path \<longrightarrow> faults At_connect \<noteq> None)
      | Inl AddrInUse \<Rightarrow> m' = m \<and> nodes m path \<noteq> None
      | Inl (SockIo _) \<Rightarrow> nodes m' path \<in> {nodes m path, None, Some (Socket_of me)})"
proof (cases "nodes m path = None")
  case True
  then show ?thesis
    by (auto simp: socket_bind_free listening_def split: option.split)
next
  case False
  consider (unseen) "faults At_exists \<noteq> None"
    | (live) "faults At_exists = None" "listening m path" "faults At_connect = None"
    | (stale) "faults At_exists = None" "\<not> listening m path \<or> faults At_connect \<noteq> None" by blast
  then show ?thesis
  proof cases
    case unseen
    obtain e where "socket_bind me path faults m = (m, Inl e)"
      using socket_bind_unseen [OF False, of faults me] unseen by blast
    with False unseen show ?thesis by (cases e) simp_all
  next
    case live
    with False show ?thesis by (simp add: socket_bind_live)
  next
    case stale
    with False show ?thesis
      by (auto simp: socket_bind_stale socket_bind_free split: option.split)
  qed
qed

section \<open>Properties\<close>

text \<open>
  Binding the socket: a socket on which a running daemon accepts connections is never touched
  when its probe works, and the caller learns that it is in use; otherwise success means that the
  socket is the caller's own, and an error never leaves it behind somebody's socket that listens.
  No other file and no process is affected in any case.
\<close>

theorem socket_bind_spec:
  "case socket_bind me path faults m of (m', r) \<Rightarrow>
     running m' = running m \<and> (\<forall>q. q \<noteq> path \<longrightarrow> nodes m' q = nodes m q) \<and>
     (listening m path \<and> faults At_exists = None \<and> faults At_connect = None \<longrightarrow> m' = m \<and> r = Inl AddrInUse) \<and>
     (case r of
        Inr _ \<Rightarrow> nodes m' path = Some (Socket_of me) \<and> (listening m path \<longrightarrow> faults At_connect \<noteq> None)
      | Inl AddrInUse \<Rightarrow> m' = m \<and> nodes m path \<noteq> None
      | Inl (SockIo _) \<Rightarrow> nodes m' path \<in> {nodes m path, None, Some (Socket_of me)})"
  by (rule socket_bind_outcome)

theorem socket_bind_spec_witness:
  "socket_bind 2 ''s'' (\<lambda>_. None) \<lparr>nodes = [''s'' \<mapsto> Socket_of 1], running = {1}\<rparr> =
     (\<lparr>nodes = [''s'' \<mapsto> Socket_of 1], running = {1}\<rparr>, Inl AddrInUse)"
  using socket_bind_spec [where me = 2 and path = "''s''" and faults = "\<lambda>_. None" and m = "\<lparr>nodes = [''s'' \<mapsto> Socket_of 1], running = {1}\<rparr>"]
  by (auto simp: listening_def split: prod.splits)

text \<open>
  C32.  The protection of a running daemon's socket has two gaps.  A start next to the socket of a
  running daemon takes it over exactly when its probe fails for some reason (a full backlog, a
  timeout) and its other calls work: the path then leads to the newcomer although the first daemon
  still runs.  And two daemons that start at the same time next to a stale socket can both
  succeed, the second having removed the fresh socket of the first.
\<close>

theorem socket_taken_over:
  assumes "nodes m path = Some (Socket_of old)" and "old \<in> running m"
    and "nodes left path \<noteq> None" and "\<not> listening left path"
  shows "(case socket_bind me path faults m of (m1, r) \<Rightarrow>
      (r = Inr () \<longleftrightarrow> faults At_exists = None \<and> faults At_connect \<noteq> None \<and> faults At_remove = None \<and>
        faults At_mkdir = None \<and> faults At_bind = None \<and> faults At_chmod = None) \<and>
      (r = Inr () \<longrightarrow> m1 = m\<lparr>nodes := (nodes m)(path \<mapsto> Socket_of me)\<rparr> \<and> old \<in> running m1)) \<and>
    race path a b [True, True, False, False, True, True, True, True, False, False, False, False]
      (At_exists, At_exists, left) = (Bound, Bound, left\<lparr>nodes := (nodes left)(path \<mapsto> Socket_of b)\<rparr>)"
proof
  have live: "listening m path"
    using assms(1,2) by (simp add: listening_def)
  consider (unseen) "faults At_exists \<noteq> None" | (probed) "faults At_exists = None" "faults At_connect = None"
    | (failed) "faults At_exists = None" "faults At_connect \<noteq> None" by blast
  then show "case socket_bind me path faults m of (m1, r) \<Rightarrow>
      (r = Inr () \<longleftrightarrow> faults At_exists = None \<and> faults At_connect \<noteq> None \<and> faults At_remove = None \<and>
        faults At_mkdir = None \<and> faults At_bind = None \<and> faults At_chmod = None) \<and>
      (r = Inr () \<longrightarrow> m1 = m\<lparr>nodes := (nodes m)(path \<mapsto> Socket_of me)\<rparr> \<and> old \<in> running m1)"
  proof cases
    case unseen
    then show ?thesis using socket_bind_unseen [of m path faults me] assms(1) by auto
  next
    case probed
    then show ?thesis using live by (simp add: socket_bind_live)
  next
    case failed
    then show ?thesis
      using assms(1,2)
      by (auto simp: socket_bind_stale socket_bind_free claim_path_def clear_path_def split: option.splits)
  qed
  show "race path a b [True, True, False, False, True, True, True, True, False, False, False, False]
      (At_exists, At_exists, left) = (Bound, Bound, left\<lparr>nodes := (nodes left)(path \<mapsto> Socket_of b)\<rparr>)"
    using assms(3,4) by simp
qed

theorem socket_taken_over_witness:
  "snd (socket_bind 2 ''s'' (\<lambda>pc. if pc = At_connect then Some ''try again'' else None)
     \<lparr>nodes = [''s'' \<mapsto> Socket_of 1], running = {1}\<rparr>) = Inr () \<and>
   race ''s'' 1 2 [True, True, False, False, True, True, True, True, False, False, False, False]
     (At_exists, At_exists, \<lparr>nodes = [''s'' \<mapsto> Socket_of 0], running = {1, 2}\<rparr>) =
     (Bound, Bound, \<lparr>nodes = [''s'' \<mapsto> Socket_of 2], running = {1, 2}\<rparr>)"
  using socket_taken_over [where me = 2 and a = 1 and b = 2 and old = 1 and path = "''s''"
      and m = "\<lparr>nodes = [''s'' \<mapsto> Socket_of 1], running = {1}\<rparr>"
      and left = "\<lparr>nodes = [''s'' \<mapsto> Socket_of 0], running = {1, 2}\<rparr>"
      and faults = "\<lambda>pc. if pc = At_connect then Some ''try again'' else None"]
  by (simp add: listening_def split_beta)

lemma load_keeps:
  assumes "load_or_create de os d = (d', Inr c)"
  shows "\<exists>p x. config_file_path (os_var os) (os_config_dir os) = Inr p \<and> d' p = Some x"
proof -
  from assms obtain p where p: "config_file_path (os_var os) (os_config_dir os) = Inr p"
    by (auto simp: load_or_create_def split: sum.splits)
  show ?thesis
  proof (cases "path_exists os p d")
    case None
    with assms p obtain u where "config_save os (config_default (os_var os)) d = (d', Inr u)"
      by (auto simp: load_or_create_def Let_def split: prod.splits sum.splits)
    with config_save_cases [OF p, where c = "config_default (os_var os)" and d = d] p show ?thesis by auto
  next
    case (Some x)
    with assms p have "d' p = Some x"
      by (auto simp: load_or_create_def path_exists_def split: option.splits sum.splits prod.splits if_splits)
    with p show ?thesis by blast
  qed
qed

lemma load_existing:
  "config_file_path (os_var os) (os_config_dir os) = Inr p \<Longrightarrow> d p = Some x \<Longrightarrow>
   os_fault os (StatFile p) = None \<Longrightarrow> fst (load_or_create de os d) = d"
  by (auto simp: load_or_create_def path_exists_def split: option.split sum.split prod.split)

text \<open>The text of a config, when there is one, parses back to it.\<close>

definition reads_back :: "start_env \<Rightarrow> config \<Rightarrow> bool" where
  "reads_back env c \<longleftrightarrow> pred_option (\<lambda>txt. se_parse env txt = Inr c)
     (case os_config_text (se_os env) c of Inl _ \<Rightarrow> None | Inr txt \<Rightarrow> Some txt)"

lemma load_saved:
  assumes "config_save (se_os env) c d0 = (d, Inr ())" and "reads_back env c"
    and "schema_version c = CONFIG_SCHEMA_VERSION"
    and "config_file_path (os_var os) (os_config_dir os) = config_file_path (os_var (se_os env)) (os_config_dir (se_os env))"
    and "\<forall>p. os_fault os (StatFile p) = None \<and> os_fault os (ReadFile p) = None"
  shows "load_or_create (se_parse env) os d = (d, Inr c)"
proof -
  obtain p where p: "config_file_path (os_var (se_os env)) (os_config_dir (se_os env)) = Inr p"
    using assms(1) by (auto simp: config_save_def config_file_path_def split: sum.splits)
  obtain out where "os_config_text (se_os env) c = Inr out" "d p = Some (saved_file out (d0 p))"
    using config_save_cases [OF p, where c = c and d = d0] assms(1) by auto
  with assms(2-5) p show ?thesis
    by (simp add: load_or_create_def path_exists_def reads_back_def)
qed

lemma load_again:
  assumes "load_or_create (se_parse env) (se_os env) d0 = (d, Inr c)"
    and "reads_back env (config_default (os_var (se_os env)))"
    and "config_file_path (os_var os) (os_config_dir os) = config_file_path (os_var (se_os env)) (os_config_dir (se_os env))"
    and "\<forall>p. os_fault os (StatFile p) = None \<and> os_fault os (ReadFile p) = None"
  shows "load_or_create (se_parse env) os d = (d, Inr c)"
proof -
  obtain p where p: "config_file_path (os_var (se_os env)) (os_config_dir (se_os env)) = Inr p"
    using assms(1) by (auto simp: load_or_create_def split: sum.splits)
  show ?thesis
  proof (cases "path_exists (se_os env) p d0")
    case None
    with assms(1) p have "config_save (se_os env) c d0 = (d, Inr ())" "c = config_default (os_var (se_os env))"
      by (auto simp: load_or_create_def Let_def split: prod.splits sum.splits)
    then show ?thesis
      using assms(2-4) by (intro load_saved [of env c d0 d os]) (simp_all add: config_default_def)
  next
    case (Some x)
    with assms(1) p have "d = d0" "d0 p = Some x" "se_parse env (content x) = Inr c"
        "schema_version c = CONFIG_SCHEMA_VERSION"
      by (auto simp: load_or_create_def path_exists_def split: option.splits sum.splits prod.splits if_splits)
    with assms(3,4) p show ?thesis
      by (simp add: load_or_create_def path_exists_def)
  qed
qed

lemma identity_existing:
  "cs_secrets cs account = Some bs \<Longrightarrow> fst (identity_load_or_create account generated has cs) = cs"
  by (simp add: identity_load_or_create_def split: option.split)

lemma identity_loaded:
  assumes "identity_load_or_create account generated has cs = (cs', Inr i)" and "length generated = 32"
  shows "cs_secrets cs' account = Some (secret_key i)" and "length (secret_key i) = 32"
    and "cs_open_error cs' = None" and "cs_get_error cs' = None"
  using assms by (auto simp: identity_load_or_create_def split: option.splits if_splits)

lemma identity_secret:
  "identity_load_or_create account generated has cs = (cs', Inr i) \<Longrightarrow> cs_secrets cs' account = Some (secret_key i)"
  by (auto simp: identity_load_or_create_def split: option.splits if_splits)

text \<open>What a successful start has done.\<close>

lemma daemon_mainE:
  assumes "daemon_main env me h = (h', Started st path)"
  obtains d c cs ident m dir
  where "init_logging env = Inr dir"
    and "load_or_create (se_parse env) (se_os env) (ho_disk h) = (d, Inr c)"
    and "identity_load_or_create (keyring_account (os_var (se_os env)) (se_hash_hex env))
           (se_generated env) (trusted_peers c \<noteq> []) (ho_secrets h) = (cs, Inr ident)"
    and "default_socket_path (os_var (se_os env)) (os_config_dir (se_os env)) = Inr path"
    and "socket_bind me path (se_bind_faults env) (ho_machine h) = (m, Inr ())"
    and "h' = h\<lparr>ho_disk := d, ho_secrets := cs, ho_machine := m\<lparr>running := insert me (running m)\<rparr>\<rparr>"
    and "st = app_state_new ident c (se_now env)"
  using assms
  by (auto simp: daemon_main_def daemon_prepare_def split: prod.splits sum.splits option.splits sock_error.splits)

definition same_profile :: "start_env \<Rightarrow> start_env \<Rightarrow> bool" where
  "same_profile env env' \<longleftrightarrow> os_var (se_os env') = os_var (se_os env) \<and>
     os_config_dir (se_os env') = os_config_dir (se_os env) \<and> se_hash_hex env' = se_hash_hex env"

lemma socket_bind_Inr: "socket_bind me path faults m = (m', Inr u) \<Longrightarrow> nodes m' path = Some (Socket_of me)"
  using socket_bind_outcome [where me = me and path = path and faults = faults and m = m] by simp

definition demo_start :: start_env where
  "demo_start = \<lparr>se_os = sample_os, se_macos = True, se_base_dirs = Some (''h'', ''l''), se_logs_fault = None, se_parse = (\<lambda>_. Inr (config_default (os_var sample_os))), se_hash_hex = id,
     se_generated = replicate 32 7, se_endpoint = None, se_now = 5, se_bind_faults = (\<lambda>_. None)\<rparr>"

definition demo_host :: host where
  "demo_host = \<lparr>ho_disk = Map.empty,
     ho_secrets = \<lparr>cs_secrets = Map.empty, cs_open_error = None, cs_get_error = None, cs_set_error = None\<rparr>,
     ho_machine = \<lparr>nodes = Map.empty, running = {}\<rparr>\<rparr>"

lemma demo_loads: "\<exists>d'. load_or_create (se_parse demo_start) (se_os demo_start) d = (d', Inr (config_default (os_var sample_os)))"
  by (cases "config_file_path (os_var sample_os) (os_config_dir sample_os)")
    (auto simp: load_or_create_def path_exists_def demo_start_def sample_os_def config_file_path_def app_dir_def config_save_def
      save_ops_def config_default_def Let_def split: option.split)

lemma demo_starts: "\<exists>h1 st path. daemon_main demo_start 1 demo_host = (h1, Started st path)"
proof -
  obtain d where d: "load_or_create (se_parse demo_start) (se_os demo_start) Map.empty =
      (d, Inr (config_default (os_var sample_os)))"
    using demo_loads by blast
  obtain path where path: "default_socket_path (os_var sample_os) (os_config_dir sample_os) = Inr path"
    by (simp add: default_socket_path_def sample_os_def)
  have logs: "init_logging demo_start = Inr ''h/Library/Logs/lcp''"
    by (simp add: init_logging_def demo_start_def logs_dir_def path_join_def sample_os_def)
  have env: "se_os demo_start = sample_os" "se_endpoint demo_start = None" "se_bind_faults demo_start = (\<lambda>_. None)"
    by (simp_all add: demo_start_def)
  have peers: "trusted_peers (config_default (os_var sample_os)) = []"
    by (simp add: config_default_def)
  from d path show ?thesis
    by (simp add: daemon_main_def daemon_prepare_def logs demo_host_def identity_load_or_create_def socket_bind_free Let_def env peers)
qed

text \<open>
  C17.  One daemon per profile: while a daemon that has started is running, and the probe of its
  socket works, no other start of the same profile succeeds, and none changes the config file,
  the stored identity or the socket (as long as it can examine the config file; otherwise it
  takes the file for missing, see \<open>unseen_config_replaced\<close>).
\<close>

theorem single_instance:
  assumes "daemon_main env me h = (h1, Started st path)" and "same_profile env env'"
    and "se_bind_faults env' At_exists = None" and "se_bind_faults env' At_connect = None"
    and "\<forall>p. os_fault (se_os env') (StatFile p) = None"
  shows "fst (daemon_main env' other h1) = h1 \<and>
    (\<nexists>st' path'. snd (daemon_main env' other h1) = Started st' path')"
  using assms(1)
proof (rule daemon_mainE)
  fix d c cs ident m
  assume load: "load_or_create (se_parse env) (se_os env) (ho_disk h) = (d, Inr c)"
    and ident: "identity_load_or_create (keyring_account (os_var (se_os env)) (se_hash_hex env))
           (se_generated env) (trusted_peers c \<noteq> []) (ho_secrets h) = (cs, Inr ident)"
    and path: "default_socket_path (os_var (se_os env)) (os_config_dir (se_os env)) = Inr path"
    and bind: "socket_bind me path (se_bind_faults env) (ho_machine h) = (m, Inr ())"
    and h1: "h1 = h\<lparr>ho_disk := d, ho_secrets := cs, ho_machine := m\<lparr>running := insert me (running m)\<rparr>\<rparr>"
  obtain d' r where load': "load_or_create (se_parse env') (se_os env') (ho_disk h1) = (d', r)"
    by fastforce
  have "d' = ho_disk h1"
    using load_keeps [OF load] load_existing [of "se_os env'" _ d _ "se_parse env'"] load' assms(2,5)
    by (auto simp: h1 same_profile_def)
  moreover have secret: "cs' = cs"
    if "identity_load_or_create (keyring_account (os_var (se_os env')) (se_hash_hex env')) g b cs = (cs', r')" for g b cs' r'
    using identity_existing [OF identity_secret [OF ident], of g b] that assms(2) by (simp add: same_profile_def)
  moreover have "listening (ho_machine h1) path"
    using socket_bind_Inr [OF bind] by (simp add: h1 listening_def)
  then have "socket_bind other path (se_bind_faults env') (ho_machine h1) = (ho_machine h1, Inl AddrInUse)"
    using assms(3,4) by (rule socket_bind_live)
  moreover have "default_socket_path (os_var (se_os env')) (os_config_dir (se_os env')) = Inr path"
    using path assms(2) by (simp add: same_profile_def)
  ultimately show ?thesis
    using load' by (auto simp: daemon_main_def daemon_prepare_def h1 split: prod.split sum.split option.split dest!: secret)
qed

theorem single_instance_witness:
  "\<exists>h1 st path. daemon_main demo_start 1 demo_host = (h1, Started st path) \<and>
     fst (daemon_main demo_start 2 h1) = h1 \<and> (\<nexists>st' path'. snd (daemon_main demo_start 2 h1) = Started st' path')"
proof -
  obtain h1 st path where start: "daemon_main demo_start 1 demo_host = (h1, Started st path)"
    using demo_starts by blast
  have "same_profile demo_start demo_start" "se_bind_faults demo_start pc = None"
      "\<forall>p. os_fault (se_os demo_start) (StatFile p) = None" for pc
    by (simp_all add: same_profile_def demo_start_def sample_os_def)
  from single_instance [OF start this(1,2,2,3)] start show ?thesis by blast
qed

text \<open>
  A start that cannot examine the existing config file takes it for missing and, when its other
  calls work, replaces it by the default config, whatever it held: no trusted peer is left.
\<close>

theorem unseen_config_replaced:
  assumes "config_file_path (os_var os) (os_config_dir os) = Inr p" and "os_fault os (StatFile p) \<noteq> None"
    and "os_config_text os (config_default (os_var os)) = Inr txt"
    and "\<forall>oper. oper \<noteq> StatFile p \<longrightarrow> os_fault os oper = None"
  shows "\<exists>d'. load_or_create de os d = (d', Inr (config_default (os_var os))) \<and>
    map_option content (d' p) = Some txt \<and> trusted_peers (config_default (os_var os)) = []"
proof -
  obtain d' r where save: "config_save os (config_default (os_var os)) d = (d', r)" by fastforce
  have "r = Inr ()"
    using assms save by (auto simp: config_save_def save_ops_def Let_def config_path_Inr)
  moreover from this have "d' p = Some (saved_file txt (d p))"
    using config_save_cases [OF assms(1), where c = "config_default (os_var os)" and d = d] save assms(3) by simp
  moreover have "trusted_peers (config_default (os_var os)) = []"
    by (simp add: config_default_def)
  ultimately show ?thesis
    using assms(1,2) save by (auto simp: load_or_create_def path_exists_def Let_def)
qed

text \<open>
  C31.  A daemon can always be started again, and finds what it had: after a running daemon was
  shut down, even if removing its socket failed, or after its process died and left the socket
  behind, a start of the profile whose calls succeed does start, with the same identity and the
  same config, and with no history, invites or sessions.  The config is the one that was last
  saved, or the one the daemon started with when none was saved since; the text of the
  config has to parse back to it, as has that of the default config.
\<close>

theorem restart_recovers:
  assumes "daemon_main env me h = (h1, Started st path)" and "same_profile env env'"
    and "se_parse env' = se_parse env" and "length (se_generated env) = 32"
    and "(d, c) = (ho_disk h1, st_config st) \<or>
      config_save (se_os env) c before = (d, Inr ()) \<and> schema_version c = CONFIG_SCHEMA_VERSION"
    and "reads_back env (config_default (os_var (se_os env)))" and "reads_back env c"
    and "h2 = daemon_shutdown path fault me (h1\<lparr>ho_disk := d\<rparr>) \<or>
      h2 = h1\<lparr>ho_disk := d, ho_machine := process_exit me (ho_machine h1)\<rparr>"
    and "init_logging env' = Inr dir" and "se_endpoint env' = None" and "\<forall>pc. se_bind_faults env' pc = None"
    and "\<forall>p. os_fault (se_os env') (StatFile p) = None \<and> os_fault (se_os env') (ReadFile p) = None"
  shows "\<exists>h3. daemon_main env' other h2 = (h3, Started (app_state_new (identity st) c (se_now env')) path) \<and>
    listening (ho_machine h3) path \<and> ho_disk h3 = d \<and> ho_secrets h3 = ho_secrets h1"
  using assms(1)
proof (rule daemon_mainE)
  fix d1 c1 cs ident m
  assume load: "load_or_create (se_parse env) (se_os env) (ho_disk h) = (d1, Inr c1)"
    and ident: "identity_load_or_create (keyring_account (os_var (se_os env)) (se_hash_hex env))
           (se_generated env) (trusted_peers c1 \<noteq> []) (ho_secrets h) = (cs, Inr ident)"
    and path: "default_socket_path (os_var (se_os env)) (os_config_dir (se_os env)) = Inr path"
    and bind: "socket_bind me path (se_bind_faults env) (ho_machine h) = (m, Inr ())"
    and h1: "h1 = h\<lparr>ho_disk := d1, ho_secrets := cs, ho_machine := m\<lparr>running := insert me (running m)\<rparr>\<rparr>"
    and st: "st = app_state_new ident c1 (se_now env)"
  have h2: "ho_disk h2 = d" "ho_secrets h2 = cs"
    using assms(8) by (auto simp: daemon_shutdown_def h1)
  have place: "config_file_path (os_var (se_os env')) (os_config_dir (se_os env')) =
      config_file_path (os_var (se_os env)) (os_config_dir (se_os env))"
    using assms(2) by (simp add: same_profile_def)
  have reload: "load_or_create (se_parse env') (se_os env') d = (d, Inr c)"
    using assms(5)
  proof
    assume "(d, c) = (ho_disk h1, st_config st)"
    then have "d = d1" "c = c1" by (simp_all add: h1 st app_state_new_def)
    with load_again [OF load assms(6) place assms(12)] assms(3) show ?thesis by simp
  next
    assume "config_save (se_os env) c before = (d, Inr ()) \<and> schema_version c = CONFIG_SCHEMA_VERSION"
    with load_saved [of env c before d "se_os env'"] place assms(3,7,12) show ?thesis by simp
  qed
  have "nodes (ho_machine h2) path \<in> {None, Some (Socket_of me)}" "me \<notin> running (ho_machine h2)"
    using assms(8) socket_bind_Inr [OF bind]
    by (cases fault; auto simp: daemon_shutdown_def remove_socket_def process_exit_def h1)+
  then have "\<exists>m'. socket_bind other path (se_bind_faults env') (ho_machine h2) = (m', Inr ()) \<and>
      nodes m' path = Some (Socket_of other)"
    using assms(11) by (cases "nodes (ho_machine h2) path")
      (auto simp: socket_bind_free socket_bind_stale listening_def)
  then obtain m' where m': "socket_bind other path (se_bind_faults env') (ho_machine h2) = (m', Inr ())"
      "nodes m' path = Some (Socket_of other)" by blast
  have "identity_load_or_create (keyring_account (os_var (se_os env')) (se_hash_hex env'))
      (se_generated env') (trusted_peers c \<noteq> []) cs = (cs, Inr ident)"
    using identity_loaded [OF ident assms(4)] assms(2)
    by (simp add: identity_load_or_create_def same_profile_def)
  with m' path assms(2,9,10) reload h2 show ?thesis
    by (simp add: daemon_main_def daemon_prepare_def same_profile_def Let_def st app_state_new_def
        listening_def h1)
qed

theorem restart_recovers_witness:
  "\<exists>h1 st path h3. daemon_main demo_start 1 demo_host = (h1, Started st path) \<and>
     daemon_main demo_start 2 (h1\<lparr>ho_machine := process_exit 1 (ho_machine h1)\<rparr>) =
       (h3, Started (app_state_new (identity st) (st_config st) 5) path) \<and> ho_disk h3 = ho_disk h1"
proof -
  obtain h1 st path where start: "daemon_main demo_start 1 demo_host = (h1, Started st path)"
    using demo_starts by blast
  have st: "st_config st = config_default (os_var sample_os)"
    using start by (auto simp: app_state_new_def elim!: daemon_mainE)
      (use demo_loads in \<open>metis prod.inject sum.inject(2)\<close>)
  have env: "same_profile demo_start demo_start" "length (se_generated demo_start) = 32"
    "reads_back demo_start (config_default (os_var sample_os))" "se_os demo_start = sample_os"
    "init_logging demo_start = Inr ''h/Library/Logs/lcp''" "se_endpoint demo_start = None"
    "\<forall>pc. se_bind_faults demo_start pc = None" "se_now demo_start = 5"
    "\<forall>p. os_fault (se_os demo_start) (StatFile p) = None \<and> os_fault (se_os demo_start) (ReadFile p) = None"
    by (simp_all add: same_profile_def demo_start_def reads_back_def init_logging_def logs_dir_def
        path_join_def sample_os_def)
  from restart_recovers [where env = demo_start and env' = demo_start and me = 1 and h = demo_host
      and d = "ho_disk h1" and c = "st_config st" and other = 2, OF start env(1) refl env(2) disjI1 [OF refl]
      _ _ disjI2 [OF refl] env(5-7,9)] start env(3,4,8) st
  show ?thesis by auto
qed

end
