(* ===== verification/Lcp_Pipe.thy ===== *)
theory Lcp_Pipe
  imports Lcp_Startup Lcp_Commands
begin

text \<open>
  The Windows transport (\<open>lcp-ipc/src/windows.rs\<close>): the name of the pipe, the user's SID as the
  output of \<open>whoami\<close> says it, the first instance with its access list, the loop that serves the
  clients, and connecting.  The calls of the Windows API act on \<open>win\<close>, the pipes and security
  descriptors of the machine, as its documentation says; each call may also fail.
\<close>

section \<open>Texts\<close>

text \<open>\<open>String::from_utf8_lossy\<close>: a maximal beginning of a character that goes wrong becomes U+FFFD.\<close>

definition REPLACEMENT :: "nat list" where
  "REPLACEMENT = [239, 191, 189]"

fun utf8_lossy :: "nat list \<Rightarrow> nat list" where
  "utf8_lossy [] = []"
| "utf8_lossy (a # bs) =
     (if a < 128 then a # utf8_lossy bs
      else if 194 \<le> a \<and> a \<le> 223 then
        (case bs of
           b # cs \<Rightarrow> if cont_byte b then a # b # utf8_lossy cs else REPLACEMENT @ utf8_lossy bs
         | [] \<Rightarrow> REPLACEMENT)
      else if 224 \<le> a \<and> a \<le> 239 then
        (case bs of
           b # cs \<Rightarrow>
             if second_byte a b then
               (case cs of
                  c # ds \<Rightarrow> if cont_byte c then a # b # c # utf8_lossy ds else REPLACEMENT @ utf8_lossy cs
                | [] \<Rightarrow> REPLACEMENT)
             else REPLACEMENT @ utf8_lossy bs
         | [] \<Rightarrow> REPLACEMENT)
      else if 240 \<le> a \<and> a \<le> 244 then
        (case bs of
           b # cs \<Rightarrow>
             if second_byte a b then
               (case cs of
                  c # ds \<Rightarrow>
                    if cont_byte c then
                      (case ds of
                         d # es \<Rightarrow>
                           if cont_byte d then a # b # c # d # utf8_lossy es
                           else REPLACEMENT @ utf8_lossy ds
                       | [] \<Rightarrow> REPLACEMENT)
                    else REPLACEMENT @ utf8_lossy cs
                | [] \<Rightarrow> REPLACEMENT)
             else REPLACEMENT @ utf8_lossy bs
         | [] \<Rightarrow> REPLACEMENT)
      else REPLACEMENT @ utf8_lossy bs)"

definition from_utf8_lossy :: "bytes \<Rightarrow> string" where
  "from_utf8_lossy bs = map char_of (utf8_lossy (map unat bs))"

text \<open>The UTF-16 code units of a well-formed string.\<close>

definition utf16_unit :: "nat \<Rightarrow> u16 list" where
  "utf16_unit cp =
     (if cp < 65536 then [of_nat cp]
      else [of_nat (55296 + (cp - 65536) div 1024), of_nat (56320 + (cp - 65536) mod 1024)])"

fun utf16 :: "nat list \<Rightarrow> u16 list" where
  "utf16 [] = []"
| "utf16 (a # bs) =
     (if a < 128 then utf16_unit a @ utf16 bs
      else if a \<le> 223 then
        (case bs of b # cs \<Rightarrow> utf16_unit ((a - 192) * 64 + (b - 128)) @ utf16 cs | _ \<Rightarrow> [])
      else if a \<le> 239 then
        (case bs of
           b # c # cs \<Rightarrow> utf16_unit ((a - 224) * 4096 + (b - 128) * 64 + (c - 128)) @ utf16 cs
         | _ \<Rightarrow> [])
      else
        (case bs of
           b # c # d # cs \<Rightarrow>
             utf16_unit ((a - 240) * 262144 + (b - 128) * 4096 + (c - 128) * 64 + (d - 128)) @ utf16 cs
         | _ \<Rightarrow> []))"

definition to_wide_null :: "string \<Rightarrow> u16 list" where
  "to_wide_null s = utf16 (map of_char s) @ [0]"

text \<open>What the Windows API reads of such a string.\<close>

definition c_str :: "u16 list \<Rightarrow> u16 list" where
  "c_str ws = takeWhile (\<lambda>w. w \<noteq> 0) ws"

section \<open>The name of the pipe\<close>

definition pipe_name :: "string \<Rightarrow> string" where
  "pipe_name user_identifier =
     [CHR 0x5C, CHR 0x5C, CHR ''.'', CHR 0x5C] @ ''pipe'' @ [CHR 0x5C] @ ''lcp-'' @ user_identifier"

text \<open>\<open>text.lines().next()\<close>\<close>

definition first_line :: "string \<Rightarrow> string option" where
  "first_line t =
     (if t = [] then None
      else let l = takeWhile (\<lambda>c. c \<noteq> CHR 0x0A) t
           in Some (if l \<noteq> t \<and> l \<noteq> [] \<and> last l = CHR 0x0D then butlast l else l))"

text \<open>\<open>rsplit(',').next()\<close> and \<open>trim_matches\<close>\<close>

definition last_field :: "string \<Rightarrow> string" where
  "last_field l = rev (takeWhile (\<lambda>c. c \<noteq> CHR '','') (rev l))"

definition trim_matches :: "char \<Rightarrow> string \<Rightarrow> string" where
  "trim_matches c s = rev (dropWhile (\<lambda>d. d = c) (rev (dropWhile (\<lambda>d. d = c) s)))"

text \<open>One run of \<open>whoami\<close>: it could not be started, or its success and its output.\<close>

type_synonym whoami = "string + (bool \<times> bytes)"

definition current_user_sid :: "whoami \<Rightarrow> string option" where
  "current_user_sid out =
     (case out of
        Inl e \<Rightarrow> None
      | Inr (success, stdout) \<Rightarrow>
          if \<not> success then None
          else (case first_line (from_utf8_lossy stdout) of
                  None \<Rightarrow> None
                | Some l \<Rightarrow>
                    (let sid = trim_matches (CHR 0x22) (trim (last_field (trim l)))
                     in if prefix ''S-1-'' sid then Some sid else None)))"

definition current_user_identifier ::
  "whoami \<Rightarrow> (string \<Rightarrow> string option) \<Rightarrow> (string \<Rightarrow> string) \<Rightarrow> string" where
  "current_user_identifier out env hash_hex =
     (let base = (case current_user_sid out of
                    Some sid \<Rightarrow> sid
                  | None \<Rightarrow> (case env ''USERNAME'' of Some u \<Rightarrow> u | None \<Rightarrow> ''unknown-user''))
      in case env ''LCP_PROFILE_DIR'' of
           Some dir \<Rightarrow> base @ ''-'' @ hash_hex dir
         | None \<Rightarrow> base)"

section \<open>The pipes of the machine\<close>

record pipe =
  pi_dacl :: "u16 list option" \<comment> \<open>the text of its descriptor; none: the default one\<close>
  pi_instances :: nat

record win =
  pipes :: "u16 list \<Rightarrow> pipe option"
  descriptors :: "nat \<Rightarrow> u16 list option"

datatype pipe_error = Pipe_denied | Pipe_io string

text \<open>The runs of \<open>whoami\<close> and the faults of the calls of one \<open>bind_first_instance\<close>.\<close>

record pipe_env =
  pe_whoami :: "nat \<Rightarrow> whoami"
  pe_var :: "string \<Rightarrow> string option"
  pe_hash_hex :: "string \<Rightarrow> string"
  pe_descriptor :: nat
  pe_convert :: "pipe_error option"
  pe_create :: "pipe_error option"

definition convert_descriptor :: "pipe_error option \<Rightarrow> nat \<Rightarrow> u16 list \<Rightarrow> win \<Rightarrow> win \<times> (pipe_error + nat)" where
  "convert_descriptor fault d sddl w =
     (case fault of
        Some e \<Rightarrow> (w, Inl e)
      | None \<Rightarrow> (w\<lparr>descriptors := (descriptors w)(d \<mapsto> c_str sddl)\<rparr>, Inr d))"

definition local_free :: "nat \<Rightarrow> win \<Rightarrow> win" where
  "local_free d w = w\<lparr>descriptors := (descriptors w)(d := None)\<rparr>"

text \<open>\<open>ServerOptions\<close>: only the first instance may be created when \<open>first\<close> is set.\<close>

definition create_pipe ::
  "pipe_error option \<Rightarrow> bool \<Rightarrow> nat option \<Rightarrow> string \<Rightarrow> win \<Rightarrow> win \<times> (pipe_error + unit)" where
  "create_pipe fault first attrs addr w =
     (let key = c_str (to_wide_null addr)
      in case fault of
           Some e \<Rightarrow> (w, Inl e)
         | None \<Rightarrow>
             (case pipes w key of
                Some p \<Rightarrow>
                  if first then (w, Inl Pipe_denied)
                  else (w\<lparr>pipes := (pipes w)(key \<mapsto> p\<lparr>pi_instances := pi_instances p + 1\<rparr>)\<rparr>, Inr ())
              | None \<Rightarrow>
                  (w\<lparr>pipes := (pipes w)(key \<mapsto>
                       \<lparr>pi_dacl = Option.bind attrs (descriptors w), pi_instances = 1\<rparr>)\<rparr>, Inr ())))"

definition sddl_of :: "string \<Rightarrow> string" where
  "sddl_of user_sid = ''D:P(A;;GA;;;'' @ user_sid @ '')''"

text \<open>\<open>SecurityDescriptorGuard\<close> frees the descriptor on every way out.\<close>

definition create_first_instance ::
  "pipe_env \<Rightarrow> string \<Rightarrow> string \<Rightarrow> win \<Rightarrow> win \<times> (pipe_error + unit)" where
  "create_first_instance env addr user_sid w =
     (case convert_descriptor (pe_convert env) (pe_descriptor env) (to_wide_null (sddl_of user_sid)) w of
        (w1, Inl e) \<Rightarrow> (w1, Inl e)
      | (w1, Inr d) \<Rightarrow>
          (case create_pipe (pe_create env) True (Some d) addr w1 of (w2, r) \<Rightarrow> (local_free d w2, r)))"

definition bind_first_instance :: "pipe_env \<Rightarrow> win \<Rightarrow> win \<times> (pipe_error + string)" where
  "bind_first_instance env w =
     (case current_user_sid (pe_whoami env 0) of
        None \<Rightarrow> (w, Inl (Pipe_io ''could not determine current user SID for pipe ACL''))
      | Some user_sid \<Rightarrow>
          (let addr = pipe_name (current_user_identifier (pe_whoami env 1) (pe_var env) (pe_hash_hex env))
           in case create_first_instance env addr user_sid w of
                (w1, Inl e) \<Rightarrow> (w1, Inl e)
              | (w1, Inr _) \<Rightarrow> (w1, Inr addr)))"

definition PIPE_CONNECT_TIMEOUT_MS :: nat where
  "PIPE_CONNECT_TIMEOUT_MS = 500"

text \<open>\<open>connect\<close>: wait for an instance, for at most that long, then open it.\<close>

definition pipe_connect :: "string option \<Rightarrow> string option \<Rightarrow> string \<Rightarrow> win \<Rightarrow> string + string" where
  "pipe_connect wait_fault open_fault user_identifier w =
     (let addr = pipe_name user_identifier
      in case wait_fault of
           Some e \<Rightarrow> Inl e
         | None \<Rightarrow>
             if pipes w (c_str (to_wide_null addr)) = None then Inl ''file not found''
             else (case open_fault of Some e \<Rightarrow> Inl e | None \<Rightarrow> Inr addr))"

section \<open>Texts that survive\<close>

text \<open>The four lengths of a character.\<close>

lemma utf8_head:
  assumes "utf8_valid (a # bs)"
  obtains (one) "a < 128" "utf8_valid bs"
  | (two) b cs where "bs = b # cs" "194 \<le> a" "a \<le> 223" "cont_byte b" "utf8_valid cs"
  | (three) b c cs where "bs = b # c # cs" "224 \<le> a" "a \<le> 239" "second_byte a b" "cont_byte c" "utf8_valid cs"
  | (four) b c d cs where "bs = b # c # d # cs" "240 \<le> a" "a \<le> 244" "second_byte a b" "cont_byte c"
      "cont_byte d" "utf8_valid cs"
proof -
  consider "a < 128" | "194 \<le> a" "a \<le> 223" | "224 \<le> a" "a \<le> 239" | "240 \<le> a" "a \<le> 244"
    using assms by (simp split: if_splits)
  then show thesis
  proof cases
    case 1
    with assms one show thesis by simp
  next
    case 2
    with assms two show thesis by (cases bs) simp_all
  next
    case 3
    with assms three show thesis by (cases bs; cases "tl bs") simp_all
  next
    case 4
    with assms four show thesis by (cases bs; cases "tl bs"; cases "tl (tl bs)") simp_all
  qed
qed

lemma utf8_lossy_id: "utf8_valid bs \<Longrightarrow> utf8_lossy bs = bs"
proof (induction bs rule: length_induct)
  case (1 bs)
  show ?case
  proof (cases bs)
    case (Cons a cs)
    from 1 Cons have "utf8_valid (a # cs)" by simp
    then show ?thesis
      by (cases rule: utf8_head) (use 1 Cons in auto)
  qed simp
qed

lemma of_nat16_nonzero: "0 < n \<Longrightarrow> n < 65536 \<Longrightarrow> (of_nat n :: u16) \<noteq> 0"
  using nat_dvd_not_less by (auto simp: word_of_nat_eq_0_iff)

lemma utf16_unit_nonzero:
  assumes "0 < cp" and "cp < 1114112"
  shows "0 \<notin> set (utf16_unit cp)"
proof (cases "cp < 65536")
  case True
  with assms(1) show ?thesis by (auto simp: utf16_unit_def dest: of_nat16_nonzero)
next
  case False
  have "(cp - 65536) div 1024 < 1024" and "(cp - 65536) mod 1024 < 1024"
    using assms(2) by auto
  then have "(of_nat (55296 + (cp - 65536) div 1024) :: u16) \<noteq> 0"
      and "(of_nat (56320 + (cp - 65536) mod 1024) :: u16) \<noteq> 0"
    by (intro of_nat16_nonzero; simp)+
  with False show ?thesis by (simp add: utf16_unit_def del: of_nat_add)
qed

lemma utf16_nonzero: "utf8_valid bs \<Longrightarrow> 0 \<notin> set bs \<Longrightarrow> 0 \<notin> set (utf16 bs)"
proof (induction bs rule: length_induct)
  case (1 bs)
  show ?case
  proof (cases bs)
    case (Cons a cs)
    from 1 Cons have "utf8_valid (a # cs)" by simp
    then show ?thesis
    proof (cases rule: utf8_head)
      case one
      with 1 Cons utf16_unit_nonzero [of a] show ?thesis by auto
    next
      case (two b ds)
      then have "0 < (a - 192) * 64 + (b - 128)" and "(a - 192) * 64 + (b - 128) < 1114112"
        by (auto simp: cont_byte_def)
      from utf16_unit_nonzero [OF this] two 1 Cons show ?thesis by auto
    next
      case (three b c ds)
      then have "0 < (a - 224) * 4096 + (b - 128) * 64 + (c - 128)"
          and "(a - 224) * 4096 + (b - 128) * 64 + (c - 128) < 1114112"
        by (auto simp: cont_byte_def second_byte_def split: if_splits)
      from utf16_unit_nonzero [OF this] three 1 Cons show ?thesis by auto
    next
      case (four b c d ds)
      then have "0 < (a - 240) * 262144 + (b - 128) * 4096 + (c - 128) * 64 + (d - 128)"
          and "(a - 240) * 262144 + (b - 128) * 4096 + (c - 128) * 64 + (d - 128) < 1114112"
        by (auto simp: cont_byte_def second_byte_def split: if_splits)
      from utf16_unit_nonzero [OF this] four 1 Cons show ?thesis by auto
    qed
  qed simp
qed

lemma c_str_wide:
  assumes "utf8_valid (map of_char s)" and "CHR 0x00 \<notin> set s"
  shows "c_str (to_wide_null s) = utf16 (map of_char s)"
proof -
  have "(0::nat) \<notin> set (map of_char s)"
  proof
    assume "(0::nat) \<in> set (map of_char s)"
    then obtain c where c: "c \<in> set s" "of_char c = (0::nat)" by fastforce
    then have "c = CHR 0x00" using of_char_eq_iff [where 'a = nat, of c "CHR 0x00"] by simp
    with c(1) assms(2) show False by simp
  qed
  then have "\<forall>w \<in> set (utf16 (map of_char s)). w \<noteq> 0"
    using utf16_nonzero [OF assms(1)] by metis
  then show ?thesis by (simp add: c_str_def to_wide_null_def)
qed

section \<open>The user's SID\<close>

text \<open>A text that neither starts nor ends like a white-space character is not trimmed.\<close>

lemma whitespace_ends:
  "is_whitespace c \<Longrightarrow> c \<noteq> [] \<and> of_char (hd c) \<in> hd ` set whitespace_chars \<and>
     of_char (last c) \<in> last ` set whitespace_chars"
proof -
  assume "is_whitespace c"
  then obtain ws where ws: "ws \<in> set whitespace_chars" "map of_char c = ws"
    by (auto simp: is_whitespace_def)
  moreover from ws(1) have "ws \<noteq> []" by (auto simp: whitespace_chars_def)
  ultimately show ?thesis by (auto simp: image_iff hd_map last_map intro!: bexI [of _ ws])
qed

lemma dropWhile_hd: "xs = [] \<or> \<not> P (hd xs) \<Longrightarrow> dropWhile P xs = xs"
  by (cases xs) auto

lemma trim_keeps:
  assumes "s \<noteq> []" and "of_char (hd s) \<notin> hd ` set whitespace_chars"
    and "of_char (last s) \<notin> last ` set whitespace_chars"
  shows "trim s = s"
proof -
  let ?cs = "chars s"
  have blocks: "\<forall>b \<in> set ?cs. b \<noteq> []"
    using blocks_chars [of s] by (auto simp: blocks_def block_def list_all_iff)
  have ne: "?cs \<noteq> []" using assms(1) by simp
  have "hd (concat ?cs) = hd (hd ?cs)"
    using blocks ne by (cases ?cs) auto
  then have "\<not> is_whitespace (hd ?cs)" using assms(2) whitespace_ends [of "hd ?cs"] by auto
  then have front: "dropWhile is_whitespace ?cs = ?cs" by (intro dropWhile_hd) simp
  have "last (concat ?cs) = last (last ?cs)"
    using blocks ne by (cases ?cs rule: rev_cases) auto
  then have "\<not> is_whitespace (last ?cs)" using assms(3) whitespace_ends [of "last ?cs"] by auto
  then have "dropWhile is_whitespace (rev ?cs) = rev ?cs"
    using ne by (intro dropWhile_hd) (simp add: hd_rev)
  with front show ?thesis by (simp add: trim_def trim_chars_def)
qed

lemma trim_quoted: "trim ([CHR 0x22] @ s @ [CHR 0x22]) = [CHR 0x22] @ s @ [CHR 0x22]"
  by (rule trim_keeps) (auto simp: whitespace_chars_def)

text \<open>What \<open>whoami /user /fo csv /nh\<close> prints: the quoted name and the quoted SID.\<close>

definition whoami_line :: "string \<Rightarrow> string \<Rightarrow> string" where
  "whoami_line user sid =
     [CHR 0x22] @ user @ [CHR 0x22] @ '','' @ [CHR 0x22] @ sid @ [CHR 0x22]"

lemma last_field_line: "CHR '','' \<notin> set sid \<Longrightarrow> last_field (whoami_line user sid) = [CHR 0x22] @ sid @ [CHR 0x22]"
proof -
  assume "CHR '','' \<notin> set sid"
  then have "takeWhile (\<lambda>c. c \<noteq> CHR '','') ((CHR 0x22 # rev sid @ [CHR 0x22]) @ CHR '','' # ys) =
      CHR 0x22 # rev sid @ [CHR 0x22]" for ys
    by (subst takeWhile_append2) auto
  then show ?thesis by (simp add: last_field_def whoami_line_def)
qed

lemma trim_matches_quoted:
  assumes "CHR 0x22 \<notin> set sid"
  shows "trim_matches (CHR 0x22) ([CHR 0x22] @ sid @ [CHR 0x22]) = sid"
proof (cases sid)
  case (Cons c cs)
  with assms have "dropWhile (\<lambda>d. d = CHR 0x22) (rev sid) = rev sid"
    by (intro dropWhile_hd) (metis hd_in_set set_rev)
  with assms Cons show ?thesis by (auto simp: trim_matches_def)
qed (simp add: trim_matches_def)

lemma first_line_line:
  assumes "CHR 0x0A \<notin> set l"
  shows "first_line (l @ [CHR 0x0D, CHR 0x0A]) = Some l"
proof -
  have "takeWhile (\<lambda>c. c \<noteq> CHR 0x0A) (l @ [CHR 0x0D, CHR 0x0A]) = l @ [CHR 0x0D]"
    using assms by (subst takeWhile_append2) auto
  then show ?thesis by (simp add: first_line_def Let_def)
qed

lemma from_utf8_lossy_valid:
  assumes "utf8_valid (map of_char s)"
  shows "from_utf8_lossy (bytes_of s) = s"
proof -
  have "unat (of_char c :: u8) = of_char c" for c
    using unat_of_nat [where 'a = 8, of "of_char c"] by (simp add: of_nat_of_char)
  then have bytes: "map unat (bytes_of s) = map of_char s" by simp
  show ?thesis
    by (simp only: from_utf8_lossy_def bytes utf8_lossy_id [OF assms]) (simp add: comp_def)
qed

lemma current_user_sid_line:
  assumes "utf8_valid (map of_char (whoami_line user sid @ [CHR 0x0D, CHR 0x0A]))"
    and "CHR 0x0A \<notin> set user" and "prefix ''S-1-'' sid" and "CHR 0x0A \<notin> set sid"
    and "CHR '','' \<notin> set sid" and "CHR 0x22 \<notin> set sid"
  shows "current_user_sid (Inr (True, bytes_of (whoami_line user sid @ [CHR 0x0D, CHR 0x0A]))) = Some sid"
proof -
  have "CHR 0x0A \<notin> set (whoami_line user sid)"
    using assms(2,4) by (simp add: whoami_line_def)
  moreover have "trim (whoami_line user sid) = whoami_line user sid"
    using trim_quoted [of "user @ [CHR 0x22] @ '','' @ [CHR 0x22] @ sid"] by (simp add: whoami_line_def)
  ultimately show ?thesis
    using assms(3,5,6) trim_quoted [of sid]
    by (simp add: current_user_sid_def from_utf8_lossy_valid [OF assms(1)] first_line_line last_field_line
        trim_matches_quoted [simplified] Let_def del: map_append)
qed

section \<open>Properties\<close>

text \<open>
  The SID is read from the output of \<open>whoami\<close>: for every account name and SID that the tool
  can print on one quoted line, commas and non-ASCII letters in the name included, the SID is found.
\<close>

theorem whoami_sid_found:
  assumes "utf8_valid (map of_char (whoami_line user sid @ [CHR 0x0D, CHR 0x0A]))"
    and "CHR 0x0A \<notin> set user" and "prefix ''S-1-'' sid" and "CHR 0x0A \<notin> set sid"
    and "CHR '','' \<notin> set sid" and "CHR 0x22 \<notin> set sid"
  shows "current_user_sid (Inr (True, bytes_of (whoami_line user sid @ [CHR 0x0D, CHR 0x0A]))) = Some sid"
  using assms by (rule current_user_sid_line)

lemma whoami_sid_found_witness:
  "current_user_sid (Inr (True, bytes_of (whoami_line ''pc,1-ada'' ''S-1-5-21-7'' @ [CHR 0x0D, CHR 0x0A]))) =
     Some ''S-1-5-21-7''"
proof (rule whoami_sid_found)
  show "utf8_valid (map of_char (whoami_line ''pc,1-ada'' ''S-1-5-21-7'' @ [CHR 0x0D, CHR 0x0A]))"
    by (simp add: whoami_line_def)
qed (simp_all add: whoami_line_def)

text \<open>
  C18.  The pipe of the daemon on Windows is protected from its first moment: binding either fails
  and leaves every pipe as it was, or the name was free and now names a pipe with the access list
  \<open>D:P(A;;GA;;;SID)\<close>, a protected list whose only entry gives full access to the SID of the current
  user, as \<open>whoami\<close> told it; without a SID nothing is bound.  The security descriptor is released
  on every way out.  The calls of the Windows API behave as documented (\<open>win\<close>).
\<close>

theorem pipe_bind_secure:
  assumes "descriptors w (pe_descriptor env) = None"
  shows "case bind_first_instance env w of
     (w', r) \<Rightarrow>
       descriptors w' = descriptors w \<and>
       (case r of
          Inl _ \<Rightarrow> pipes w' = pipes w
        | Inr addr \<Rightarrow>
            (\<exists>sid. current_user_sid (pe_whoami env 0) = Some sid \<and>
               pipes w (c_str (to_wide_null addr)) = None \<and>
               pipes w' = (pipes w)(c_str (to_wide_null addr) \<mapsto>
                 \<lparr>pi_dacl = Some (c_str (to_wide_null (''D:P(A;;GA;;;'' @ sid @ '')''))), pi_instances = 1\<rparr>)))"
proof -
  have "(descriptors w)(pe_descriptor env := None) = descriptors w"
    using assms by auto
  then show ?thesis
    by (auto simp: bind_first_instance_def create_first_instance_def convert_descriptor_def create_pipe_def
        local_free_def sddl_of_def Let_def split: option.splits)
qed

definition home_pipe :: pipe_env where
  "home_pipe = \<lparr>pe_whoami = (\<lambda>_. Inr (True, bytes_of (whoami_line ''ada'' ''S-1-5'' @ [CHR 0x0D, CHR 0x0A]))),
     pe_var = (\<lambda>_. None), pe_hash_hex = id, pe_descriptor = 4, pe_convert = None, pe_create = None\<rparr>"

lemma home_sid: "current_user_sid (pe_whoami home_pipe n) = Some ''S-1-5''"
  unfolding home_pipe_def pipe_env.select_convs
  by (rule current_user_sid_line) (simp_all add: whoami_line_def)

lemma home_binds:
  "\<exists>w' addr. bind_first_instance home_pipe \<lparr>pipes = Map.empty, descriptors = Map.empty\<rparr> = (w', Inr addr)"
proof -
  have "pe_convert home_pipe = None" "pe_create home_pipe = None"
    by (simp_all add: home_pipe_def)
  then show ?thesis
    by (auto simp: bind_first_instance_def create_first_instance_def convert_descriptor_def create_pipe_def
        local_free_def home_sid Let_def)
qed

theorem pipe_bind_secure_witness:
  "\<exists>w' addr. bind_first_instance home_pipe \<lparr>pipes = Map.empty, descriptors = Map.empty\<rparr> = (w', Inr addr) \<and>
     descriptors w' = Map.empty \<and>
     map_option pi_dacl (pipes w' (c_str (to_wide_null addr))) =
       Some (Some (map of_char ''D:P(A;;GA;;;S-1-5)''))"
proof -
  have "c_str (to_wide_null (''D:P(A;;GA;;;'' @ ''S-1-5'' @ '')'')) = map of_char ''D:P(A;;GA;;;S-1-5)''"
    by (simp add: to_wide_null_def c_str_def utf16_unit_def)
  then show ?thesis
    using home_binds pipe_bind_secure [of "\<lparr>pipes = Map.empty, descriptors = Map.empty\<rparr>" home_pipe]
      home_sid [of 0] by auto
qed

end
