(* ===== verification/Lcp_Serve.thy ===== *)
theory Lcp_Serve
  imports Lcp_Pipe
begin

text \<open>
  The loops that accept local connections, \<open>serve\<close> of \<open>lcp-ipc/src/unix.rs\<close> and of
  \<open>lcp-ipc/src/windows.rs\<close>, behind one interface; the start of the daemon on Windows; and one attempt
  of the CLI to connect (\<open>try_connect\<close> of \<open>lcp-cli/src/daemon_conn.rs\<close>) on both platforms.
\<close>

section \<open>Accepting connections\<close>

text \<open>A loop runs over what the system reports; it is over when it takes no further step.\<close>

fun serve_run :: "('e \<Rightarrow> 's \<Rightarrow> 's option) \<Rightarrow> 'e list \<Rightarrow> 's \<Rightarrow> 's option" where
  "serve_run step [] s = Some s"
| "serve_run step (e # es) s =
     (case step e s of None \<Rightarrow> None | Some s' \<Rightarrow> serve_run step es s')"

fun handed :: "('e \<Rightarrow> 's \<Rightarrow> 's option) \<Rightarrow> ('e \<Rightarrow> 's \<Rightarrow> nat list) \<Rightarrow> 'e list \<Rightarrow> 's \<Rightarrow> nat list" where
  "handed step out [] s = []"
| "handed step out (e # es) s =
     (case step e s of None \<Rightarrow> [] | Some s' \<Rightarrow> out e s @ handed step out es s')"

text \<open>What every such loop promises: a step spawns a handler for what it hands over, and nothing else.\<close>

locale acceptor =
  fixes step :: "'e \<Rightarrow> 's \<Rightarrow> 's option"
    and spawned :: "'s \<Rightarrow> nat list"
    and out :: "'e \<Rightarrow> 's \<Rightarrow> nat list"
  assumes step_spawns: "step e s = Some s' \<Longrightarrow> spawned s' = spawned s @ out e s"
begin

lemma run_spawns: "serve_run step es s = Some s' \<Longrightarrow> spawned s' = spawned s @ handed step out es s"
  by (induction es arbitrary: s) (auto split: option.splits dest: step_spawns)

lemma never_dropped: "serve_run step es s = Some s' \<Longrightarrow> prefix (spawned s) (spawned s')"
  using run_spawns by fastforce

end

subsection \<open>The Unix socket\<close>

datatype accept_event = Accepted nat | Accept_failed string

definition unix_serve_step :: "accept_event \<Rightarrow> nat list \<Rightarrow> nat list option" where
  "unix_serve_step e spawned =
     (case e of
        Accepted stream \<Rightarrow> Some (spawned @ [stream])
      | Accept_failed m \<Rightarrow> Some spawned)"

definition accepted :: "accept_event list \<Rightarrow> nat list" where
  "accepted es = concat (map (\<lambda>e. case e of Accepted c \<Rightarrow> [c] | Accept_failed m \<Rightarrow> []) es)"

interpretation unix_loop: acceptor unix_serve_step id "\<lambda>e s. case e of Accepted c \<Rightarrow> [c] | Accept_failed m \<Rightarrow> []"
  by unfold_locales (auto simp: unix_serve_step_def split: accept_event.splits)

subsection \<open>The named pipe\<close>

text \<open>
  The instance that listens, whether a client has connected to it, the instances that were given
  to handlers, and whether the loop was left.
\<close>

record pipe_server =
  ps_current :: nat
  ps_connected :: bool
  ps_spawned :: "nat list"
  ps_left :: bool

datatype pipe_event =
    Client_connected
  | Connect_failed string
  | Next_created nat
  | Create_failed string

definition pipe_server_new :: "nat \<Rightarrow> pipe_server" where
  "pipe_server_new first =
     \<lparr>ps_current = first, ps_connected = False, ps_spawned = [], ps_left = False\<rparr>"

definition pipe_serve_step :: "pipe_event \<Rightarrow> pipe_server \<Rightarrow> pipe_server option" where
  "pipe_serve_step e s =
     (if ps_left s then None
      else if ps_connected s then
        (case e of
           Next_created n \<Rightarrow>
             Some (s\<lparr>ps_current := n, ps_connected := False, ps_spawned := ps_spawned s @ [ps_current s]\<rparr>)
         | Create_failed m \<Rightarrow> Some (s\<lparr>ps_left := True\<rparr>)
         | _ \<Rightarrow> None)
      else
        (case e of
           Client_connected \<Rightarrow> Some (s\<lparr>ps_connected := True\<rparr>)
         | Connect_failed m \<Rightarrow> Some (s\<lparr>ps_left := True\<rparr>)
         | _ \<Rightarrow> None))"

interpretation pipe_loop: acceptor pipe_serve_step ps_spawned
    "\<lambda>e s. case e of Next_created n \<Rightarrow> [ps_current s] | _ \<Rightarrow> []"
  by unfold_locales (auto simp: pipe_serve_step_def split: pipe_event.splits if_splits)

text \<open>The instances of a run, in the order of their creation, and its clients.\<close>

definition created :: "pipe_event list \<Rightarrow> nat list" where
  "created es = concat (map (\<lambda>e. case e of Next_created n \<Rightarrow> [n] | _ \<Rightarrow> []) es)"

definition clients :: "pipe_event list \<Rightarrow> nat" where
  "clients es = length (filter (\<lambda>e. e = Client_connected) es)"

definition failure :: "pipe_event \<Rightarrow> bool" where
  "failure e \<longleftrightarrow> (case e of Connect_failed m \<Rightarrow> True | Create_failed m \<Rightarrow> True | _ \<Rightarrow> False)"

definition pipe_progress :: "pipe_event list \<Rightarrow> pipe_server \<Rightarrow> pipe_server \<Rightarrow> bool" where
  "pipe_progress es s s' \<longleftrightarrow>
     ps_spawned s' @ [ps_current s'] = ps_spawned s @ [ps_current s] @ created es \<and>
     (ps_left s' \<longleftrightarrow> ps_left s \<or> list_ex failure es) \<and>
     length (ps_spawned s') + of_bool (ps_connected s') =
       length (ps_spawned s) + of_bool (ps_connected s) + clients es"

lemma pipe_progress_step: "pipe_serve_step e s = Some s' \<Longrightarrow> pipe_progress [e] s s'"
  by (auto simp: pipe_progress_def created_def clients_def failure_def pipe_serve_step_def
      split: pipe_event.splits if_splits)

lemma pipe_progress_trans: "pipe_progress es s s' \<Longrightarrow> pipe_progress es' s' s'' \<Longrightarrow> pipe_progress (es @ es') s s''"
  by (auto simp: pipe_progress_def created_def clients_def)

lemma pipe_progress_run: "serve_run pipe_serve_step es s = Some s' \<Longrightarrow> pipe_progress es s s'"
proof (induction es arbitrary: s)
  case Nil
  then show ?case by (simp add: pipe_progress_def created_def clients_def)
next
  case (Cons e es)
  then obtain s1 where "pipe_serve_step e s = Some s1" and "pipe_progress es s1 s'"
    by (auto split: option.splits)
  with pipe_progress_trans [OF pipe_progress_step] show ?case by fastforce
qed

text \<open>
  C29.  The two loops that accept local connections.  The one of the Unix socket takes every event,
  goes on after a failed \<open>accept\<close>, and gives each accepted connection to a handler, in order.  The one
  of the named pipe gives every instance to which a client connected to a handler, in order and
  once, and keeps exactly the newest one listening; but the first failure of the system ends it
  while the daemon runs on, and when that failure is the creation of the next instance, the client
  that had just connected is dropped.
\<close>

theorem serve_loops:
  assumes "serve_run pipe_serve_step pes (pipe_server_new first) = Some s"
  shows "serve_run unix_serve_step aes [] = Some (accepted aes) \<and>
    ps_spawned s @ [ps_current s] = first # created pes \<and>
    clients pes = length (ps_spawned s) + of_bool (ps_connected s) \<and>
    (ps_left s \<longleftrightarrow> list_ex failure pes) \<and> (ps_left s \<longrightarrow> pipe_serve_step e s = None)"
proof -
  have "serve_run unix_serve_step aes cs = Some (cs @ accepted aes)" for cs
    by (induction aes arbitrary: cs) (auto simp: unix_serve_step_def accepted_def split: accept_event.splits)
  from this [of "[]"] have "serve_run unix_serve_step aes [] = Some (accepted aes)" by simp
  moreover from pipe_progress_run [OF assms]
  have "ps_spawned s @ [ps_current s] = first # created pes \<and>
     clients pes = length (ps_spawned s) + of_bool (ps_connected s) \<and>
     (ps_left s \<longleftrightarrow> list_ex failure pes) \<and> (ps_left s \<longrightarrow> pipe_serve_step e s = None)"
    by (simp add: pipe_progress_def pipe_server_new_def pipe_serve_step_def)
  ultimately show ?thesis by blast
qed

lemma serve_loops_witness:
  "serve_run unix_serve_step [Accepted 3, Accept_failed ''busy'', Accepted 4] [] = Some [3, 4] \<and>
   (\<exists>s. serve_run pipe_serve_step
        [Client_connected, Next_created 2, Client_connected, Create_failed ''busy''] (pipe_server_new 1) = Some s \<and>
      ps_left s \<and> ps_spawned s = [1] \<and> pipe_serve_step Client_connected s = None)"
proof -
  let ?es = "[Client_connected, Next_created 2, Client_connected, Create_failed ''busy'']"
  obtain s where s: "serve_run pipe_serve_step ?es (pipe_server_new 1) = Some s"
    by (simp add: pipe_serve_step_def pipe_server_new_def)
  from serve_loops [OF this, of "[Accepted 3, Accept_failed ''busy'', Accepted 4]" Client_connected] s
  show ?thesis by (auto simp: accepted_def created_def failure_def)
qed

section \<open>The daemon on Windows\<close>

definition daemon_main_windows ::
  "start_env \<Rightarrow> pipe_env \<Rightarrow> host \<Rightarrow> win \<Rightarrow> host \<times> win \<times> start_outcome" where
  "daemon_main_windows env penv h w =
     (case daemon_prepare env h of
        (h1, Inl e) \<Rightarrow> (h1, w, Start_failed e)
      | (h1, Inr st) \<Rightarrow>
          (case bind_first_instance penv w of
             (w1, Inl Pipe_denied) \<Rightarrow> (h1, w1, Already_running)
           | (w1, Inl (Pipe_io e)) \<Rightarrow> (h1, w1, Start_failed (Start_pipe e))
           | (w1, Inr addr) \<Rightarrow> (h1, w1, Started st addr)))"

section \<open>One attempt to connect\<close>

definition IPC_CONNECT_TIMEOUT :: nat where
  "IPC_CONNECT_TIMEOUT = 500"

text \<open>\<open>try_connect\<close>; \<open>millis\<close> is how long the system takes to connect.\<close>

definition within_timeout :: "nat \<Rightarrow> string + unit \<Rightarrow> string + unit" where
  "within_timeout millis r = (if millis > IPC_CONNECT_TIMEOUT then Inl ''IPC connect timed out'' else r)"

definition try_connect_unix ::
  "(string \<Rightarrow> string option) \<Rightarrow> string option \<Rightarrow> nat \<Rightarrow> string option \<Rightarrow> machine \<Rightarrow> string + unit" where
  "try_connect_unix env config_dir millis fault m =
     (case default_socket_path env config_dir of
        Inl e \<Rightarrow> Inl e
      | Inr path \<Rightarrow>
          within_timeout millis
            (if socket_connect path fault m then Inr ()
             else Inl (case fault of Some e \<Rightarrow> e | None \<Rightarrow> ''connection refused'')))"

definition try_connect_windows ::
  "whoami \<Rightarrow> (string \<Rightarrow> string option) \<Rightarrow> (string \<Rightarrow> string) \<Rightarrow> nat \<Rightarrow> string option \<Rightarrow> string option \<Rightarrow> win
     \<Rightarrow> string + unit" where
  "try_connect_windows out env hash_hex millis wait_fault open_fault w =
     within_timeout millis
       (case pipe_connect wait_fault open_fault (current_user_identifier out env hash_hex) w of
          Inl e \<Rightarrow> Inl e
        | Inr _ \<Rightarrow> Inr ())"

section \<open>Meeting the daemon\<close>

lemma pipe_bound:
  "bind_first_instance env w = (w', Inr addr) \<Longrightarrow>
     addr = pipe_name (current_user_identifier (pe_whoami env 1) (pe_var env) (pe_hash_hex env)) \<and>
     pipes w' (c_str (to_wide_null addr)) \<noteq> None"
  by (auto simp: bind_first_instance_def create_first_instance_def convert_descriptor_def create_pipe_def
      local_free_def Let_def split: option.splits)

lemma windows_mainE:
  assumes "daemon_main_windows env penv h w = (h', w', Started st addr)"
  shows "bind_first_instance penv w = (w', Inr addr)" and "daemon_prepare env h = (h', Inr st)"
  using assms by (auto simp: daemon_main_windows_def split: prod.splits sum.splits pipe_error.splits)

text \<open>
  C26.  The CLI finds the daemon of its own profile: right after a daemon has started, on macOS or on
  Windows, an attempt to connect with the same environment reaches it, unless the system takes
  more than half a second or refuses the connection.
\<close>

theorem cli_meets_daemon:
  assumes "millis \<le> IPC_CONNECT_TIMEOUT"
  shows "(daemon_main env me h = (h1, Started st path) \<longrightarrow>
      try_connect_unix (os_var (se_os env)) (os_config_dir (se_os env)) millis None (ho_machine h1) = Inr ()) \<and>
    (daemon_main_windows env penv h w = (h2, w2, Started st' addr) \<longrightarrow>
      try_connect_windows (pe_whoami penv 1) (pe_var penv) (pe_hash_hex penv) millis None None w2 = Inr ())"
proof (intro conjI impI)
  assume "daemon_main env me h = (h1, Started st path)"
  then show "try_connect_unix (os_var (se_os env)) (os_config_dir (se_os env)) millis None (ho_machine h1) = Inr ()"
  proof (rule daemon_mainE)
    fix d cs m
    assume "default_socket_path (os_var (se_os env)) (os_config_dir (se_os env)) = Inr path"
      and "socket_bind me path (se_bind_faults env) (ho_machine h) = (m, Inr ())"
      and "h1 = h\<lparr>ho_disk := d, ho_secrets := cs, ho_machine := m\<lparr>running := insert me (running m)\<rparr>\<rparr>"
    with assms socket_bind_Inr show ?thesis
      by (auto simp: try_connect_unix_def within_timeout_def socket_connect_def listening_def)
  qed
next
  assume "daemon_main_windows env penv h w = (h2, w2, Started st' addr)"
  from pipe_bound [OF windows_mainE(1) [OF this]] assms
  show "try_connect_windows (pe_whoami penv 1) (pe_var penv) (pe_hash_hex penv) millis None None w2 = Inr ()"
    by (auto simp: try_connect_windows_def within_timeout_def pipe_connect_def Let_def)
qed

lemma demo_starts_windows:
  "\<exists>h2 w2 st addr. daemon_main_windows demo_start home_pipe demo_host
     \<lparr>pipes = Map.empty, descriptors = Map.empty\<rparr> = (h2, w2, Started st addr)"
proof -
  obtain h1 st path where "daemon_main demo_start 1 demo_host = (h1, Started st path)"
    using demo_starts by blast
  then obtain h2 where "daemon_prepare demo_start demo_host = (h2, Inr st)"
    by (auto simp: daemon_main_def split: prod.splits sum.splits sock_error.splits)
  with home_binds show ?thesis by (auto simp: daemon_main_windows_def)
qed

lemma cli_meets_daemon_witness:
  "(\<exists>h1 st path. daemon_main demo_start 1 demo_host = (h1, Started st path) \<and>
      try_connect_unix (os_var sample_os) (os_config_dir sample_os) 20 None (ho_machine h1) = Inr ()) \<and>
   (\<exists>h2 w2 st addr. daemon_main_windows demo_start home_pipe demo_host
        \<lparr>pipes = Map.empty, descriptors = Map.empty\<rparr> = (h2, w2, Started st addr) \<and>
      try_connect_windows (pe_whoami home_pipe 1) (pe_var home_pipe) (pe_hash_hex home_pipe) 20 None None w2 = Inr ())"
proof -
  have "se_os demo_start = sample_os" by (simp add: demo_start_def)
  moreover have "20 \<le> IPC_CONNECT_TIMEOUT" by (simp add: IPC_CONNECT_TIMEOUT_def)
  ultimately show ?thesis
    using cli_meets_daemon [of 20 demo_start 1 demo_host _ _ _ home_pipe "\<lparr>pipes = Map.empty, descriptors = Map.empty\<rparr>"]
      demo_starts demo_starts_windows by metis
qed

text \<open>
  One daemon per user and profile on Windows: as long as the pipe of a daemon exists, another start
  under the same name ends as already running and leaves every pipe and descriptor alone.
\<close>

theorem windows_single_instance:
  assumes "daemon_main_windows env penv h w = (h1, w1, Started st addr)"
    and "daemon_prepare env' h1 = (h2, Inr st')"
    and "current_user_sid (pe_whoami penv' 0) \<noteq> None"
    and "pipe_name (current_user_identifier (pe_whoami penv' 1) (pe_var penv') (pe_hash_hex penv')) = addr"
    and "pe_convert penv' = None" and "pe_create penv' = None" and "descriptors w1 (pe_descriptor penv') = None"
  shows "daemon_main_windows env' penv' h1 w1 = (h2, w1, Already_running)"
proof -
  have "(descriptors w1)(pe_descriptor penv' := None) = descriptors w1"
    using assms(7) by auto
  with pipe_bound [OF windows_mainE(1) [OF assms(1)]] assms(2-6) show ?thesis
    by (auto simp: daemon_main_windows_def bind_first_instance_def create_first_instance_def
        convert_descriptor_def create_pipe_def local_free_def Let_def)
qed

text \<open>
  A daemon whose second run of \<open>whoami\<close> fails listens under another name than the one its clients
  look for: the protection is that of the SID, but the name is made of \<open>USERNAME\<close>.
\<close>

theorem pipe_name_split_counterexample:
  "\<exists>w' addr. bind_first_instance (home_pipe\<lparr>pe_whoami := (\<lambda>n. if n = 0 then pe_whoami home_pipe 0 else Inl ''failed'')\<rparr>)
       \<lparr>pipes = Map.empty, descriptors = Map.empty\<rparr> = (w', Inr addr) \<and>
     addr = pipe_name ''unknown-user'' \<and>
     addr \<noteq> pipe_name (current_user_identifier (pe_whoami home_pipe 0) (pe_var home_pipe) (pe_hash_hex home_pipe))"
proof -
  have "pe_var home_pipe = (\<lambda>_. None)" by (simp add: home_pipe_def)
  then show ?thesis
    using home_sid [of 0]
    by (simp add: bind_first_instance_def create_first_instance_def convert_descriptor_def create_pipe_def
        local_free_def home_pipe_def pipe_name_def current_user_identifier_def Let_def current_user_sid_def)
qed

end
