(* ===== verification/Lcp_Install.thy ===== *)
theory Lcp_Install
  imports Lcp_Config Lcp_Commands
begin

text \<open>
  What the CLI does to the user's session: registering the daemon for autostart on macOS
  (\<open>lcp-cli/src/autostart/macos.rs\<close>) and Windows (\<open>autostart/windows.rs\<close>), starting the daemon
  (\<open>spawn_daemon\<close> of \<open>daemon_conn.rs\<close>) and the clipboard (\<open>clipboard.rs\<close>).  An installer is a tree of
  the calls it makes; a run of it is the list of these calls with their answers.
\<close>

section \<open>Calls\<close>

datatype file_op =
    Make_dirs string
  | Write_new string string
  | Remove_file string

text \<open>A file operation answers with its error, a program with its exit code (none: killed by a signal).\<close>

datatype installer =
    Installed "string + unit"
  | File_op file_op "string option \<Rightarrow> installer"
  | Ask_exists string "bool \<Rightarrow> installer"
  | Run_tool string "string list" "(string + int option) \<Rightarrow> installer"

datatype install_event =
    Filed file_op "string option"
  | Found string bool
  | Ran string "string list" "string + int option"

primrec install_step :: "installer \<Rightarrow> install_event \<Rightarrow> installer option" where
  "install_step (Installed r) e = None"
| "install_step (File_op f k) e =
     (case e of Filed f' r \<Rightarrow> if f' = f then Some (k r) else None | _ \<Rightarrow> None)"
| "install_step (Ask_exists p k) e =
     (case e of Found p' b \<Rightarrow> if p' = p then Some (k b) else None | _ \<Rightarrow> None)"
| "install_step (Run_tool t args k) e =
     (case e of Ran t' args' r \<Rightarrow> if t' = t \<and> args' = args then Some (k r) else None | _ \<Rightarrow> None)"

fun install_run :: "installer \<Rightarrow> install_event list \<Rightarrow> installer option" where
  "install_run t [] = Some t"
| "install_run t (e # es) = (case install_step t e of None \<Rightarrow> None | Some t' \<Rightarrow> install_run t' es)"

text \<open>\<open>?\<close> on a file operation.\<close>

definition try_file :: "file_op \<Rightarrow> installer \<Rightarrow> installer" where
  "try_file f k = File_op f (\<lambda>r. case r of Some e \<Rightarrow> Installed (Inl e) | None \<Rightarrow> k)"

section \<open>Paths\<close>

text \<open>
  The directory of a path, with its last separator; the separators depend on the platform.  The path
  of a running program ends in its file name, which \<open>with_file_name\<close> replaces.
\<close>

definition dir_part :: "char list \<Rightarrow> string \<Rightarrow> string" where
  "dir_part seps p = rev (dropWhile (\<lambda>c. c \<notin> set seps) (rev p))"

definition with_file_name :: "char list \<Rightarrow> string \<Rightarrow> string \<Rightarrow> string" where
  "with_file_name seps p f = dir_part seps p @ f"

section \<open>macOS\<close>

definition LABEL :: string where
  "LABEL = ''com.lcp.lanclipd''"

record mac_env =
  ma_home :: "string option"
  ma_exe :: "string + string"
  ma_status :: "int option \<Rightarrow> string"

definition home_dir :: "mac_env \<Rightarrow> string + string" where
  "home_dir env = (case ma_home env of Some h \<Rightarrow> Inr h | None \<Rightarrow> Inl ''HOME is not set'')"

definition agents_dir :: "string \<Rightarrow> string" where
  "agents_dir home = path_join home ''Library/LaunchAgents''"

definition plist_path :: "string \<Rightarrow> string" where
  "plist_path home = path_join (agents_dir home) (LABEL @ ''.plist'')"

definition mac_daemon_path :: "mac_env \<Rightarrow> string + string" where
  "mac_daemon_path env =
     (case ma_exe env of Inl e \<Rightarrow> Inl e | Inr exe \<Rightarrow> Inr (with_file_name ''/'' exe ''lanclipd''))"

definition logs_path :: "string \<Rightarrow> string" where
  "logs_path home = path_join home ''Library/Logs/lcp''"

definition string_line :: "string \<Rightarrow> string" where
  "string_line s = ''<string>'' @ s @ ''</string>''"

definition plist_lines :: "string \<Rightarrow> string \<Rightarrow> string list" where
  \<open>plist_lines daemon logs =
     [''<?xml version="1.0" encoding="UTF-8"?>'',
      ''<!DOCTYPE plist PUBLIC "-//Apple//DTD PLIST 1.0//EN" "http://www.apple.com/DTDs/PropertyList-1.0.dtd">'',
      ''<plist version="1.0">'',
      ''<dict>'',
      ''    <key>Label</key>'',
      ''    '' @ string_line LABEL,
      ''    <key>ProgramArguments</key>'',
      ''    <array>'',
      ''        '' @ string_line daemon,
      ''    </array>'',
      ''    <key>RunAtLoad</key>'',
      ''    <true/>'',
      ''    <key>KeepAlive</key>'',
      ''    <true/>'',
      ''    <key>StandardOutPath</key>'',
      ''    '' @ string_line (logs @ ''/lanclipd.stdout.log''),
      ''    <key>StandardErrorPath</key>'',
      ''    '' @ string_line (logs @ ''/lanclipd.stderr.log''),
      ''</dict>'',
      ''</plist>'']\<close>

definition plist_text :: "string \<Rightarrow> string \<Rightarrow> string" where
  "plist_text daemon logs = concat (map (\<lambda>l. l @ nl) (plist_lines daemon logs))"

definition mac_install :: "mac_env \<Rightarrow> installer" where
  "mac_install env =
     (case home_dir env of
        Inl e \<Rightarrow> Installed (Inl e)
      | Inr home \<Rightarrow>
          try_file (Make_dirs (logs_path home))
          (try_file (Make_dirs (agents_dir home))
             (case mac_daemon_path env of
                Inl e \<Rightarrow> Installed (Inl e)
              | Inr daemon \<Rightarrow>
                  try_file (Write_new (plist_path home) (plist_text daemon (logs_path home)))
                  (Run_tool ''launchctl'' [''load'', ''-w'', plist_path home] (\<lambda>r.
                     case r of
                       Inl e \<Rightarrow> Installed (Inl e)
                     | Inr code \<Rightarrow>
                         if code = Some 0 then Installed (Inr ())
                         else Installed (Inl (''`launchctl load` failed with '' @ ma_status env code)))))))"

definition mac_uninstall :: "mac_env \<Rightarrow> installer" where
  "mac_uninstall env =
     (case home_dir env of
        Inl e \<Rightarrow> Installed (Inl e)
      | Inr home \<Rightarrow>
          Ask_exists (plist_path home) (\<lambda>found.
            if found then
              Run_tool ''launchctl'' [''unload'', ''-w'', plist_path home] (\<lambda>_.
                try_file (Remove_file (plist_path home)) (Installed (Inr ())))
            else Installed (Inr ())))"

section \<open>Windows\<close>

definition RUN_KEY :: string where
  "RUN_KEY = ''HKCU'' @ [CHR 0x5C] @ ''Software'' @ [CHR 0x5C] @ ''Microsoft'' @ [CHR 0x5C] @ ''Windows''
     @ [CHR 0x5C] @ ''CurrentVersion'' @ [CHR 0x5C] @ ''Run''"

definition VALUE_NAME :: string where
  "VALUE_NAME = ''LCP''"

definition windows_daemon_path :: "string + string \<Rightarrow> string + string" where
  "windows_daemon_path current_exe =
     (case current_exe of
        Inl e \<Rightarrow> Inl e
      | Inr exe \<Rightarrow> Inr (with_file_name [CHR 0x5C, CHR ''/''] exe ''lanclipd.exe''))"

definition quoted :: "string \<Rightarrow> string" where
  "quoted p = [CHR 0x22] @ p @ [CHR 0x22]"

definition windows_install :: "string + string \<Rightarrow> (int option \<Rightarrow> string) \<Rightarrow> installer" where
  "windows_install current_exe status_text =
     (case windows_daemon_path current_exe of
        Inl e \<Rightarrow> Installed (Inl e)
      | Inr daemon \<Rightarrow>
          Run_tool ''reg''
            [''add'', RUN_KEY, ''/v'', VALUE_NAME, ''/t'', ''REG_SZ'', ''/d'', quoted daemon, ''/f''] (\<lambda>r.
            case r of
              Inl e \<Rightarrow> Installed (Inl e)
            | Inr code \<Rightarrow>
                if code = Some 0 then Installed (Inr ())
                else Installed (Inl (''`reg add` failed with '' @ status_text code))))"

definition windows_uninstall :: "(int option \<Rightarrow> string) \<Rightarrow> installer" where
  "windows_uninstall status_text =
     Run_tool ''reg'' [''delete'', RUN_KEY, ''/v'', VALUE_NAME, ''/f''] (\<lambda>r.
       case r of
         Inl e \<Rightarrow> Installed (Inl e)
       | Inr code \<Rightarrow>
           if code \<noteq> Some 0 \<and> code \<noteq> Some 1
           then Installed (Inl (''`reg delete` failed with '' @ status_text code))
           else Installed (Inr ()))"

section \<open>Starting the daemon\<close>

text \<open>\<open>spawn_daemon\<close>, given the path of the running program and the answer of the system.\<close>

definition spawned_path :: "bool \<Rightarrow> string \<Rightarrow> string" where
  "spawned_path windows exe =
     (if windows then with_file_name [CHR 0x5C, CHR ''/''] exe ''lanclipd.exe''
      else with_file_name ''/'' exe ''lanclipd'')"

definition spawn_daemon :: "bool \<Rightarrow> string + string \<Rightarrow> (string \<Rightarrow> string option) \<Rightarrow> string + unit" where
  "spawn_daemon windows current_exe spawn =
     (case current_exe of
        Inl e \<Rightarrow> Inl e
      | Inr exe \<Rightarrow>
          (case spawn (spawned_path windows exe) of
             Some e \<Rightarrow> Inl (''failed to start '' @ spawned_path windows exe @ '': '' @ e)
           | None \<Rightarrow> Inr ()))"

section \<open>The clipboard\<close>

text \<open>The system's clipboard: whether it can be opened, and the text it holds, if any.\<close>

record clipboard =
  cb_open_error :: "string option"
  cb_content :: "string + string"

definition read_text :: "clipboard \<Rightarrow> string + string" where
  "read_text cb = (case cb_open_error cb of Some e \<Rightarrow> Inl e | None \<Rightarrow> cb_content cb)"

definition write_text :: "string option \<Rightarrow> string \<Rightarrow> clipboard \<Rightarrow> clipboard \<times> (string + unit)" where
  "write_text fault t cb =
     (case cb_open_error cb of
        Some e \<Rightarrow> (cb, Inl e)
      | None \<Rightarrow>
          (case fault of
             Some e \<Rightarrow> (cb, Inl e)
           | None \<Rightarrow> (cb\<lparr>cb_content := Inr t\<rparr>, Inr ())))"

section \<open>Runs of an installer\<close>

lemma install_run_done [simp]:
  "install_run (Installed r) es = Some t \<longleftrightarrow> es = [] \<and> t = Installed r"
  by (cases es) auto

text \<open>What a run that ends well has done.\<close>

abbreviation succeeds :: "installer \<Rightarrow> install_event list \<Rightarrow> bool" where
  "succeeds t es \<equiv> install_run t es = Some (Installed (Inr ()))"

lemma succeeds_file [simp]:
  "succeeds (try_file f k) es \<longleftrightarrow> (\<exists>es'. es = Filed f None # es' \<and> succeeds k es')"
  by (cases es) (auto simp: try_file_def split: install_event.split option.split)

lemma succeeds_tool [simp]:
  "succeeds (Run_tool t args k) es \<longleftrightarrow>
     (\<exists>e es'. es = Ran t args (Inl e) # es' \<and> succeeds (k (Inl e)) es') \<or>
     (\<exists>c es'. es = Ran t args (Inr c) # es' \<and> succeeds (k (Inr c)) es')"
proof -
  have "succeeds (Run_tool t args k) es \<longleftrightarrow> (\<exists>r es'. es = Ran t args r # es' \<and> succeeds (k r) es')"
    by (cases es) (auto split: install_event.split)
  then show ?thesis by (simp only: split_sum_ex)
qed

lemma succeeds_exists [simp]:
  "succeeds (Ask_exists p k) es \<longleftrightarrow> (\<exists>b es'. es = Found p b # es' \<and> succeeds (k b) es')"
  by (cases es) (auto split: install_event.split)

text \<open>The files after the operations that succeeded, and runs that agree with the files.\<close>

fun file_effect :: "install_event \<Rightarrow> (string \<Rightarrow> string option) \<Rightarrow> string \<Rightarrow> string option" where
  "file_effect (Filed (Write_new p c) None) fs = fs(p \<mapsto> c)"
| "file_effect (Filed (Remove_file p) None) fs = fs(p := None)"
| "file_effect _ fs = fs"

definition files_after :: "install_event list \<Rightarrow> (string \<Rightarrow> string option) \<Rightarrow> string \<Rightarrow> string option" where
  "files_after es fs = fold file_effect es fs"

fun agrees :: "install_event list \<Rightarrow> (string \<Rightarrow> string option) \<Rightarrow> bool" where
  "agrees [] fs \<longleftrightarrow> True"
| "agrees (e # es) fs \<longleftrightarrow> (\<forall>p b. e = Found p b \<longrightarrow> b = (fs p \<noteq> None)) \<and> agrees es (file_effect e fs)"

lemma mac_install_succeeds:
  "succeeds (mac_install env) es \<longleftrightarrow>
     (\<exists>home exe. ma_home env = Some home \<and> ma_exe env = Inr exe \<and>
        es = [Filed (Make_dirs (logs_path home)) None, Filed (Make_dirs (agents_dir home)) None,
              Filed (Write_new (plist_path home)
                (plist_text (with_file_name ''/'' exe ''lanclipd'') (logs_path home))) None,
              Ran ''launchctl'' [''load'', ''-w'', plist_path home] (Inr (Some 0))])"
  by (auto simp: mac_install_def home_dir_def mac_daemon_path_def split: option.split sum.split if_splits)

lemma mac_uninstall_succeeds:
  "succeeds (mac_uninstall env) es \<longleftrightarrow>
     (\<exists>home. ma_home env = Some home \<and>
        (es = [Found (plist_path home) False] \<or>
         (\<exists>r. es = [Found (plist_path home) True,
                    Ran ''launchctl'' [''unload'', ''-w'', plist_path home] r,
                    Filed (Remove_file (plist_path home)) None])))"
  by (auto simp: mac_uninstall_def home_dir_def split_sum_ex split: option.split if_splits)

section \<open>Properties\<close>

text \<open>
  Autostart on macOS.  When installing ends well, the directories were made, the property list
  was written whole, and only then \<open>launchctl\<close> loaded that very file; when uninstalling ends well
  after that, the file is gone and every other file is what it was, whatever \<open>launchctl\<close> said.
\<close>

theorem autostart_round_trip:
  assumes "succeeds (mac_install env) es" and "succeeds (mac_uninstall env) es'"
    and "agrees es' (files_after es fs)"
  shows "\<exists>home exe. ma_home env = Some home \<and> ma_exe env = Inr exe \<and>
    es = [Filed (Make_dirs (logs_path home)) None, Filed (Make_dirs (agents_dir home)) None,
          Filed (Write_new (plist_path home)
            (plist_text (with_file_name ''/'' exe ''lanclipd'') (logs_path home))) None,
          Ran ''launchctl'' [''load'', ''-w'', plist_path home] (Inr (Some 0))] \<and>
    files_after es' (files_after es fs) = fs(plist_path home := None)"
  using assms by (auto simp: mac_install_succeeds mac_uninstall_succeeds files_after_def)

text \<open>
  Autostart on Windows: a successful installation set one value to the quoted path of the daemon;
  uninstalling succeeds exactly when the value was deleted or, by the exit code 1, was not there.
\<close>

theorem windows_autostart:
  "(succeeds (windows_install (Inr exe) st) es \<longleftrightarrow>
      es = [Ran ''reg'' [''add'', RUN_KEY, ''/v'', VALUE_NAME, ''/t'', ''REG_SZ'', ''/d'',
        quoted (with_file_name [CHR 0x5C, CHR ''/''] exe ''lanclipd.exe''), ''/f''] (Inr (Some 0))]) \<and>
   (succeeds (windows_uninstall st) es \<longleftrightarrow>
      (\<exists>c \<in> {0, 1}. es = [Ran ''reg'' [''delete'', RUN_KEY, ''/v'', VALUE_NAME, ''/f''] (Inr (Some c))]))"
  by (auto simp: windows_install_def windows_daemon_path_def windows_uninstall_def split: if_splits)

definition ada_mac :: mac_env where
  "ada_mac = \<lparr>ma_home = Some ''/Users/ada'', ma_exe = Inr ''/opt/lcp/lcp'', ma_status = (\<lambda>_. ''exit status: 1'')\<rparr>"

definition ada_installed :: "install_event list" where
  "ada_installed =
     [Filed (Make_dirs (logs_path ''/Users/ada'')) None, Filed (Make_dirs (agents_dir ''/Users/ada'')) None,
      Filed (Write_new (plist_path ''/Users/ada'') (plist_text ''/opt/lcp/lanclipd'' (logs_path ''/Users/ada''))) None,
      Ran ''launchctl'' [''load'', ''-w'', plist_path ''/Users/ada''] (Inr (Some 0))]"

definition ada_removed :: "install_event list" where
  "ada_removed =
     [Found (plist_path ''/Users/ada'') True,
      Ran ''launchctl'' [''unload'', ''-w'', plist_path ''/Users/ada''] (Inr (Some 3)),
      Filed (Remove_file (plist_path ''/Users/ada'')) None]"

lemma autostart_round_trip_witness:
  "files_after ada_installed Map.empty (plist_path ''/Users/ada'') =
     Some (plist_text ''/opt/lcp/lanclipd'' (logs_path ''/Users/ada'')) \<and>
   files_after ada_removed (files_after ada_installed Map.empty) = Map.empty"
proof -
  have "succeeds (mac_install ada_mac) ada_installed"
    unfolding mac_install_succeeds
    by (simp add: ada_mac_def ada_installed_def with_file_name_def dir_part_def)
  moreover have "succeeds (mac_uninstall ada_mac) ada_removed"
    unfolding mac_uninstall_succeeds by (simp add: ada_mac_def ada_removed_def)
  moreover have "agrees ada_removed (files_after ada_installed Map.empty)"
    by (simp add: ada_removed_def ada_installed_def files_after_def)
  ultimately have "\<exists>home exe. ma_home ada_mac = Some home \<and>
      files_after ada_removed (files_after ada_installed Map.empty) = Map.empty(plist_path home := None)"
    using autostart_round_trip [of ada_mac ada_installed ada_removed Map.empty] by blast
  moreover have "files_after ada_installed Map.empty (plist_path ''/Users/ada'') =
     Some (plist_text ''/opt/lcp/lanclipd'' (logs_path ''/Users/ada''))"
    by (simp add: ada_installed_def files_after_def)
  ultimately show ?thesis by auto
qed

text \<open>The clipboard returns what was put on it.\<close>

theorem clipboard_round_trip: "write_text fault t cb = (cb', Inr ()) \<Longrightarrow> read_text cb' = Inr t"
  by (auto simp: write_text_def read_text_def split: option.splits)

end
