(* ===== verification/Lcp_Settings.thy ===== *)
theory Lcp_Settings
  imports Lcp_Exit
begin

text \<open>
  What \<open>lcp config list\<close> and \<open>lcp config get\<close> print of the daemon's configuration
  (\<open>commands/config.rs\<close> with the request \<open>get_config\<close> of \<open>lanclipd/src/main.rs\<close>).
\<close>

section \<open>The keys of the configuration\<close>

lemma split_readable:
  "split_on (CHR ''.'') ''schema_version'' = [''schema_version'']"
  "split_on (CHR ''.'') ''message.max_bytes'' = [''message'', ''max_bytes'']"
  by code_simp+

lemma get_readable:
  "get_by_key c ''schema_version'' = Some (JInt (uint (schema_version c)))"
  "get_by_key c ''message.max_bytes'' = Some (JInt (uint (max_bytes (message_cfg c))))"
  by (simp_all add: get_by_key_def config_json_def split_readable del: split_on.simps)

text \<open>The six settings, by key.\<close>

definition settings :: "cli_env \<Rightarrow> config \<Rightarrow> (string \<times> string) list" where
  "settings x c =
     [(''daemon.autostart'', scalar_to_string x (JBool (autostart (daemon_cfg c)))),
      (''history.limit_per_peer'', scalar_to_string x (JInt (uint (limit_per_peer (history_cfg c))))),
      (''message.max_bytes'', scalar_to_string x (JInt (uint (max_bytes (message_cfg c))))),
      (''network.relay_mode'', relay_mode (network_cfg c)),
      (''user.device_name'', user_device_name (user_cfg c)), (''user.name'', user_name (user_cfg c))]"

lemma flatten_config:
  "flatten x [] (config_json c) =
     [(''schema_version'', scalar_to_string x (JInt (uint (schema_version c)))),
      (''user.name'', user_name (user_cfg c)), (''user.device_name'', user_device_name (user_cfg c)),
      (''history.limit_per_peer'', scalar_to_string x (JInt (uint (limit_per_peer (history_cfg c))))),
      (''message.max_bytes'', scalar_to_string x (JInt (uint (max_bytes (message_cfg c))))),
      (''daemon.autostart'', scalar_to_string x (JBool (autostart (daemon_cfg c)))),
      (''network.relay_mode'', relay_mode (network_cfg c))]"
  by (simp add: config_json_def scalar_to_string_def)

lemma settings_sorted: "sorted (map fst (settings x c))" "distinct (map fst (settings x c))"
  by (simp_all add: settings_def)

lemma settings_get:
  assumes "(k, t) \<in> set (settings x c)"
  shows "\<exists>v. get_by_key c k = Some v \<and> scalar_to_string x v = t"
  using assms by (auto simp: settings_def get_writable get_readable scalar_to_string_def)

lemma settings_keys: "fst ` set (settings x c) = insert ''message.max_bytes'' (set WRITABLE_KEYS)"
  by (auto simp: settings_def WRITABLE_KEYS_def)

text \<open>The sorted pairs: the version stands among the settings.\<close>

lemma sort_flatten:
  "sort (flatten x [] (config_json c)) =
     take 4 (settings x c) @ (''schema_version'', scalar_to_string x (JInt (uint (schema_version c)))) #
     drop 4 (settings x c)"
  unfolding flatten_config settings_def by simp

lemma sort_config:
  "filter (\<lambda>(k, t). k \<noteq> ''schema_version'') (sort (flatten x [] (config_json c))) = settings x c"
  unfolding sort_flatten settings_def by simp

section \<open>What the commands print\<close>

text \<open>What a run has printed, in order.\<close>

definition outs :: "act list \<Rightarrow> string list" where
  "outs h = List.map_filter (\<lambda>a. case a of Did_out s \<Rightarrow> Some s | _ \<Rightarrow> None) (rev h)"

lemma outs_simps [simp]:
  "outs (h @ k) = outs k @ outs h" "outs (Called m p r # h) = outs h" "outs (Did_out s # h) = outs h @ [s]"
  "outs (map Did_out ls) = rev ls" "outs [] = []"
proof -
  show "outs (map Did_out ls) = rev ls" by (induction ls) (simp_all add: outs_def map_filter_def)
qed (simp_all add: outs_def map_filter_def)

lemma outs_connecting: "list_all connecting h \<Longrightarrow> outs h = []"
  by (induction h) (auto simp: outs_def map_filter_def connecting_def)

definition list_lines :: "cli_env \<Rightarrow> json \<Rightarrow> string list" where
  "list_lines x v = map (\<lambda>(k, t). k @ '' = '' @ t @ nl)
     (filter (\<lambda>(k, t). k \<noteq> ''schema_version'') (sort (flatten x [] v)))"

definition listed :: "cli_env \<Rightarrow> act list \<Rightarrow> int \<Rightarrow> bool" where
  "listed x h n \<longleftrightarrow> (n = SUCCESS \<longrightarrow>
     (\<exists>h' rs v. list_all connecting h' \<and> unwrap_response rs = Inr v \<and>
        h = map Did_out (rev (list_lines x v)) @ Called GET_CONFIG (JObj []) (Some rs) # h'))"

definition gotten :: "cli_env \<Rightarrow> string \<Rightarrow> act list \<Rightarrow> int \<Rightarrow> bool" where
  "gotten x k h n \<longleftrightarrow> (n = SUCCESS \<longrightarrow>
     (\<exists>h' rs v. list_all connecting h' \<and> unwrap_response rs = Inr v \<and>
        h = Did_out (scalar_to_string x v @ nl) # Called GET_CONFIG (JObj [(''key'', JStr k)]) (Some rs) # h'))"

lemma failures [simp]: "GENERAL_ERROR \<noteq> SUCCESS" "INVALID_ARGS \<noteq> SUCCESS" "1 \<noteq> SUCCESS"
  by (simp_all add: exit_codes)

lemma listing_run:
  "csafe any_act Q
     (foldr (\<lambda>(k, t) c. if k = ''schema_version'' then c else println (k @ '' = '' @ t) c) kvs (Exit n)) I h =
   Q (map Did_out (rev (map (\<lambda>(k, t). k @ '' = '' @ t @ nl) (filter (\<lambda>(k, t). k \<noteq> ''schema_version'') kvs))) @ h) n"
proof (induction kvs arbitrary: h)
  case (Cons kv kvs)
  obtain k t where "kv = (k, t)" by fastforce
  with Cons show ?case by (cases "k = ''schema_version''") (simp_all del: list.inject char.inject)
qed simp

lemma list_run: "csafe any_act (listed x) (config_list x False) I []"
proof -
  have "csafe any_act (listed x)
      (case unwrap_response rs of
         Inr v \<Rightarrow> if False then Print_json v (Exit SUCCESS)
           else foldr (\<lambda>(k, t) c. if k = ''schema_version'' then c else println (k @ '' = '' @ t) c)
                  (sort (flatten x [] v)) (Exit SUCCESS)
       | Inl e \<Rightarrow> report e GENERAL_ERROR) I (Called GET_CONFIG (JObj []) (Some rs) # h')"
    if "list_all connecting h'" for rs h'
  proof (cases "unwrap_response rs")
    case (Inl e)
    then show ?thesis by (simp add: report_def listed_def)
  next
    case (Inr v)
    from that Inr show ?thesis
      by (simp only: sum.case if_False listing_run list_lines_def [symmetric] listed_def) blast
  qed
  then show ?thesis
    unfolding config_list_def
    by (intro csafe_with_daemon) (simp_all add: Let_def listed_def)
qed

lemma get_run: "csafe any_act (gotten x k) (config_get x k False) I []"
  unfolding config_get_def
  by (rule csafe_with_daemon) (auto simp: gotten_def Let_def report_def split: sum.split)

section \<open>Properties\<close>

text \<open>
  C39.  \<open>config list\<close> and \<open>config get\<close> agree.  When the daemon answers their requests from the same
  configuration, and they succeed (without \<open>--json\<close>), \<open>config list\<close> prints one line
  \<open>key = text\<close> for each of the keys that \<open>config set\<close> accepts and for \<open>message.max_bytes\<close>, in the
  order of the keys, and \<open>config get\<close> of each key listed prints exactly this text.  (\<open>config get\<close>
  also answers keys that are not listed, such as \<open>trusted_peers\<close>.)
\<close>

theorem config_list_matches_get:
  assumes "exits (cli_main x False Config_list) h SUCCESS"
    and "exits (cli_main x False (Config_get key)) g SUCCESS"
    and "\<And>q rs. Called GET_CONFIG q (Some rs) \<in> set (h @ g) \<Longrightarrow>
      \<exists>req env w. rq_params req = q \<and> st_config (app w) = c \<and>
        unwrap_response rs = unwrap_response (get_config_response y req env w)"
  shows "\<exists>kvs. outs h = map (\<lambda>(k, t). k @ '' = '' @ t @ nl) kvs \<and>
    sorted (map fst kvs) \<and> distinct (map fst kvs) \<and>
    fst ` set kvs = insert ''message.max_bytes'' (set WRITABLE_KEYS) \<and>
    (\<forall>t. (key, t) \<in> set kvs \<longrightarrow> outs g = [t @ nl])"
proof -
  obtain h' rs v where h: "list_all connecting h'" "unwrap_response rs = Inr v"
      "h = map Did_out (rev (list_lines x v)) @ Called GET_CONFIG (JObj []) (Some rs) # h'"
    using exits_safe [OF assms(1) [unfolded cli_main.simps] list_run] by (auto simp: listed_def)
  obtain g' rs' v' where g: "list_all connecting g'" "unwrap_response rs' = Inr v'"
      "g = Did_out (scalar_to_string x v' @ nl) # Called GET_CONFIG (JObj [(''key'', JStr key)]) (Some rs') # g'"
    using exits_safe [OF assms(2) [unfolded cli_main.simps] get_run] by (auto simp: gotten_def)
  have "v = config_json c"
    using assms(3) [of "JObj []" rs] h(2,3) by (auto simp: get_config_response_def get_str_def unwrap_response_def ok_response_def)
  then have "outs h = map (\<lambda>(k, t). k @ '' = '' @ t @ nl) (settings x c)"
    using h(1,3) by (simp add: outs_connecting list_lines_def sort_config)
  moreover have "outs g = [t @ nl]" if kt: "(key, t) \<in> set (settings x c)" for t
  proof -
    obtain u where u: "get_by_key c key = Some u" "scalar_to_string x u = t"
      using settings_get [OF kt] by blast
    have "v' = u"
      using assms(3) [of "JObj [(''key'', JStr key)]" rs'] g(2,3) u(1)
      by (auto simp: get_config_response_def get_str_def unwrap_response_def ok_response_def)
    then show ?thesis using g(1,3) u(2) by (simp add: outs_connecting)
  qed
  ultimately show ?thesis
    using settings_sorted settings_keys by (intro exI [of _ "settings x c"]) blast
qed

definition shown_config :: config where
  "shown_config = config_default [''LCP_PROFILE_DIR'' \<mapsto> ''p'']"

text \<open>The two commands, run one after the other.\<close>

definition shown_script :: "string list \<Rightarrow> json \<Rightarrow> json \<Rightarrow> act list" where
  "shown_script ls q v = [Connected (Inr ()), Called GET_CONFIG q (Some (ok_answer v))] @ map Did_out ls"

lemma list_script_exits:
  "exits (cli_main plain_env False Config_list)
     (rev (shown_script (map (\<lambda>(k, t). k @ '' = '' @ t @ nl) (settings plain_env shown_config)) (JObj [])
        (config_json shown_config))) SUCCESS"
  by (rule script_exits [where n = 30])
    (simp add: shown_script_def config_list_def cli_defs script_numeral sort_flatten settings_def
      del: char.inject list.inject)

lemma get_script_exits:
  "exits (cli_main plain_env False (Config_get ''network.relay_mode''))
     (rev (shown_script [''default'' @ nl] (JObj [(''key'', JStr ''network.relay_mode'')]) (JStr ''default''))) SUCCESS"
  by (rule script_exits [where n = 30])
    (simp add: shown_script_def config_get_def cli_defs script_numeral scalar_to_string_def)

lemma shown_answers:
  assumes "Called GET_CONFIG q (Some rs) \<in> set (rev (shown_script ls (JObj []) (config_json shown_config)) @
    rev (shown_script ms (JObj [(''key'', JStr ''network.relay_mode'')]) (JStr ''default'')))"
  shows "\<exists>req env w. rq_params req = q \<and> st_config (app w) = shown_config \<and>
    unwrap_response rs = unwrap_response (get_config_response undefined req env w)"
proof -
  define req :: ipc_request where
    "req = \<lparr>rq_ipc_version = IPC_PROTOCOL_VERSION, rq_id = 3, rq_method = GET_CONFIG, rq_params = q\<rparr>"
  define w where "w = map_config (\<lambda>_. shown_config) sample_world"
  have req: "rq_params req = q" and w: "st_config (app w) = shown_config"
    by (simp_all add: req_def w_def map_config_def map_app_def)
  have "get_by_key shown_config ''network.relay_mode'' = Some (JStr ''default'')"
    by (simp add: get_writable shown_config_def config_default_def)
  then have "unwrap_response rs = unwrap_response (get_config_response undefined req env w)" for env
    using assms by (auto simp: shown_script_def get_config_response_def req w get_str_def unwrap_response_def
        ok_response_def ok_answer_def)
  with req w show ?thesis by blast
qed

theorem config_list_matches_get_witness:
  "\<exists>kvs. outs (rev (shown_script (map (\<lambda>(k, t). k @ '' = '' @ t @ nl) (settings plain_env shown_config)) (JObj [])
      (config_json shown_config))) = map (\<lambda>(k, t). k @ '' = '' @ t @ nl) kvs \<and>
    sorted (map fst kvs) \<and> ''network.relay_mode'' \<in> fst ` set kvs"
proof -
  have key: "''network.relay_mode'' \<in> set WRITABLE_KEYS" by simp
  show ?thesis
    by (rule exE [OF config_list_matches_get [OF list_script_exits get_script_exits]], erule shown_answers)
      (use key in blast)
qed

end
