(* ===== verification/Lcp_Tests.thy ===== *)
theory Lcp_Tests
  imports Lcp_Config Lcp_Conversation Lcp_Pairing Lcp_Picker
begin

text \<open>
  The unit tests of \<open>lcp-core\<close> and of the picker, translated test by test and checked against
  the model: what the authors expect of these functions on their own examples, the model
  computes.  A test is a \<open>bool\<close>, the conjunction of its assertions; \<open>unwrap\<close> is a pattern that
  has to match.  The ids that \<open>Uuid::new_v4\<close> draws are \<open>u 0\<close>, \<open>u 1\<close>, and so on, of an injective
  \<open>u\<close>; the order in which a hash map is traversed, the clock, the environment and the BLAKE3 hash
  are parameters, and the tests pass for all of them.
\<close>

definition ok_and :: "('e + 'a) \<Rightarrow> ('a \<Rightarrow> bool) \<Rightarrow> bool" where
  "ok_and r P = (case r of Inl _ \<Rightarrow> False | Inr a \<Rightarrow> P a)"

definition err_and :: "('e + 'a) \<Rightarrow> ('e \<Rightarrow> bool) \<Rightarrow> bool" where
  "err_and r P = (case r of Inl e \<Rightarrow> P e | Inr _ \<Rightarrow> False)"

definition some_and :: "'a option \<Rightarrow> ('a \<Rightarrow> bool) \<Rightarrow> bool" where
  "some_and x P = (case x of None \<Rightarrow> False | Some a \<Rightarrow> P a)"

lemma result_simps [simp]:
  "ok_and (Inr a) P \<longleftrightarrow> P a" "\<not> ok_and (Inl e) P" "err_and (Inl e) Q \<longleftrightarrow> Q e" "\<not> err_and (Inr a) Q"
  "some_and (Some a) P \<longleftrightarrow> P a" "\<not> some_and None P"
  by (simp_all add: ok_and_def err_and_def some_and_def)

section \<open>Trusted peers\<close>

text \<open>\<open>peers::tests::peer\<close>\<close>

definition test_peer :: "string \<Rightarrow> string \<Rightarrow> trusted_peer" where
  "test_peer a eid =
     \<lparr>endpoint_id = eid, peer_alias = a, remote_display_name = a, device_name = ''Device'',
      paired_at = ''2026-08-27T00:00:00Z''\<rparr>"

definition validate_alias_trims_whitespace :: bool where
  "validate_alias_trims_whitespace \<longleftrightarrow> ok_and (validate_alias ''  First  '') (\<lambda>a. a = ''First'')"

definition validate_alias_rejects_empty :: bool where
  "validate_alias_rejects_empty \<longleftrightarrow> err_and (validate_alias ''   '') (\<lambda>e. e = InvalidLength)"

definition validate_alias_rejects_too_long :: bool where
  "validate_alias_rejects_too_long \<longleftrightarrow>
     (let long = replicate 33 (CHR ''a'') in err_and (validate_alias long) (\<lambda>e. e = InvalidLength))"

definition validate_alias_accepts_max_length :: bool where
  "validate_alias_accepts_max_length \<longleftrightarrow>
     (let mx = replicate 32 (CHR ''a'') in ok_and (validate_alias mx) (\<lambda>_. True))"

definition validate_alias_rejects_control_chars :: bool where
  "validate_alias_rejects_control_chars \<longleftrightarrow>
     err_and (validate_alias (''bad'' @ [CHR 0x07] @ ''name'')) (\<lambda>e. e = ContainsControlChars)"

definition find_alias_is_case_insensitive :: bool where
  "find_alias_is_case_insensitive \<longleftrightarrow>
     (let peers = [test_peer ''First'' ''aaaa1111'']
      in find_alias_case_insensitive peers ''first'' \<noteq> None \<and>
         find_alias_case_insensitive peers ''FIRST'' \<noteq> None \<and>
         find_alias_case_insensitive peers ''second'' = None)"

definition resolve_identifier_prefers_alias_match :: bool where
  "resolve_identifier_prefers_alias_match \<longleftrightarrow>
     (let peers = [test_peer ''First'' ''aaaa1111'']
      in case resolve_identifier peers ''First'' of Found p \<Rightarrow> endpoint_id p = ''aaaa1111'' | _ \<Rightarrow> False)"

definition resolve_identifier_falls_back_to_unambiguous_prefix :: bool where
  "resolve_identifier_falls_back_to_unambiguous_prefix \<longleftrightarrow>
     (let peers = [test_peer ''First'' ''aaaa1111'', test_peer ''Second'' ''bbbb2222'']
      in case resolve_identifier peers ''aaaa'' of Found p \<Rightarrow> peer_alias p = ''First'' | _ \<Rightarrow> False)"

definition resolve_identifier_reports_ambiguous_prefix :: bool where
  "resolve_identifier_reports_ambiguous_prefix \<longleftrightarrow>
     (let peers = [test_peer ''First'' ''aaaa1111'', test_peer ''Second'' ''aaaa2222'']
      in case resolve_identifier peers ''aaaa'' of Ambiguous ms \<Rightarrow> length ms = 2 | _ \<Rightarrow> False)"

definition resolve_identifier_reports_not_found :: bool where
  "resolve_identifier_reports_not_found \<longleftrightarrow>
     (let peers = [test_peer ''First'' ''aaaa1111'']
      in case resolve_identifier peers ''zzzz'' of NotFound \<Rightarrow> True | _ \<Rightarrow> False)"

definition unique_alias_uses_display_name_when_free :: "(nat \<Rightarrow> string) \<Rightarrow> bool" where
  "unique_alias_uses_display_name_when_free fresh \<longleftrightarrow> unique_alias [] ''First'' (fresh 0) = ''First''"

definition unique_alias_disambiguates_on_collision :: "(nat \<Rightarrow> string) \<Rightarrow> bool" where
  "unique_alias_disambiguates_on_collision fresh \<longleftrightarrow>
     (let peers = [test_peer ''First'' ''aaaa1111''] in unique_alias peers ''First'' (fresh 0) = ''First-2'')"

definition add_and_remove_trusted_peer_round_trip :: "(nat \<Rightarrow> string) \<Rightarrow> bool" where
  "add_and_remove_trusted_peer_round_trip fresh \<longleftrightarrow>
     (let (peers, a) = add_trusted_peer [] ''endpoint-a'' ''First'' ''First-PC'' ''2026-08-27T00:00:00Z'' (fresh 0);
          (peers1, removed) = remove_trusted_peer peers ''endpoint-a'';
          (peers2, removed_again) = remove_trusted_peer peers1 ''endpoint-a''
      in a = ''First'' \<and> length peers = 1 \<and> removed \<and> peers1 = [] \<and> \<not> removed_again)"

definition rename_trusted_peer_alias_updates_alias :: bool where
  "rename_trusted_peer_alias_updates_alias \<longleftrightarrow>
     (let (peers, r) = rename_trusted_peer_alias [test_peer ''First'' ''aaaa1111''] ''aaaa1111'' ''Laptop''
      in ok_and r (\<lambda>a. a = ''Laptop'') \<and> peer_alias (peers ! 0) = ''Laptop'')"

definition rename_trusted_peer_alias_rejects_duplicate :: bool where
  "rename_trusted_peer_alias_rejects_duplicate \<longleftrightarrow>
     (let peers = [test_peer ''First'' ''aaaa1111'', test_peer ''Second'' ''bbbb2222'']
      in err_and (snd (rename_trusted_peer_alias peers ''aaaa1111'' ''second'')) (\<lambda>e. e = Duplicate ''second''))"

lemma alias_tests:
  "validate_alias_trims_whitespace \<and> validate_alias_rejects_empty \<and> validate_alias_rejects_too_long \<and>
   validate_alias_accepts_max_length \<and> validate_alias_rejects_control_chars \<and>
   find_alias_is_case_insensitive"
  by code_simp

lemma resolve_tests:
  "resolve_identifier_prefers_alias_match \<and> resolve_identifier_falls_back_to_unambiguous_prefix \<and>
   resolve_identifier_reports_ambiguous_prefix \<and> resolve_identifier_reports_not_found \<and>
   rename_trusted_peer_alias_updates_alias \<and> rename_trusted_peer_alias_rejects_duplicate"
  by code_simp

lemma alias_numbers_Cons: "alias_numbers = 2 # [3..<1000]"
  unfolding alias_numbers_def by (subst upt_conv_Cons) simp_all

lemma alias_base_First: "alias_base ''First'' = ''First''"
  by code_simp

lemma show_two: "show_nat 2 = ''2''"
  by code_simp

lemma fresh_alias_tests:
  "unique_alias_uses_display_name_when_free fresh" "unique_alias_disambiguates_on_collision fresh"
  "add_and_remove_trusted_peer_round_trip fresh"
  by (simp_all add: unique_alias_uses_display_name_when_free_def unique_alias_disambiguates_on_collision_def
      add_and_remove_trusted_peer_round_trip_def add_trusted_peer_def remove_trusted_peer_def unique_alias_def
      find_alias_case_insensitive_def test_peer_def Let_def alias_base_First alias_numbers_Cons
      numbered_alias_def eq_ignore_ascii_case_def show_two)

section \<open>Configuration\<close>

definition default_config_has_current_schema_version :: "(string \<Rightarrow> string option) \<Rightarrow> bool" where
  "default_config_has_current_schema_version env \<longleftrightarrow>
     schema_version (config_default env) = CONFIG_SCHEMA_VERSION"

definition get_by_key_reads_nested_field :: "(string \<Rightarrow> string option) \<Rightarrow> bool" where
  "get_by_key_reads_nested_field env \<longleftrightarrow>
     (let config = config_default env
      in some_and (get_by_key config ''user.name'') (\<lambda>v. v = JStr (user_name (user_cfg config))))"

definition get_by_key_returns_none_for_unknown_path :: "(string \<Rightarrow> string option) \<Rightarrow> bool" where
  "get_by_key_returns_none_for_unknown_path env \<longleftrightarrow>
     (let config = config_default env in get_by_key config ''does.not.exist'' = None)"

definition set_by_key_updates_writable_fields :: "(string \<Rightarrow> string option) \<Rightarrow> bool" where
  "set_by_key_updates_writable_fields env \<longleftrightarrow>
     (let (c1, r1) = set_by_key (config_default env) ''user.name'' ''Ideal'';
          (c2, r2) = set_by_key c1 ''daemon.autostart'' ''false'';
          (c3, r3) = set_by_key c2 ''history.limit_per_peer'' ''200''
      in r1 = Inr () \<and> user_name (user_cfg c1) = ''Ideal'' \<and>
         r2 = Inr () \<and> \<not> autostart (daemon_cfg c2) \<and>
         r3 = Inr () \<and> limit_per_peer (history_cfg c3) = 200)"

definition set_by_key_rejects_unknown_key :: "(string \<Rightarrow> string option) \<Rightarrow> bool" where
  "set_by_key_rejects_unknown_key env \<longleftrightarrow>
     err_and (snd (set_by_key (config_default env) ''message.max_bytes'' ''1''))
       (\<lambda>e. case e of UnknownKey _ \<Rightarrow> True | _ \<Rightarrow> False)"

definition set_by_key_rejects_out_of_range_history_limit :: "(string \<Rightarrow> string option) \<Rightarrow> bool" where
  "set_by_key_rejects_out_of_range_history_limit env \<longleftrightarrow>
     (let (c1, r1) = set_by_key (config_default env) ''history.limit_per_peer'' ''1'';
          (c2, r2) = set_by_key c1 ''history.limit_per_peer'' ''10000''
      in err_and r1 (\<lambda>_. True) \<and> err_and r2 (\<lambda>_. True))"

definition set_by_key_rejects_non_bool_autostart :: "(string \<Rightarrow> string option) \<Rightarrow> bool" where
  "set_by_key_rejects_non_bool_autostart env \<longleftrightarrow>
     err_and (snd (set_by_key (config_default env) ''daemon.autostart'' ''yes'')) (\<lambda>_. True)"

definition round_trips_through_json ::
  "(string \<Rightarrow> string option) \<Rightarrow> (config \<Rightarrow> string + bytes) \<Rightarrow> (bytes \<Rightarrow> string + config) \<Rightarrow> bool" where
  "round_trips_through_json env ser de \<longleftrightarrow>
     (let config = config_default env
      in ok_and (ser config) (\<lambda>txt. ok_and (de txt) (\<lambda>decoded.
           schema_version decoded = schema_version config \<and>
           user_name (user_cfg decoded) = user_name (user_cfg config))))"

lemma config_values:
  "split_on (CHR ''.'') ''user.name'' = [''user'', ''name'']"
  "split_on (CHR ''.'') ''does.not.exist'' = [''does'', ''not'', ''exist'']"
  "parse_u32 ''200'' = Some 200" "parse_u32 ''1'' = Some 1" "parse_u32 ''10000'' = Some 10000"
  "parse_bool ''false'' = Some False" "parse_bool ''yes'' = None"
  by (simp_all add: parse_u32_def digit_value_def parse_bool_def)

lemma config_tests:
  "default_config_has_current_schema_version env" "get_by_key_reads_nested_field env"
  "get_by_key_returns_none_for_unknown_path env" "set_by_key_updates_writable_fields env"
  "set_by_key_rejects_unknown_key env" "set_by_key_rejects_out_of_range_history_limit env"
  "set_by_key_rejects_non_bool_autostart env"
  by (simp_all add: default_config_has_current_schema_version_def get_by_key_reads_nested_field_def
      get_by_key_returns_none_for_unknown_path_def set_by_key_updates_writable_fields_def
      set_by_key_rejects_unknown_key_def set_by_key_rejects_out_of_range_history_limit_def
      set_by_key_rejects_non_bool_autostart_def config_default_def get_by_key_def config_json_def
      set_by_key_def WRITABLE_KEYS_def MIN_HISTORY_LIMIT_def MAX_HISTORY_LIMIT_def config_values Let_def
      word_le_nat_alt)

lemma config_text_test:
  "ser (config_default env) = Inr txt \<Longrightarrow> de txt = Inr (config_default env) \<Longrightarrow>
   round_trips_through_json env ser de"
  by (simp add: round_trips_through_json_def)

section \<open>Conversations\<close>

definition latest_incoming_per_peer_tracks_most_recent :: "(nat \<Rightarrow> uuid) \<Rightarrow> bool" where
  "latest_incoming_per_peer_tracks_most_recent u \<longleftrightarrow>
     (let s0 = store_new 100;
          (s1, _) = record_incoming s0 ''peer-a'' ''First'' (u 0) 1 1 ''hello'';
          second = u 1;
          (s2, _) = record_incoming s1 ''peer-a'' ''First'' second 2 2 ''world''
      in some_and (latest_incoming_for s2 ''peer-a'') (\<lambda>m. sm_id m = second))"

definition latest_incoming_global_reflects_highest_receive_sequence :: "(nat \<Rightarrow> uuid) \<Rightarrow> bool" where
  "latest_incoming_global_reflects_highest_receive_sequence u \<longleftrightarrow>
     (let s0 = store_new 100;
          (s1, _) = record_incoming s0 ''peer-a'' ''First'' (u 0) 1 1 ''A'';
          latest = u 1;
          (s2, _) = record_incoming s1 ''peer-b'' ''Beam'' latest 2 2 ''B''
      in some_and (latest_incoming_global s2) (\<lambda>m. sm_id m = latest) \<and>
         some_and (latest_incoming_global s2) (\<lambda>m. sm_text m = ''B''))"

definition outgoing_messages_are_excluded_from_latest_incoming :: "(nat \<Rightarrow> uuid) \<Rightarrow> int \<Rightarrow> bool" where
  "outgoing_messages_are_excluded_from_latest_incoming u now \<longleftrightarrow>
     (let (s1, _) = record_outgoing (store_new 100) ''peer-a'' (u 0) ''outgoing only'' Sent now
      in latest_incoming_for s1 ''peer-a'' = None \<and> latest_incoming_global s1 = None)"

definition duplicate_message_id_from_same_peer_is_not_added_twice :: "(nat \<Rightarrow> uuid) \<Rightarrow> bool" where
  "duplicate_message_id_from_same_peer_is_not_added_twice u \<longleftrightarrow>
     (let i = u 0;
          (s1, r1) = record_incoming (store_new 100) ''peer-a'' ''First'' i 1 1 ''hi'';
          (s2, r2) = record_incoming s1 ''peer-a'' ''First'' i 1 1 ''hi''
      in r1 = Accepted \<and> r2 = DuplicateMessage \<and> length (messages_for s2 ''peer-a'') = 1)"

definition same_message_id_from_different_peers_is_not_a_duplicate :: "(nat \<Rightarrow> uuid) \<Rightarrow> bool" where
  "same_message_id_from_different_peers_is_not_a_duplicate u \<longleftrightarrow>
     (let i = u 0;
          (s1, _) = record_incoming (store_new 100) ''peer-a'' ''First'' i 1 1 ''hi'';
          (s2, r2) = record_incoming s1 ''peer-b'' ''Beam'' i 1 1 ''hi''
      in r2 = Accepted)"

definition history_trims_oldest_when_over_limit :: "(nat \<Rightarrow> uuid) \<Rightarrow> bool" where
  "history_trims_oldest_when_over_limit u \<longleftrightarrow>
     (let s0 = store_new 2;
          (s1, _) = record_incoming s0 ''peer-a'' ''First'' (u 0) 1 1 ''one'';
          (s2, _) = record_incoming s1 ''peer-a'' ''First'' (u 1) 2 2 ''two'';
          third = u 2;
          (s3, _) = record_incoming s2 ''peer-a'' ''First'' third 3 3 ''three''
      in map sm_text (messages_for s3 ''peer-a'') = [''two'', ''three''] \<and>
         some_and (latest_incoming_for s3 ''peer-a'') (\<lambda>m. sm_id m = third))"

definition receive_sequence_is_monotonically_increasing :: "(nat \<Rightarrow> uuid) \<Rightarrow> string list \<Rightarrow> bool" where
  "receive_sequence_is_monotonically_increasing u keys \<longleftrightarrow>
     (let s0 = store_new 100;
          (s1, _) = record_incoming s0 ''peer-a'' ''First'' (u 0) 1 1 ''a'';
          (s2, _) = record_incoming s1 ''peer-b'' ''Beam'' (u 1) 1 1 ''b'';
          sequences = List.map_filter sm_receive_sequence (all_messages_newest_first s2 keys)
      in 0 \<in> set sequences \<and> 1 \<in> set sequences)"

definition all_messages_newest_first_mixes_directions_and_peers ::
  "(nat \<Rightarrow> uuid) \<Rightarrow> string list \<Rightarrow> int \<Rightarrow> bool" where
  "all_messages_newest_first_mixes_directions_and_peers u keys now \<longleftrightarrow>
     (let s0 = store_new 100;
          (s1, _) = record_incoming s0 ''peer-a'' ''First'' (u 0) 1 10 ''incoming'';
          (s2, _) = record_outgoing s1 ''peer-a'' (u 1) ''outgoing'' Sent now;
          all = all_messages_newest_first s2 keys
      in length all = 2)"

definition update_outgoing_status_changes_status_in_place :: "(nat \<Rightarrow> uuid) \<Rightarrow> int \<Rightarrow> bool" where
  "update_outgoing_status_changes_status_in_place u now \<longleftrightarrow>
     (let i = u 0;
          (s1, _) = record_outgoing (store_new 100) ''peer-a'' i ''hi'' Sending now;
          s2 = update_outgoing_status s1 ''peer-a'' i Sent
      in some_and (find (\<lambda>m. sm_id m = i) (messages_for s2 ''peer-a'')) (\<lambda>m. sm_status m = Sent))"

lemmas store_ops =
  store_new_def record_incoming_def record_outgoing_def update_outgoing_status_def latest_incoming_for_def
  latest_incoming_global_def messages_for_def all_messages_newest_first_def dedup_contains_def
  dedup_insert_def dedup_new_def DEDUP_CACHE_CAPACITY_def entry_or_default_def conversation_default_def
  push_bounded_def Let_def

lemma latest_tests:
  assumes "inj u"
  shows "latest_incoming_per_peer_tracks_most_recent u"
    and "latest_incoming_global_reflects_highest_receive_sequence u"
    and "outgoing_messages_are_excluded_from_latest_incoming u now"
    and "history_trims_oldest_when_over_limit u"
  using assms
  by (simp_all add: latest_incoming_per_peer_tracks_most_recent_def
      latest_incoming_global_reflects_highest_receive_sequence_def
      outgoing_messages_are_excluded_from_latest_incoming_def history_trims_oldest_when_over_limit_def
      store_ops inj_eq)

lemma store_tests:
  assumes "inj u"
  shows "duplicate_message_id_from_same_peer_is_not_added_twice u"
    and "same_message_id_from_different_peers_is_not_a_duplicate u"
    and "update_outgoing_status_changes_status_in_place u now"
  using assms
  by (simp_all add: duplicate_message_id_from_same_peer_is_not_added_twice_def
      same_message_id_from_different_peers_is_not_a_duplicate_def
      update_outgoing_status_changes_status_in_place_def store_ops inj_eq)

text \<open>The tests that list all messages pass for each order of the peers' hash map.\<close>

lemma order_tests:
  assumes "inj u"
  shows "receive_sequence_is_monotonically_increasing u [''peer-a'', ''peer-b'']"
    and "receive_sequence_is_monotonically_increasing u [''peer-b'', ''peer-a'']"
    and "all_messages_newest_first_mixes_directions_and_peers u [''peer-a''] now"
  using assms
  by (simp_all add: receive_sequence_is_monotonically_increasing_def
      all_messages_newest_first_mixes_directions_and_peers_def store_ops inj_eq map_filter_simps)

section \<open>Pairing\<close>

definition verification_string_is_order_independent :: "(bytes \<Rightarrow> bytes) \<Rightarrow> bool" where
  "verification_string_is_order_independent hash \<longleftrightarrow>
     (let secret = replicate 32 1; nonce_a = replicate 32 2; nonce_b = replicate 32 3;
          from_inviter = derive_verification_string hash ''aaa'' ''bbb'' secret nonce_a nonce_b;
          from_joiner = derive_verification_string hash ''bbb'' ''aaa'' secret nonce_b nonce_a
      in from_inviter = from_joiner)"

definition verification_string_changes_with_different_secret :: "(bytes \<Rightarrow> bytes) \<Rightarrow> bool" where
  "verification_string_changes_with_different_secret hash \<longleftrightarrow>
     (let nonce_a = replicate 32 2; nonce_b = replicate 32 3;
          s1 = derive_verification_string hash ''aaa'' ''bbb'' (replicate 32 1) nonce_a nonce_b;
          s2 = derive_verification_string hash ''aaa'' ''bbb'' (replicate 32 9) nonce_a nonce_b
      in s1 \<noteq> s2)"

text \<open>\<open>char::is_ascii_digit\<close>\<close>

definition is_ascii_digit :: "string \<Rightarrow> bool" where
  "is_ascii_digit c \<longleftrightarrow> (case c of [b] \<Rightarrow> digit_value b \<noteq> None | _ \<Rightarrow> False)"

definition verification_string_has_expected_shape :: "(bytes \<Rightarrow> bytes) \<Rightarrow> bool" where
  "verification_string_has_expected_shape hash \<longleftrightarrow>
     (let s = derive_verification_string hash ''aaa'' ''bbb'' (replicate 32 1) (replicate 32 2) (replicate 32 3);
          parts = split_on (CHR ''-'') s
      in length parts = 4 \<and> length (parts ! 3) = 4 \<and> list_all is_ascii_digit (chars (parts ! 3)))"

definition secrets_match_is_correct :: bool where
  "secrets_match_is_correct \<longleftrightarrow>
     secrets_match (replicate 32 7) (replicate 32 7) \<and> \<not> secrets_match (replicate 32 7) (replicate 32 8)"

lemma split_on_append: "d \<notin> set xs \<Longrightarrow> split_on d (xs @ d # ys) = xs # split_on d ys"
  by (induction xs) auto

lemma split_on_plain: "d \<notin> set xs \<Longrightarrow> split_on d xs = [xs]"
  by (induction xs) auto

lemma no_hyphen: "CHR ''-'' \<notin> set (word_for b)"
proof -
  have "list_all (\<lambda>w. CHR ''-'' \<notin> set w) WORDLIST"
    by (simp add: WORDLIST_def)
  then show ?thesis
    using word_for_mem [of b] by (auto simp: list_all_iff)
qed

lemma digits_show_nat: "list_all (\<lambda>c. digit_value c \<noteq> None) (show_nat n)"
proof (induction n rule: show_nat.induct)
  case (1 n)
  then show ?case by (subst show_nat.simps) auto
qed

lemma zero_digit: "digit_value (CHR ''0'') = Some 0"
  by (simp add: digit_value_def)

lemma digits_show_nat4: "list_all (\<lambda>c. digit_value c \<noteq> None) (show_nat4 n)"
  using digits_show_nat [of n] zero_digit by (auto simp: show_nat4_def Let_def list_all_iff)

lemma digit_plain: "digit_value c \<noteq> None \<Longrightarrow> c \<noteq> CHR ''-'' \<and> \<not> is_cont c"
  by (auto simp: digit_value_def is_cont_def Let_def split: if_splits)

lemma verification_parts:
  "split_on (CHR ''-'') (derive_verification_string hash a b secret na nb) =
     (let h = hash (hash_input a b secret na nb)
      in [word_for (h ! 0), word_for (h ! 1), word_for (h ! 2),
          show_nat4 (unat (be16 (h ! 3) (h ! 4) mod 10000))])"
proof -
  have "CHR ''-'' \<notin> set (show_nat4 n)" for n
    using digits_show_nat4 [of n] digit_plain by (auto simp: list_all_iff)
  then show ?thesis
    by (simp add: derive_verification_string_def Let_def split_on_append split_on_plain no_hyphen)
qed

lemma pairing_tests:
  "verification_string_is_order_independent hash" "verification_string_has_expected_shape hash"
  secrets_match_is_correct
proof -
  show "verification_string_is_order_independent hash"
    by (simp add: verification_string_is_order_independent_def derive_verification_string_def Let_def
        hash_input_swap [of "''aaa''"])
  have "unat (be16 x y mod 10000) < 10000" for x y
    by (simp add: word_arith_nat_mod unat_of_nat)
  moreover have "chars (show_nat4 k) = map (\<lambda>c. [c]) (show_nat4 k)" for k
    using digits_show_nat4 [of k] digit_plain by (intro chars_ascii) (auto simp: list_all_iff)
  moreover have "list_all (\<lambda>c. is_ascii_digit [c]) (show_nat4 k)" for k
    using digits_show_nat4 [of k] by (simp add: is_ascii_digit_def)
  ultimately show "verification_string_has_expected_shape hash"
    by (simp add: verification_string_has_expected_shape_def verification_parts Let_def length_show_nat4
        list.pred_map comp_def)
  show secrets_match_is_correct
    by (simp add: secrets_match_is_correct_def secrets_match_def)
qed

text \<open>The remaining test needs a hash that tells the two inputs apart in one of the bytes it uses.\<close>

lemma distinct_WORDLIST: "distinct WORDLIST"
  by (simp add: WORDLIST_def)

lemma different_secret_test:
  fixes hash :: "bytes \<Rightarrow> bytes"
  defines "h \<equiv> \<lambda>k. hash (hash_input ''aaa'' ''bbb'' (replicate 32 k) (replicate 32 2) (replicate 32 3))"
  assumes "i < 3" and "unat (h 1 ! i) mod 64 \<noteq> unat (h 9 ! i) mod 64"
  shows "verification_string_changes_with_different_secret hash"
proof -
  have "word_for (h 1 ! i) \<noteq> word_for (h 9 ! i)"
    using assms(3) by (simp add: word_for_def nth_eq_iff_index_eq [OF distinct_WORDLIST] length_WORDLIST)
  moreover have "i = 0 \<or> i = 1 \<or> i = 2" using assms(2) by auto
  ultimately have "split_on (CHR ''-'') (derive_verification_string hash ''aaa'' ''bbb'' (replicate 32 1) (replicate 32 2) (replicate 32 3)) \<noteq>
      split_on (CHR ''-'') (derive_verification_string hash ''aaa'' ''bbb'' (replicate 32 9) (replicate 32 2) (replicate 32 3))"
    by (auto simp: verification_parts Let_def h_def)
  then show ?thesis
    by (auto simp: verification_string_changes_with_different_secret_def Let_def)
qed

section \<open>Picker\<close>

definition preview_collapses_internal_whitespace :: bool where
  "preview_collapses_internal_whitespace \<longleftrightarrow>
     make_preview (''hello'' @ [CHR 0x0A, CHR 0x09] @ ''world   there'') 80 = ''hello world there''"

definition preview_truncates_and_appends_ellipsis :: bool where
  "preview_truncates_and_appends_ellipsis \<longleftrightarrow>
     (let long = replicate 50 (CHR ''a''); preview = make_preview long 20
      in char_count preview = 20 \<and> suffix ''...'' preview)"

definition preview_leaves_short_text_untouched :: bool where
  "preview_leaves_short_text_untouched \<longleftrightarrow> make_preview ''short'' 80 = ''short''"

definition preview_width_has_a_20_char_floor :: bool where
  "preview_width_has_a_20_char_floor \<longleftrightarrow>
     (let long = replicate 50 (CHR ''a''); preview = make_preview long 5 in char_count preview = 20)"

lemma split_chars_word: "list_all (\<lambda>d. \<not> is_whitespace d) (d # ds) \<Longrightarrow> split_chars (d # ds) = [d # ds]"
proof -
  assume ws: "list_all (\<lambda>d. \<not> is_whitespace d) (d # ds)"
  then have "dropWhile (\<lambda>c. \<not> is_whitespace c) ds = []" "takeWhile (\<lambda>c. \<not> is_whitespace c) ds = ds"
    by (simp_all add: list_all_iff)
  with ws show ?thesis
    by (subst split_chars.simps) (simp add: split_chars_Nil del: dropWhile_eq_Nil_conv takeWhile_eq_all_conv)
qed

lemma preview_word:
  assumes "\<not> is_whitespace [c]" and "\<not> is_cont c"
  shows "make_preview (replicate (Suc n) c) w =
     (if n < max w 20 then replicate (Suc n) c else replicate (max w 20 - 3) c @ ''...'')"
proof -
  have cs: "chars (replicate k c) = replicate k [c]" for k
    using chars_ascii [of "replicate k c"] assms(2) by (simp add: list_all_iff)
  have cc: "concat (replicate k [c]) = replicate k c" for k
    by (induction k) simp_all
  have "split_whitespace (replicate (Suc n) c) = [replicate (Suc n) c]"
    using split_chars_word [of "[c]" "replicate n [c]"] assms(1)
    by (simp only: split_whitespace_def cs) (simp add: list_all_iff cc)
  then show ?thesis
    by (simp only: make_preview_def char_count_def take_chars_def cs join.simps Let_def length_replicate
        take_replicate cc) (auto simp: min_def simp del: replicate.simps)
qed

lemma letter_a: "\<not> is_whitespace ''a''" "\<not> is_cont (CHR ''a'')"
  by (simp_all add: is_whitespace_def whitespace_chars_def is_cont_def)

lemma preview_values:
  "preview_collapses_internal_whitespace" "preview_leaves_short_text_untouched"
  by (simp_all add: preview_collapses_internal_whitespace_def preview_leaves_short_text_untouched_def
      make_preview_def split_whitespace_def split_chars.simps is_whitespace_def whitespace_chars_def
      is_cont_def char_count_def)

lemma picker_tests:
  preview_collapses_internal_whitespace preview_truncates_and_appends_ellipsis
  preview_leaves_short_text_untouched preview_width_has_a_20_char_floor
proof -
  have p: "make_preview (replicate 50 (CHR ''a'')) w = replicate (max w 20 - 3) (CHR ''a'') @ ''...''"
    if "w \<le> 20" for w
    using preview_word [OF letter_a, of 49 w] that by simp
  have "chars (replicate 17 (CHR ''a'') @ ''...'') = map (\<lambda>c. [c]) (replicate 17 (CHR ''a'') @ ''...'')"
    using letter_a(2) by (intro chars_ascii) (simp add: list_all_iff)
  then have "char_count (replicate 17 (CHR ''a'') @ ''...'') = 20"
    by (simp add: char_count_def)
  with p show preview_truncates_and_appends_ellipsis preview_width_has_a_20_char_floor
    by (simp_all add: preview_truncates_and_appends_ellipsis_def preview_width_has_a_20_char_floor_def
        suffix_def)
qed (rule preview_values)+

end
