(* ===== verification/Lcp_Wire_Tests.thy ===== *)
theory Lcp_Wire_Tests
  imports Lcp_Tests Lcp_Ticket Lcp_Codec
begin

text \<open>
  The unit tests of \<open>lcp-protocol\<close>, translated test by test and checked against the model.
  Postcard, base64, the JSON text and the ids of \<open>Uuid::new_v4\<close> are parameters; the lemmas say
  what of them each test needs in order to pass.
\<close>

section \<open>Network envelopes\<close>

definition sample_text_envelope :: "(nat \<Rightarrow> uuid) \<Rightarrow> string \<Rightarrow> network_envelope" where
  "sample_text_envelope u t =
     envelope_new (u 0)
       (Text \<lparr>tp_message_id = u 1, tp_sender_endpoint_id = ''abcd1234'',
              tp_sent_at_unix_ms = 1700000000000, tp_text = t\<rparr>)"

definition hello_text :: string where
  "hello_text = ''hello'' @ [CHR 0x0A] @ ''world'' @ [CHR 0x09] @ ''!''"

definition three_lines :: string where
  "three_lines = ''line one'' @ [CHR 0x0A, CHR 0x09] @ ''line two with a tab'' @ [CHR 0x0D, CHR 0x0A] @ ''line three''"

definition round_trips_text_envelope ::
  "(nat \<Rightarrow> uuid) \<Rightarrow> (network_envelope \<Rightarrow> string + bytes) \<Rightarrow> (bytes \<Rightarrow> network_envelope option) \<Rightarrow> bool" where
  "round_trips_text_envelope u ser de \<longleftrightarrow>
     (let original = sample_text_envelope u hello_text
      in ok_and (encode_framed ser original) (\<lambda>framed.
           unat (from_be_bytes (take 4 framed)) = length framed - 4 \<and>
           ok_and (decode_body de (drop 4 framed)) (\<lambda>decoded. decoded = original)))"

definition preserves_multiline_and_tabs_exactly ::
  "(nat \<Rightarrow> uuid) \<Rightarrow> (network_envelope \<Rightarrow> string + bytes) \<Rightarrow> (bytes \<Rightarrow> network_envelope option) \<Rightarrow> bool" where
  "preserves_multiline_and_tabs_exactly u ser de \<longleftrightarrow>
     (let t = three_lines;
          original = sample_text_envelope u t
      in ok_and (encode_framed ser original) (\<lambda>framed.
           ok_and (decode_body de (drop 4 framed)) (\<lambda>decoded.
             case body decoded of Text payload \<Rightarrow> tp_text payload = t | _ \<Rightarrow> False)))"

definition test_ack_envelope :: "(nat \<Rightarrow> uuid) \<Rightarrow> network_envelope" where
  "test_ack_envelope u = envelope_new (u 0) (Ack \<lparr>ap_message_id = u 1, ap_accepted = True, ap_error_code = None\<rparr>)"

definition round_trips_ack ::
  "(nat \<Rightarrow> uuid) \<Rightarrow> (network_envelope \<Rightarrow> string + bytes) \<Rightarrow> (bytes \<Rightarrow> network_envelope option) \<Rightarrow> bool" where
  "round_trips_ack u ser de \<longleftrightarrow>
     (let original = test_ack_envelope u
      in ok_and (encode_framed ser original) (\<lambda>framed.
           ok_and (decode_body de (drop 4 framed)) (\<lambda>decoded. decoded = original)))"

definition next_version_envelope :: "(nat \<Rightarrow> uuid) \<Rightarrow> network_envelope" where
  "next_version_envelope u =
     (sample_text_envelope u ''hi'')\<lparr>protocol_version := NETWORK_PROTOCOL_VERSION + 1\<rparr>"

definition rejects_unknown_protocol_version ::
  "(nat \<Rightarrow> uuid) \<Rightarrow> (network_envelope \<Rightarrow> string + bytes) \<Rightarrow> (bytes \<Rightarrow> network_envelope option) \<Rightarrow> bool" where
  "rejects_unknown_protocol_version u ser de \<longleftrightarrow>
     (let original = next_version_envelope u
      in ok_and (ser original) (\<lambda>bd. err_and (decode_body de bd) (\<lambda>e.
           case e of UnsupportedVersion _ _ \<Rightarrow> True | _ \<Rightarrow> False)))"

definition rejects_malformed_bytes :: "(bytes \<Rightarrow> network_envelope option) \<Rightarrow> bool" where
  "rejects_malformed_bytes de \<longleftrightarrow>
     (let garbage = replicate 32 0xff in err_and (decode_body de garbage) (\<lambda>e. e = MalformedFrame))"

definition rejects_empty_frame_body :: "(bytes \<Rightarrow> network_envelope option) \<Rightarrow> bool" where
  "rejects_empty_frame_body de \<longleftrightarrow> err_and (decode_body de []) (\<lambda>e. e = EmptyFrame)"

definition rejects_oversized_frame_before_decoding :: "(bytes \<Rightarrow> network_envelope option) \<Rightarrow> bool" where
  "rejects_oversized_frame_before_decoding de \<longleftrightarrow>
     (let oversized = replicate (MAX_WIRE_FRAME_BYTES + 1) 0
      in err_and (decode_body de oversized) (\<lambda>e. case e of FrameTooLarge _ _ \<Rightarrow> True | _ \<Rightarrow> False))"

definition encode_framed_rejects_oversized_text ::
  "(nat \<Rightarrow> uuid) \<Rightarrow> (network_envelope \<Rightarrow> string + bytes) \<Rightarrow> bool" where
  "encode_framed_rejects_oversized_text u ser \<longleftrightarrow>
     (let huge = replicate (MAX_WIRE_FRAME_BYTES + 1) (CHR ''a'');
          envelope = sample_text_envelope u huge
      in err_and (encode_framed ser envelope) (\<lambda>e. case e of FrameTooLarge _ _ \<Rightarrow> True | _ \<Rightarrow> False))"

definition validate_text_len_accepts_within_bound :: bool where
  "validate_text_len_accepts_within_bound \<longleftrightarrow>
     ok_and (validate_text_len ''hello'') (\<lambda>_. True) \<and> ok_and (validate_text_len '''') (\<lambda>_. True)"

definition validate_text_len_rejects_over_max :: bool where
  "validate_text_len_rejects_over_max \<longleftrightarrow>
     (let huge = replicate (MAX_TEXT_BYTES + 1) (CHR ''a'')
      in err_and (validate_text_len huge) (\<lambda>e. case e of TextTooLarge _ _ \<Rightarrow> True | _ \<Rightarrow> False))"

text \<open>Postcard serializes this value, within the frame limit, and reads it back.\<close>

definition postcard_reads ::
  "('a \<Rightarrow> string + bytes) \<Rightarrow> (bytes \<Rightarrow> 'a option) \<Rightarrow> 'a \<Rightarrow> bool" where
  "postcard_reads ser de v \<longleftrightarrow>
     ok_and (ser v) (\<lambda>bs. bs \<noteq> [] \<and> length bs \<le> MAX_WIRE_FRAME_BYTES \<and> de bs = Some v)"

lemma framed_reads:
  assumes "postcard_reads ser de e" and "protocol_version e = NETWORK_PROTOCOL_VERSION"
  shows "\<exists>framed. encode_framed ser e = Inr framed \<and> decode_body de (drop 4 framed) = Inr e \<and>
     unat (from_be_bytes (take 4 framed)) = length framed - 4"
proof -
  obtain bd where bd: "ser e = Inr bd" "bd \<noteq> []" "length bd \<le> MAX_WIRE_FRAME_BYTES" "de bd = Some e"
    using assms(1) by (auto simp: postcard_reads_def ok_and_def split: sum.splits)
  then have "length bd < 2 ^ 32"
    by (simp add: MAX_WIRE_FRAME_BYTES_def)
  then show ?thesis
    using bd assms(2) by (simp add: encode_framed_Inr decode_body_Inr unat_of_nat)
qed

lemma envelope_tests:
  "postcard_reads ser de (sample_text_envelope u hello_text) \<Longrightarrow> round_trips_text_envelope u ser de"
  "postcard_reads ser de (sample_text_envelope u three_lines) \<Longrightarrow> preserves_multiline_and_tabs_exactly u ser de"
  "postcard_reads ser de (test_ack_envelope u) \<Longrightarrow> round_trips_ack u ser de"
  by (auto simp: round_trips_text_envelope_def preserves_multiline_and_tabs_exactly_def round_trips_ack_def
      sample_text_envelope_def test_ack_envelope_def Let_def dest!: framed_reads)

lemma version_test:
  "postcard_reads ser de (next_version_envelope u) \<Longrightarrow> rejects_unknown_protocol_version u ser de"
  by (auto simp: rejects_unknown_protocol_version_def postcard_reads_def next_version_envelope_def decode_body_def
      NETWORK_PROTOCOL_VERSION_def Let_def ok_and_def split: sum.splits)

lemma decoder_tests:
  "de (replicate 32 0xff) = None \<Longrightarrow> rejects_malformed_bytes de" "rejects_empty_frame_body de"
  "rejects_oversized_frame_before_decoding de" validate_text_len_accepts_within_bound
  validate_text_len_rejects_over_max
  by (simp_all add: rejects_malformed_bytes_def rejects_empty_frame_body_def decode_body_def
      rejects_oversized_frame_before_decoding_def validate_text_len_accepts_within_bound_def
      validate_text_len_rejects_over_max_def validate_text_len_def MAX_TEXT_BYTES_def MAX_WIRE_FRAME_BYTES_def
      Let_def)

lemma oversized_text_test:
  assumes "\<And>t. \<exists>bd. ser (sample_text_envelope u t) = Inr bd \<and> length t \<le> length bd"
  shows "encode_framed_rejects_oversized_text u ser"
proof -
  let ?huge = "replicate (MAX_WIRE_FRAME_BYTES + 1) (CHR ''a'')"
  obtain bd where "ser (sample_text_envelope u ?huge) = Inr bd" "length ?huge \<le> length bd"
    using assms by blast
  then show ?thesis
    by (simp add: encode_framed_rejects_oversized_text_def Let_def encode_framed_def del: replicate.simps)
qed

section \<open>IPC frames\<close>

text \<open>\<open>serde_json::to_vec\<close> and \<open>from_slice\<close> of a response alone.\<close>

definition response_to_vec :: "json_codec \<Rightarrow> ipc_response \<Rightarrow> bytes option" where
  "response_to_vec j r = jc_text j (response_json j r)"

definition response_from_slice :: "json_codec \<Rightarrow> bytes \<Rightarrow> ipc_response option" where
  "response_from_slice j bs = Option.bind (jc_parse j bs) (response_of_json j)"

definition round_trips_request_and_response :: "(nat \<Rightarrow> uuid) \<Rightarrow> json_codec \<Rightarrow> bool" where
  "round_trips_request_and_response u j \<longleftrightarrow>
     (let req = request_new (u 0) 1 GET_STATUS (JObj []);
          resp = response_ok 1 (rq_id req) (JObj [(''uptime_secs'', JInt 42)])
      in some_and (request_to_vec j req) (\<lambda>bs. some_and (request_from_slice j bs) (\<lambda>decoded.
           rq_method decoded = GET_STATUS \<and> rq_id decoded = rq_id req)) \<and>
         some_and (response_to_vec j resp) (\<lambda>bs. some_and (response_from_slice j bs) (\<lambda>decoded.
           rs_ok decoded \<and>
           some_and (rs_result decoded) (\<lambda>v. get v ''uptime_secs'' = Some (JInt 42)))))"

definition error_response_carries_code_and_message :: "(nat \<Rightarrow> uuid) \<Rightarrow> json_codec \<Rightarrow> bool" where
  "error_response_carries_code_and_message u j \<longleftrightarrow>
     (let i = u 0; resp = response_err 1 i PEER_NOT_FOUND ''no such peer: Foo''
      in some_and (response_to_vec j resp) (\<lambda>bs. some_and (response_from_slice j bs) (\<lambda>decoded.
           \<not> rs_ok decoded \<and> some_and (rs_error decoded) (\<lambda>e. err_code e = PEER_NOT_FOUND))))"

text \<open>The JSON library prints this value and reads it back.\<close>

definition json_reads :: "json_codec \<Rightarrow> json \<Rightarrow> bool" where
  "json_reads j v \<longleftrightarrow> some_and (jc_text j v) (\<lambda>bs. jc_parse j bs = Some v)"

lemma json_readsD: "json_reads j v \<Longrightarrow> \<exists>bs. jc_text j v = Some bs \<and> jc_parse j bs = Some v"
  by (auto simp: json_reads_def some_and_def split: option.splits)

lemma request_reads:
  assumes "\<And>i. jc_uuid_parse j (jc_uuid j i) = Some i" and "json_reads j (request_json j q)"
  shows "some_and (request_to_vec j q) (\<lambda>bs. some_and (request_from_slice j bs) P) \<longleftrightarrow> P q"
  using json_readsD [OF assms(2)]
  by (auto simp: request_to_vec_def request_from_slice_def request_of_request_json [OF assms(1)])

lemma response_reads:
  assumes "\<And>i. jc_uuid_parse j (jc_uuid j i) = Some i" and "json_reads j (response_json j r)"
  shows "some_and (response_to_vec j r) (\<lambda>bs. some_and (response_from_slice j bs) P) \<longleftrightarrow> P (reread_response r)"
  using json_readsD [OF assms(2)]
  by (auto simp: response_to_vec_def response_from_slice_def response_of_response_json [OF assms(1)])

lemma ipc_tests:
  assumes "\<And>i. jc_uuid_parse j (jc_uuid j i) = Some i"
  shows "json_reads j (request_json j (request_new (u 0) 1 GET_STATUS (JObj []))) \<Longrightarrow>
     json_reads j (response_json j (response_ok 1 (u 0) (JObj [(''uptime_secs'', JInt 42)]))) \<Longrightarrow>
     round_trips_request_and_response u j"
    and "json_reads j (response_json j (response_err 1 (u 0) PEER_NOT_FOUND ''no such peer: Foo'')) \<Longrightarrow>
     error_response_carries_code_and_message u j"
  by (simp_all add: round_trips_request_and_response_def error_response_carries_code_and_message_def Let_def
      request_reads [OF assms] response_reads [OF assms] request_new_def)
    (simp_all add: reread_response_def)

section \<open>Tickets\<close>

text \<open>\<open>ticket::tests::sample\<close>\<close>

definition test_ticket :: pairing_ticket where
  "test_ticket =
     ticket_new ''iroh-endpoint-ticket-opaque-blob'' (replicate 32 7) 1800000000000 ''First'' ''First-PC''"

definition round_trips_through_text_encoding ::
  "(pairing_ticket \<Rightarrow> string + bytes) \<Rightarrow> (bytes \<Rightarrow> pairing_ticket option) \<Rightarrow> (bytes \<Rightarrow> string) \<Rightarrow>
     (string \<Rightarrow> bytes option) \<Rightarrow> bool" where
  "round_trips_through_text_encoding ser de b64e b64d \<longleftrightarrow>
     (let ticket = test_ticket
      in ok_and (ticket_encode ser b64e ticket) (\<lambda>text_of.
           prefix TICKET_PREFIX text_of \<and>
           ok_and (ticket_decode de b64d text_of) (\<lambda>decoded. decoded = ticket)))"

definition is_invalid_ticket :: "protocol_error \<Rightarrow> bool" where
  "is_invalid_ticket e \<longleftrightarrow> (case e of InvalidTicket _ \<Rightarrow> True | _ \<Rightarrow> False)"

definition rejects_missing_prefix ::
  "(bytes \<Rightarrow> pairing_ticket option) \<Rightarrow> (string \<Rightarrow> bytes option) \<Rightarrow> bool" where
  "rejects_missing_prefix de b64d \<longleftrightarrow> err_and (ticket_decode de b64d ''not-a-ticket'') is_invalid_ticket"

definition rejects_malformed_base64 ::
  "(bytes \<Rightarrow> pairing_ticket option) \<Rightarrow> (string \<Rightarrow> bytes option) \<Rightarrow> bool" where
  "rejects_malformed_base64 de b64d \<longleftrightarrow>
     err_and (ticket_decode de b64d ''lcp1_***not-base64***'') is_invalid_ticket"

definition rejects_oversized_ticket_text ::
  "(bytes \<Rightarrow> pairing_ticket option) \<Rightarrow> (string \<Rightarrow> bytes option) \<Rightarrow> bool" where
  "rejects_oversized_ticket_text de b64d \<longleftrightarrow>
     (let huge = TICKET_PREFIX @ replicate (MAX_TICKET_TEXT_BYTES + 1) (CHR ''a'')
      in err_and (ticket_decode de b64d huge) is_invalid_ticket)"

definition rejects_unknown_version ::
  "(pairing_ticket \<Rightarrow> string + bytes) \<Rightarrow> (bytes \<Rightarrow> pairing_ticket option) \<Rightarrow> (bytes \<Rightarrow> string) \<Rightarrow>
     (string \<Rightarrow> bytes option) \<Rightarrow> bool" where
  "rejects_unknown_version ser de b64e b64d \<longleftrightarrow>
     (let ticket = test_ticket\<lparr>pt_version := 99\<rparr>
      in ok_and (ser ticket) (\<lambda>bs.
           err_and (ticket_decode de b64d (TICKET_PREFIX @ b64e bs)) is_invalid_ticket))"

definition expiry_is_checked_against_caller_clock :: bool where
  "expiry_is_checked_against_caller_clock \<longleftrightarrow>
     (let ticket = test_ticket
      in \<not> ticket_is_expired ticket 1700000000000 \<and> ticket_is_expired ticket 1900000000000)"

definition ttl_is_clamped_to_bounds :: bool where
  "ttl_is_clamped_to_bounds \<longleftrightarrow>
     clamp_invite_ttl_secs 10 = MIN_INVITE_TTL_SECS \<and> clamp_invite_ttl_secs 10000 = MAX_INVITE_TTL_SECS \<and>
     clamp_invite_ttl_secs 300 = 300"

lemma ticket_text_test:
  assumes "ser test_ticket = Inr bs" and "de bs = Some test_ticket" and "b64d (b64e bs) = Some bs"
    and "length (b64e bs) \<le> 8000"
  shows "round_trips_through_text_encoding ser de b64e b64d"
  using assms
  by (simp add: round_trips_through_text_encoding_def ticket_encode_def ticket_decode_def Let_def test_ticket_def
      ticket_new_def MAX_TICKET_TEXT_BYTES_def TICKET_PREFIX_def strip_prefix_def)

text \<open>The texts that are rejected, whatever Postcard and base64 make of other texts.\<close>

lemma ticket_tests:
  "rejects_missing_prefix de b64d"
  "b64d ''***not-base64***'' = None \<Longrightarrow> rejects_malformed_base64 de b64d"
  "rejects_oversized_ticket_text de b64d"
  expiry_is_checked_against_caller_clock ttl_is_clamped_to_bounds
  by (simp_all add: rejects_missing_prefix_def rejects_malformed_base64_def rejects_oversized_ticket_text_def
      expiry_is_checked_against_caller_clock_def ttl_is_clamped_to_bounds_def ticket_decode_def is_invalid_ticket_def
      strip_prefix_def TICKET_PREFIX_def MAX_TICKET_TEXT_BYTES_def ticket_is_expired_def test_ticket_def
      ticket_new_def clamp_invite_ttl_secs_def MIN_INVITE_TTL_SECS_def MAX_INVITE_TTL_SECS_def Let_def
      word_less_nat_alt)

lemma ticket_version_test:
  assumes "ser (test_ticket\<lparr>pt_version := 99\<rparr>) = Inr bs" and "de bs = Some (test_ticket\<lparr>pt_version := 99\<rparr>)"
    and "b64d (b64e bs) = Some bs"
  shows "rejects_unknown_version ser de b64e b64d"
  using assms
  by (simp add: rejects_unknown_version_def Let_def ticket_decode_def is_invalid_ticket_def
      CURRENT_TICKET_VERSION_def)

end
