(* ===== verification/Lcp_Log.thy ===== *)
theory Lcp_Log
  imports Lcp_Conversation
begin

text \<open>
  What the message store of \<open>lcp-core/src/conversation.rs\<close> promises, as an abstract machine
  without queues, caches and counters: it keeps everything that was ever recorded.  The store
  implements it: hash map, bounded queues, the cache of ids with its set and its queue, and the
  64-bit counter together give the answers that the log gives.
\<close>

section \<open>The abstract store\<close>

text \<open>
  The log of a peer, how many of its oldest messages were dropped so far, and the peer and id of
  every incoming message that was accepted, in order.
\<close>

record store_spec =
  sg_log :: "string \<Rightarrow> stored_message list"
  sg_gone :: "string \<Rightarrow> nat"
  sg_accepted :: "(string \<times> uuid) list"
  sg_limit :: nat

definition recent :: "nat \<Rightarrow> 'a list \<Rightarrow> 'a list" where
  "recent n xs = drop (length xs - n) xs"

definition spec_new :: "nat \<Rightarrow> store_spec" where
  "spec_new limit = \<lparr>sg_log = (\<lambda>_. []), sg_gone = (\<lambda>_. 0), sg_accepted = [], sg_limit = limit\<rparr>"

definition visible :: "store_spec \<Rightarrow> string \<Rightarrow> stored_message list" where
  "visible g p = drop (sg_gone g p) (sg_log g p)"

text \<open>Adding a message drops old ones until at most the limit is visible; dropped ones stay dropped.\<close>

definition spec_add :: "store_spec \<Rightarrow> string \<Rightarrow> stored_message \<Rightarrow> store_spec" where
  "spec_add g p m =
     (let l = sg_log g p @ [m]
      in g\<lparr>sg_log := (sg_log g)(p := l), sg_gone := (sg_gone g)(p := max (sg_gone g p) (length l - sg_limit g))\<rparr>)"

definition spec_duplicate :: "store_spec \<Rightarrow> string \<Rightarrow> uuid \<Rightarrow> bool" where
  "spec_duplicate g p i \<longleftrightarrow> (p, i) \<in> set (recent DEDUP_CACHE_CAPACITY (sg_accepted g))"

fun spec_step :: "store_spec \<Rightarrow> store_op \<Rightarrow> store_spec" where
  "spec_step g (RecordIncoming p label i sent received t) =
     (if spec_duplicate g p i then g
      else (spec_add g p
              \<lparr>sm_id = i, sm_peer_id = p, sm_direction = Incoming, sm_sender_label = label, sm_text = t,
               sm_sent_at_unix_ms = sent, sm_received_at_unix_ms = received,
               sm_receive_sequence = Some (of_nat (length (sg_accepted g))), sm_status = Received\<rparr>)
             \<lparr>sg_accepted := sg_accepted g @ [(p, i)]\<rparr>)"
| "spec_step g (RecordOutgoing p i t st now) =
     spec_add g p
       \<lparr>sm_id = i, sm_peer_id = p, sm_direction = Outgoing, sm_sender_label = ''You'', sm_text = t,
        sm_sent_at_unix_ms = now, sm_received_at_unix_ms = now, sm_receive_sequence = None, sm_status = st\<rparr>"
| "spec_step g (UpdateStatus p i st) =
     g\<lparr>sg_log := (sg_log g)(p := take (sg_gone g p) (sg_log g p) @
         update_first (\<lambda>m. sm_id m = i) (\<lambda>m. m\<lparr>sm_status := st\<rparr>) (visible g p))\<rparr>"
| "spec_step g (SetLimit l) = g\<lparr>sg_limit := l\<rparr>"

abbreviation spec_run :: "store_spec \<Rightarrow> store_op list \<Rightarrow> store_spec" where
  "spec_run \<equiv> foldl spec_step"

definition latest_accepted :: "(string \<times> uuid) list \<Rightarrow> string \<Rightarrow> uuid option" where
  "latest_accepted ks p =
     (let own = filter (\<lambda>k. fst k = p) ks in if own = [] then None else Some (snd (last own)))"

section \<open>The simulation\<close>

definition cache_refines :: "(string \<times> uuid) bounded_dedup_cache \<Rightarrow> (string \<times> uuid) list \<Rightarrow> bool" where
  "cache_refines d ks \<longleftrightarrow>
     dedup_ok d \<and> dc_capacity d = DEDUP_CACHE_CAPACITY \<and> dc_order d = recent DEDUP_CACHE_CAPACITY ks"

definition refines :: "conversation_store \<Rightarrow> store_spec \<Rightarrow> bool" where
  "refines s g \<longleftrightarrow>
     (\<forall>p. messages_for s p = visible g p \<and> sg_gone g p \<le> length (sg_log g p) \<and>
          latest_of s p = latest_accepted (sg_accepted g) p) \<and>
     cache_refines (dedup_cache s) (sg_accepted g) \<and>
     next_receive_sequence s = of_nat (length (sg_accepted g)) \<and>
     latest_global s = (if sg_accepted g = [] then None else Some (last (sg_accepted g))) \<and>
     history_limit_per_peer s = sg_limit g"

lemma recent_snoc: "recent n (recent n xs @ [x]) = recent n (xs @ [x])"
  by (cases "n \<le> length xs") (simp_all add: recent_def Suc_diff_le)

lemma visible_add:
  assumes "sg_gone g p \<le> length (sg_log g p)"
  shows "visible (spec_add g p m) q = (if q = p then push_bounded (visible g p) m (sg_limit g) else visible g q)"
proof -
  have "drop k (drop (sg_gone g p) (sg_log g p) @ [m]) = drop (k + sg_gone g p) (sg_log g p @ [m])" for k
  proof -
    have "drop (sg_gone g p) (sg_log g p) @ [m] = drop (sg_gone g p) (sg_log g p @ [m])"
      using assms by simp
    then show ?thesis by (simp only: drop_drop)
  qed
  moreover have "Suc (length (sg_log g p) - sg_gone g p) - sg_limit g + sg_gone g p =
      max (sg_gone g p) (Suc (length (sg_log g p)) - sg_limit g)"
    using assms by (simp add: max_def; arith)
  ultimately show ?thesis
    by (simp add: visible_def spec_add_def push_bounded_drop Let_def del: drop_append)
qed

lemma spec_add_sel [simp]:
  "sg_accepted (spec_add g p m) = sg_accepted g" "sg_limit (spec_add g p m) = sg_limit g"
  by (simp_all add: spec_add_def Let_def)

lemma visible_accepted [simp]: "visible (g\<lparr>sg_accepted := ks\<rparr>) q = visible g q"
  by (simp add: visible_def)

lemma gone_add: "sg_gone g p \<le> length (sg_log g p) \<Longrightarrow> sg_gone g q \<le> length (sg_log g q) \<Longrightarrow>
   sg_gone (spec_add g p m) q \<le> length (sg_log (spec_add g p m) q)"
  by (simp add: spec_add_def Let_def)

lemma latest_accepted_snoc:
  "latest_accepted (ks @ [(p, i)]) q = (if q = p then Some i else latest_accepted ks q)"
  by (simp add: latest_accepted_def Let_def)

lemma cache_refines_contains:
  "cache_refines (dedup_cache s) (sg_accepted g) \<Longrightarrow>
   dedup_contains (dedup_cache s) (p, i) \<longleftrightarrow> spec_duplicate g p i"
  by (simp add: cache_refines_def spec_duplicate_def dedup.mem_iff)

lemma cache_refines_insert:
  "cache_refines d ks \<Longrightarrow> \<not> dedup_contains d k \<Longrightarrow> cache_refines (dedup_insert d k) (ks @ [k])"
  using recent_snoc [of DEDUP_CACHE_CAPACITY ks k] dedup.ins_new [of d k]
  by (simp add: cache_refines_def dedup.mem_iff dedup.ok_ins dedup.cap_ins recent_def)

lemma refines_new: "refines (store_new limit) (spec_new limit)"
  by (simp add: refines_def cache_refines_def store_new_def spec_new_def visible_def messages_for_def latest_of_def
      latest_accepted_def dedup_ok_new DEDUP_CACHE_CAPACITY_def recent_def)
    (simp add: dedup_new_def)

lemma refines_incoming:
  assumes "refines s g"
  shows "refines (store_step s (RecordIncoming p label i sent received t))
    (spec_step g (RecordIncoming p label i sent received t))"
proof (cases "dedup_contains (dedup_cache s) (p, i)")
  case True
  then show ?thesis
    using assms cache_refines_contains [of s g p i] by (simp add: refines_def record_incoming_dup)
next
  case False
  have c: "cache_refines (dedup_cache s) (sg_accepted g)" and gone: "\<And>q. sg_gone g q \<le> length (sg_log g q)"
    using assms by (simp_all add: refines_def)
  have "history_limit_per_peer (fst (record_incoming s p label i sent received t)) = history_limit_per_peer s"
    by (simp add: record_incoming_def Let_def)
  moreover have "\<not> spec_duplicate g p i"
    using cache_refines_contains [OF c] False by simp
  ultimately show ?thesis
    using assms False cache_refines_insert [OF c False] gone gone_add [OF gone gone, of p]
      latest_of_step(1) [OF False, of label sent received t] sequence_step(1) [OF False, of label sent received t]
      global_step(1) [OF False, of label sent received t]
    by (simp add: refines_def messages_for_record_incoming visible_add dedup_record_incoming latest_accepted_snoc)
qed

lemma refines_outgoing:
  assumes "refines s g"
  shows "refines (store_step s (RecordOutgoing p i t st now)) (spec_step g (RecordOutgoing p i t st now))"
proof -
  have gone: "\<And>q. sg_gone g q \<le> length (sg_log g q)"
    using assms by (simp add: refines_def)
  have "history_limit_per_peer (fst (record_outgoing s p i t st now)) = history_limit_per_peer s"
    "dedup_cache (fst (record_outgoing s p i t st now)) = dedup_cache s"
    by (simp_all add: record_outgoing_def Let_def)
  then show ?thesis
    using assms gone gone_add [OF gone gone, of p] latest_of_step(2) [of s p i t st now]
      sequence_step(2) [of s p i t st now] global_step(2) [of s p i t st now]
    by (simp add: refines_def messages_for_record_outgoing visible_add) (simp add: record_outgoing_def Let_def)
qed

lemma refines_update:
  assumes "refines s g"
  shows "refines (store_step s (UpdateStatus p i st)) (spec_step g (UpdateStatus p i st))"
proof -
  have gone: "\<And>q. sg_gone g q \<le> length (sg_log g q)"
    using assms by (simp add: refines_def)
  have "history_limit_per_peer (update_outgoing_status s p i st) = history_limit_per_peer s"
    "dedup_cache (update_outgoing_status s p i st) = dedup_cache s"
    by (simp_all add: update_outgoing_status_def split: option.split)
  then show ?thesis
    using assms gone latest_of_step(3) [of s p i st] sequence_step(3) [of s p i st] global_step(3) [of s p i st]
    by (simp add: refines_def messages_for_update) (auto simp: visible_def)
qed

lemma refines_step: "refines s g \<Longrightarrow> refines (store_step s oper) (spec_step g oper)"
proof (cases oper)
  case (SetLimit l)
  moreover assume "refines s g"
  ultimately show ?thesis
    by (simp add: refines_def set_history_limit_def messages_for_def visible_def latest_of_def)
qed (simp_all only: refines_incoming refines_outgoing refines_update)

lemma refines_run: "refines s g \<Longrightarrow> refines (store_run s ops) (spec_run g ops)"
  by (induction ops arbitrary: s g) (simp_all add: refines_step)

section \<open>Property\<close>

text \<open>
  C20.  The store implements its specification, for every sequence of operations and every limit,
  changed at any time: the history of a peer is what the log has recorded for it less the
  messages that had to go, oldest first; the next incoming message is a duplicate exactly when its peer
  and id are among the last 10,000 accepted ones; receive sequences count the accepted
  messages; and the latest incoming ids, of each peer and overall, are those of the last
  accepted messages.
\<close>

theorem store_implements_log:
  "let s = store_run (store_new limit) ops; g = spec_run (spec_new limit) ops
   in messages_for s p = drop (sg_gone g p) (sg_log g p) \<and>
      (snd (record_incoming s p label i sent received t) = DuplicateMessage \<longleftrightarrow>
         (p, i) \<in> set (recent DEDUP_CACHE_CAPACITY (sg_accepted g))) \<and>
      next_receive_sequence s = of_nat (length (sg_accepted g)) \<and>
      latest_of s p = latest_accepted (sg_accepted g) p \<and>
      latest_global s = (if sg_accepted g = [] then None else Some (last (sg_accepted g)))"
proof -
  let ?s = "store_run (store_new limit) ops" and ?g = "spec_run (spec_new limit) ops"
  have r: "refines ?s ?g" by (rule refines_run [OF refines_new])
  have "snd (record_incoming ?s p label i sent received t) = DuplicateMessage \<longleftrightarrow>
      dedup_contains (dedup_cache ?s) (p, i)"
    by (simp add: record_incoming_def Let_def)
  also have "\<dots> \<longleftrightarrow> (p, i) \<in> set (recent DEDUP_CACHE_CAPACITY (sg_accepted ?g))"
    using r cache_refines_contains [of ?s ?g p i] by (simp add: refines_def spec_duplicate_def)
  finally show ?thesis
    using r by (simp add: refines_def visible_def Let_def)
qed

end
