(* ===== verification/Spec2Isabelle.thy ===== *)
theory Spec2Isabelle
  imports Lcp_Lifecycle Lcp_Origin Lcp_Announce Lcp_Serve Lcp_Install Lcp_Settings Lcp_Wire_Tests Lcp_Log
begin

text \<open>
  LCP lets two paired machines exchange texts.  The daemon \<open>lanclipd\<close> owns the identity, the
  configuration, the trusted peers, the conversations in memory and the connections to other
  daemons; the command line \<open>lcp\<close> talks to its own daemon over a local socket.  This library
  models both programs, translated from the Rust sources under \<open>src/crates\<close>, and proves what
  makes them correct.

  \<^bold>\<open>Parts and how they interact.\<close>  A peer daemon opens an authenticated stream; \<open>accept\<close>
  (\<open>Lcp_Transport\<close>) serves it, under the lock of the shared state, as a text to be recorded or as a
  pairing request (\<open>Lcp_Handshake\<close>).  A client opens the socket; the connection loop
  (\<open>Lcp_Server\<close>) reads frames, hands each request to the dispatcher (\<open>Lcp_Daemon\<close>) and writes
  its response and later events; \<open>Lcp_Client\<close> is the other end, and the commands of \<open>lcp\<close>
  (\<open>Lcp_Commands\<close>, \<open>Lcp_Admin\<close>) are what a user starts.

  \<^bold>\<open>Theories and sources.\<close>
  \<^item> \<open>Lcp_Prelude\<close>: words, strings as UTF-8 bytes, lists.  \<open>Lcp_Json\<close>: \<open>serde_json::Value\<close>.
  \<^item> \<open>Lcp_Wire\<close>, \<open>Lcp_Ticket\<close>, \<open>Lcp_Ipc\<close>, \<open>Lcp_Codec\<close>: \<open>lcp-protocol/src/{network,ticket,ipc}.rs\<close>
    and \<open>lcp-ipc/src/framing.rs\<close>.
  \<^item> \<open>Lcp_Peers\<close>, \<open>Lcp_Config\<close>, \<open>Lcp_Conversation\<close>, \<open>Lcp_Connection\<close>, \<open>Lcp_Pairing\<close>: the data and the
    sequential operations of \<open>lcp-core/src/{peers,config,conversation,connection,pairing}.rs\<close>.
    \<open>Lcp_Log\<close>: the specification of the message store as a log, which the store implements.
  \<^item> \<open>Lcp_State\<close>: \<open>lcp-core/src/state.rs\<close>, the third-party parameters (\<open>externs\<close>) and the
    environment of a lock section (\<open>lock_env\<close>).  \<open>Lcp_Task\<close>: asynchronous code.
  \<^item> \<open>Lcp_Envelope\<close>, \<open>Lcp_Handshake\<close>, \<open>Lcp_Transport\<close>: the asynchronous part of \<open>pairing.rs\<close> and
    \<open>transport.rs\<close>.
  \<^item> \<open>Lcp_Diagnostics\<close>: \<open>diagnostics.rs\<close> and \<open>identity.rs\<close>.  \<open>Lcp_Daemon\<close>: the dispatcher of
    \<open>lanclipd/src/main.rs\<close>.  \<open>Lcp_Startup\<close>: its \<open>main\<close> on Unix, and \<open>bind\<close> of \<open>lcp-ipc/src/unix.rs\<close>.
  \<^item> \<open>Lcp_Pipe\<close>: \<open>lcp-ipc/src/windows.rs\<close>.  \<open>Lcp_Serve\<close>: the accept loops of both platforms, \<open>main\<close> on
    Windows, and \<open>try_connect\<close> of \<open>lcp-cli/src/daemon_conn.rs\<close>.
  \<^item> \<open>Lcp_Guarantees\<close>, \<open>Lcp_System\<close>, \<open>Lcp_Forms\<close>, \<open>Lcp_Announce\<close>: what holds of each request, and of any
    number of connections and requests interleaved: trust and bounds, the form of the records, the
    truth of the events.
  \<^item> \<open>Lcp_Server\<close>, \<open>Lcp_Client\<close>, \<open>Lcp_Session\<close>: \<open>lcp-ipc/src/{server,client}.rs\<close>, and both together with
    the dispatcher.
  \<^item> \<open>Lcp_Picker\<close>, \<open>Lcp_Cli\<close>, \<open>Lcp_Commands\<close>, \<open>Lcp_Admin\<close>: \<open>lcp-cli/src\<close>.  \<open>Lcp_Usage\<close>, \<open>Lcp_Consent\<close>,
    \<open>Lcp_Texts\<close>, \<open>Lcp_Lifecycle\<close>, \<open>Lcp_Exit\<close>, \<open>Lcp_Settings\<close>: what the commands promise.  \<open>Lcp_Install\<close>: \<open>autostart\<close>,
    \<open>clipboard.rs\<close> and \<open>spawn_daemon\<close>.
  \<^item> \<open>Lcp_Delivery\<close>: a text from one \<open>lcp send\<close> to the store of another machine's daemon.
    \<open>Lcp_Origin\<close>: what \<open>lcp copy\<close> puts on the clipboard, back to the step that recorded it.
  \<^item> \<open>Lcp_Tests\<close>, \<open>Lcp_Wire_Tests\<close>: the unit tests of the sources, proved of the model.

  \<^bold>\<open>How the code is read.\<close>  Structs are records, enums datatypes, integers words of their width, a
  \<open>Result\<close> a sum.  A hash map is a partial function.  A synchronous function is a function of the
  same name.  An asynchronous function of the daemon is a \<open>task\<close>: a tree with one constructor per
  await or lock section; \<open>estep\<close> runs it one step on any event of the environment, \<open>pool_step\<close> any
  number of tasks in any order over one \<open>world\<close>, and \<open>reachable\<close> is their closure.  \<open>always\<close> is a
  condition on a task by recursion on the tree that implies a property of its every run.  The IPC
  server and client are records whose steps (\<open>handle_connection\<close>, \<open>client_step\<close>) are what
  happens between two awaits.  A command of \<open>lcp\<close> is a tree \<open>cli\<close> of what it does to the
  outside; \<open>runs\<close> executes it against any environment, and \<open>csafe\<close> is to it what \<open>always\<close> is to
  a task, with loop invariants.  Binding the socket is a sequence of system calls, each of which can
  fail, and which two processes can interleave.  The named pipe acts on an abstract machine of pipes
  and security descriptors (\<open>win\<close>), and an installer is a tree of file operations and tools.

  \<^bold>\<open>Interfaces.\<close>  Locales state the contracts that clients rest on, each interpreted on the model's
  own definitions: the cache of seen ids (\<open>Lcp_Conversation\<close>), the rules on lock sections and
  steps of the handlers (\<open>Lcp_Transport\<close>, \<open>Lcp_Daemon\<close>, \<open>Lcp_System\<close>), the request handler of a
  connection (\<open>Lcp_Session\<close>, provided by the dispatcher), conditions on the actions of a
  command (\<open>print_rule\<close>, \<open>act_rule\<close> in \<open>Lcp_Usage\<close>), and a loop that accepts connections (\<open>acceptor\<close>
  in \<open>Lcp_Serve\<close>, provided by the socket and by the pipe).  The rule for every step of the daemon is
  used for four relations: bounds, consent, the form of the records, and announced events.

  \<^bold>\<open>What is shown.\<close>  Trust: an endpoint is trusted only after the local user's yes and both
  confirmations on one stream, in every interleaving; on the side of \<open>lcp\<close>, the yes follows the
  verification string of that very pairing, and the success of \<open>pair\<close> means that the daemon stored a
  peer.  Texts: a text is recorded only from a trusted peer,
  acknowledged only after it was recorded, once; \<open>send\<close> transmits exactly the given text and
  reports success only for an acknowledged one, and two machines together: that text was stored
  by the other daemon, unless it had recorded the id before; \<open>copy\<close>, \<open>pick\<close> and \<open>invite\<close> put on the clipboard
  exactly what the daemon answered.  A copied text
  arrived from a trusted peer, or was sent by this machine.  The store of messages implements a log
  of everything recorded, less the oldest messages.  State: from a start within them the bounds of histories, caches and invites hold always, and
  so does the form of every record; an event is queued only by the step that did what it says;
  saving the configuration is atomic under any fault or crash, and acknowledged changes are in
  the synced file (a crash may still bring the old file back, as its directory is not synced).  IPC: frames and serialization are read back, responses come in order and reach the
  call they belong to, a connection terminates; a call whose connection breaks is not woken as long
  as nothing else is called.
  Processes: one daemon per profile as long as its socket can be probed, a pipe that only the
  user's SID may open, a CLI that finds the daemon of its profile, restart with the same identity
  and configuration,
  at most one start of a daemon per command, checked success of \<open>start\<close>, \<open>stop\<close> and \<open>restart\<close>,
  and the exit code of every command.

  \<^bold>\<open>Bounds and fuel.\<close>  All recursion is structural or has a measure.  \<open>socket_bind\<close> makes at most the
  six calls of the code.  \<open>retry_connect\<close> counts down the code's 30 attempts.  The loops of
  commands that wait for events or poll, and the tasks of the daemon, are relations and need no
  fuel; \<open>script\<close> and \<open>run_schedule\<close>, with fuel, only serve concrete examples.

  \<^bold>\<open>Parameters.\<close>  Code outside \<open>src\<close> is an argument: postcard, base64, BLAKE3, keys and random bytes,
  UUID text, Debug forms (\<open>externs\<close>); clock, files, variables, fresh ids, closed connections
  (\<open>lock_env\<close>, \<open>os_env\<close>); the JSON text of a value (\<open>json_codec\<close>); local time, the terminal, lower
  case (\<open>cli_env\<close> and arguments of the picker); what the network, the user and the clipboard answer
  are events and actions of the environment.

  \<^bold>\<open>The platform.\<close>  Files (\<open>fs\<close>) have the bytes that readers see, the bytes that are synced,
  and what a crash may leave in their place while the directory is not synced.  The Windows calls
  (\<open>convert_descriptor\<close>, \<open>create_pipe\<close>, \<open>local_free\<close>), the Unix ones and the terminal are
  small machines that behave as documented, each call with its failure.

  \<^bold>\<open>Not modelled.\<close>  Printing is taken to work: \<open>println!\<close> panics (exit code 101) on a closed
  standard output.  Setting up the log makes a directory and a file that are no part of the model's
  disk.  Calls into libraries without logic of the program's own: the tracing subscriber
  and the contents of logs, building the Iroh endpoint and router, the file mode of the socket, the
  parsing of arguments by clap, pretty-printing of JSON.  The wait of \<open>main\<close> for the first of a
  shutdown request and ctrl-c is the event that ends a run.  \<open>std\<close>'s hash of the profile directory is
  a parameter of the name of the pipe.
\<close>

end
